(* ===== verification/Prelude.thy ===== *)
theory Prelude
  imports Main "HOL-Library.Word"
begin

text \<open>
  Shared vocabulary of the development: Rust's fixed-width integers as words,
  big-endian byte conversions, bounds-checked slices, the \<open>?\<close> operator on
  \<open>Result\<close>, and the generic machine locales that the components instantiate.

  \<open>usize\<close> is modelled as \<open>nat\<close>: every \<open>usize\<close> of the source is a buffer
  length or a 16-bit field widened to \<open>usize\<close>, so the saturating operations
  on it never saturate.
\<close>

section \<open>Machine integers and byte strings\<close>

type_synonym u8 = "8 word"
type_synonym u16 = "16 word"
type_synonym u32 = "32 word"
type_synonym u64 = "64 word"
type_synonym bytes = "8 word list"

named_theorems codec_simps \<open>unfolding rules for the frame and packet codecs\<close>
named_theorems step_defs \<open>definitions of the state-machine handlers\<close>

text \<open>\<open>u16::from_be_bytes\<close>, \<open>u16::to_be_bytes\<close> and their 32-bit counterparts.\<close>

definition u16_from_be :: "u8 \<Rightarrow> u8 \<Rightarrow> u16" where
  "u16_from_be hi lo = word_of_nat (256 * unat hi + unat lo)"

definition u16_to_be :: "u16 \<Rightarrow> bytes" where
  "u16_to_be w = [word_of_nat (unat w div 256), word_of_nat (unat w mod 256)]"

definition u32_from_be :: "u8 \<Rightarrow> u8 \<Rightarrow> u8 \<Rightarrow> u8 \<Rightarrow> u32" where
  "u32_from_be a b c d =
     word_of_nat (16777216 * unat a + 65536 * unat b + 256 * unat c + unat d)"

definition u32_to_be :: "u32 \<Rightarrow> bytes" where
  "u32_to_be w =
     [word_of_nat (unat w div 16777216), word_of_nat (unat w div 65536 mod 256),
      word_of_nat (unat w div 256 mod 256), word_of_nat (unat w mod 256)]"

text \<open>\<open>u16::try_from\<close> on a \<open>usize\<close>.\<close>

definition u16_try_from :: "nat \<Rightarrow> u16 option" where
  "u16_try_from n = (if n < 65536 then Some (word_of_nat n) else None)"

text \<open>\<open>u32::saturating_add\<close>.\<close>

definition saturating_add_u32 :: "u32 \<Rightarrow> u32 \<Rightarrow> u32" where
  "saturating_add_u32 a b = (if unat a + unat b < 2 ^ 32 then a + b else - 1)"

lemma unat_u8_less [simp]: "unat (x :: u8) < 256"
  using unsigned_less [of x] by simp

lemma unat_u16_less [simp]: "unat (x :: u16) < 65536"
  using unsigned_less [of x] by simp

lemma unat_u32_less [simp]: "unat (x :: u32) < 4294967296"
  using unsigned_less [of x] by simp

lemma unat_of_nat_u8 [simp]: "unat (word_of_nat n :: u8) = n mod 256"
  by (simp add: unsigned_of_nat take_bit_eq_mod)

lemma unat_of_nat_u16 [simp]: "unat (word_of_nat n :: u16) = n mod 65536"
  by (simp add: unsigned_of_nat take_bit_eq_mod)

lemma unat_of_nat_u32 [simp]: "unat (word_of_nat n :: u32) = n mod 4294967296"
  by (simp add: unsigned_of_nat take_bit_eq_mod)

lemma unat_u16_from_be [simp]: "unat (u16_from_be hi lo) = 256 * unat hi + unat lo"
proof -
  have "256 * unat hi + unat lo < 65536"
    using unat_u8_less [of hi] unat_u8_less [of lo] by linarith
  then show ?thesis unfolding u16_from_be_def unat_of_nat_u16 by simp
qed

lemma unat_u32_from_be:
  "unat (u32_from_be a b c d) =
     16777216 * unat a + 65536 * unat b + 256 * unat c + unat d"
proof -
  have "16777216 * unat a + 65536 * unat b + 256 * unat c + unat d < 4294967296"
    using unat_u8_less [of a] unat_u8_less [of b] unat_u8_less [of c] unat_u8_less [of d]
    by linarith
  then show ?thesis unfolding u32_from_be_def unat_of_nat_u32 by simp
qed

lemma u16_to_be_length [simp]: "length (u16_to_be w) = 2"
  by (simp add: u16_to_be_def)

lemma u32_to_be_length [simp]: "length (u32_to_be w) = 4"
  by (simp add: u32_to_be_def)

lemma u16_be_roundtrip:
  "u16_from_be (word_of_nat (unat w div 256)) (word_of_nat (unat w mod 256)) = w"
proof -
  have "unat w div 256 < 256" using unat_u16_less [of w] by linarith
  then have "unat (u16_from_be (word_of_nat (unat w div 256)) (word_of_nat (unat w mod 256)))
      = unat w"
    by simp
  then show ?thesis by (rule unsigned_word_eqI)
qed

lemma u16_be_roundtrip2: "u16_to_be (u16_from_be hi lo) = [hi, lo]"
proof -
  have "(256 * unat hi + unat lo) div 256 = unat hi"
    using unat_u8_less [of lo] by simp
  moreover have "(256 * unat hi + unat lo) mod 256 = unat lo"
    using unat_u8_less [of lo] by simp
  ultimately show ?thesis by (simp add: u16_to_be_def)
qed

lemma u16_to_be_inject: "u16_to_be a = u16_to_be b \<longleftrightarrow> a = b"
proof
  assume "u16_to_be a = u16_to_be b"
  then have "u16_from_be (u16_to_be a ! 0) (u16_to_be a ! 1) = u16_from_be (u16_to_be b ! 0) (u16_to_be b ! 1)"
    by simp
  then show "a = b" by (simp only: u16_to_be_def nth_Cons_0 One_nat_def nth_Cons_Suc u16_be_roundtrip)
qed simp

lemma base256_digits:
  fixes n :: nat
  shows "16777216 * (n div 16777216) + 65536 * (n div 65536 mod 256)
    + 256 * (n div 256 mod 256) + n mod 256 = n"
proof -
  have a: "n div 65536 = n div 256 div 256" by (simp add: div_mult2_eq [symmetric])
  have b: "n div 16777216 = n div 256 div 256 div 256" by (simp add: div_mult2_eq [symmetric])
  have "n = 256 * (n div 256) + n mod 256" by simp
  moreover have "n div 256 = 256 * (n div 256 div 256) + n div 256 mod 256" by simp
  moreover have "n div 256 div 256 = 256 * (n div 256 div 256 div 256) + n div 256 div 256 mod 256"
    by simp
  ultimately show ?thesis unfolding a b by linarith
qed

lemma u32_be_roundtrip:
  "u32_from_be (word_of_nat (unat w div 16777216)) (word_of_nat (unat w div 65536 mod 256))
     (word_of_nat (unat w div 256 mod 256)) (word_of_nat (unat w mod 256)) = w"
proof -
  have "unat w div 16777216 < 256" using unat_u32_less [of w] by linarith
  then have "unat (u32_from_be (word_of_nat (unat w div 16777216))
      (word_of_nat (unat w div 65536 mod 256)) (word_of_nat (unat w div 256 mod 256))
      (word_of_nat (unat w mod 256))) = unat w"
    by (simp add: unat_u32_from_be base256_digits)
  then show ?thesis by (rule unsigned_word_eqI)
qed

lemma u16_try_from_Some_iff: "u16_try_from n = Some w \<longleftrightarrow> n = unat w"
proof
  assume "u16_try_from n = Some w"
  then show "n = unat w" by (auto simp: u16_try_from_def split: if_splits)
next
  assume "n = unat w"
  then show "u16_try_from n = Some w" by (simp add: u16_try_from_def)
qed

lemma saturating_add_u32_no_overflow:
  assumes "unat a + unat b < 2 ^ 32"
  shows "unat (saturating_add_u32 a b) = unat a + unat b"
  using assms by (simp add: saturating_add_u32_def unat_word_ariths)

section \<open>Slices\<close>

text \<open>\<open>buf.get(..n)\<close>, \<open>buf.get(n..)\<close> and \<open>buf.get(a..b)\<close>: \<open>None\<close> out of range.\<close>

definition get_upto :: "nat \<Rightarrow> 'a list \<Rightarrow> 'a list option" where
  "get_upto n xs = (if n \<le> length xs then Some (take n xs) else None)"

definition get_from :: "nat \<Rightarrow> 'a list \<Rightarrow> 'a list option" where
  "get_from n xs = (if n \<le> length xs then Some (drop n xs) else None)"

definition get_range :: "nat \<Rightarrow> nat \<Rightarrow> 'a list \<Rightarrow> 'a list option" where
  "get_range a b xs =
     (if a \<le> b \<and> b \<le> length xs then Some (take (b - a) (drop a xs)) else None)"

text \<open>\<open>buf.get(i)\<close>.\<close>

definition get_at :: "nat \<Rightarrow> 'a list \<Rightarrow> 'a option" where
  "get_at i xs = (if i < length xs then Some (xs ! i) else None)"

lemma length_eq_4_cases:
  "length xs = 4 \<Longrightarrow> \<exists>a b c d. xs = [a, b, c, d]"
  by (auto simp: numeral_eq_Suc length_Suc_conv)

lemma length_eq_14_cases:
  "length xs = 14 \<Longrightarrow> \<exists>a b c d e f g h i j k l m n. xs = [a, b, c, d, e, f, g, h, i, j, k, l, m, n]"
  by (auto simp: numeral_eq_Suc length_Suc_conv)

lemma get_upto_4_Some [simp]: "get_upto 4 (a # b # c # d # xs) = Some [a, b, c, d]"
  by (simp add: get_upto_def)

lemma get_upto_None_iff: "get_upto n xs = None \<longleftrightarrow> length xs < n"
  by (auto simp: get_upto_def)

lemma get_upto_4_cases:
  obtains (short) "length xs < 4" "get_upto 4 xs = None"
    | (header) a b c d ys where "xs = a # b # c # d # ys" "get_upto 4 xs = Some [a, b, c, d]"
proof (cases "length xs < 4")
  case True
  then show ?thesis using short by (simp add: get_upto_def)
next
  case False
  then obtain a b c d where "take 4 xs = [a, b, c, d]"
    using length_eq_4_cases [of "take 4 xs"] by auto
  then have "xs = a # b # c # d # drop 4 xs"
    by (metis append_Cons append_Nil append_take_drop_id)
  with header False show ?thesis by (metis get_upto_4_Some)
qed

lemma get_from_exact [simp]: "length ys = n \<Longrightarrow> get_from n (ys @ xs) = Some xs"
  by (auto simp: get_from_def)

section \<open>Results\<close>

text \<open>
  \<open>Result<T, E>\<close> is \<open>'e + 'a\<close>, with \<open>Inl\<close> for \<open>Err\<close>; \<open>and_then r f\<close> is
  \<open>let x = r?; f(x)\<close>.
\<close>

definition and_then :: "'e + 'a \<Rightarrow> ('a \<Rightarrow> 'e + 'b) \<Rightarrow> 'e + 'b" where
  "and_then r f = (case r of Inl e \<Rightarrow> Inl e | Inr x \<Rightarrow> f x)"

text \<open>\<open>std::io::Error\<close>: an error number of the operating system, or an error made by a library with its text.\<close>

datatype IoError = OsError int | OtherError string

text \<open>\<open>map_err\<close> and \<open>ok_or\<close>.\<close>

definition map_err :: "('e \<Rightarrow> 'd) \<Rightarrow> 'e + 'a \<Rightarrow> 'd + 'a" where
  "map_err g r = (case r of Inl e \<Rightarrow> Inl (g e) | Inr x \<Rightarrow> Inr x)"

definition ok_or :: "'a option \<Rightarrow> 'e \<Rightarrow> 'e + 'a" where
  "ok_or m e = (case m of None \<Rightarrow> Inl e | Some x \<Rightarrow> Inr x)"

lemma and_then_simps [simp]:
  "and_then (Inl e) f = Inl e"
  "and_then (Inr x) f = f x"
  by (simp_all add: and_then_def)

lemma map_err_simps [simp]:
  "map_err g (Inl e) = Inl (g e)"
  "map_err g (Inr x) = Inr x"
  by (simp_all add: map_err_def)

lemma ok_or_simps [simp]:
  "ok_or None e = Inl e"
  "ok_or (Some x) e = Inr x"
  by (simp_all add: ok_or_def)

lemma and_then_Inr_iff: "and_then r f = Inr y \<longleftrightarrow> (\<exists>x. r = Inr x \<and> f x = Inr y)"
  by (cases r) auto

lemma and_then_Inl_iff:
  "and_then r f = Inl e \<longleftrightarrow> r = Inl e \<or> (\<exists>x. r = Inr x \<and> f x = Inl e)"
  by (cases r) auto

lemma map_err_Inr_iff [simp]: "map_err g r = Inr x \<longleftrightarrow> r = Inr x"
  by (cases r) auto

lemma map_err_Inl_iff: "map_err g r = Inl d \<longleftrightarrow> (\<exists>e. r = Inl e \<and> d = g e)"
  by (cases r) auto

lemma ok_or_Inr_iff [simp]: "ok_or m e = Inr x \<longleftrightarrow> m = Some x"
  by (cases m) auto

text \<open>
  The same for code that changes a state on the way (a connection, the daemon): the
  state reached is returned with the error too.
\<close>

definition then_do :: "'s \<times> ('e + 'a) \<Rightarrow> ('a \<Rightarrow> 's \<Rightarrow> 's \<times> ('e + 'b)) \<Rightarrow> 's \<times> ('e + 'b)" where
  "then_do r f = (case snd r of Inl e \<Rightarrow> (fst r, Inl e) | Inr x \<Rightarrow> f x (fst r))"

lemma then_do_simps [simp]:
  "then_do (s, Inl e) f = (s, Inl e)"
  "then_do (s, Inr x) f = f x s"
  by (simp_all add: then_do_def)

lemma then_do_ok_iff:
  "then_do r f = (s', Inr y) \<longleftrightarrow> (\<exists>s x. r = (s, Inr x) \<and> f x s = (s', Inr y))"
  by (cases r; cases "snd r") auto

lemma then_do_err_iff:
  "then_do r f = (s', Inl e) \<longleftrightarrow> r = (s', Inl e) \<or> (\<exists>s x. r = (s, Inr x) \<and> f x s = (s', Inl e))"
  by (cases r; cases "snd r") auto

section \<open>Lists\<close>

text \<open>\<open>slice::chunks(n)\<close>: non-overlapping pieces of \<open>n\<close> elements, the last one shorter.\<close>

function chunks :: "nat \<Rightarrow> 'a list \<Rightarrow> 'a list list" where
  "chunks n xs = (if n = 0 \<or> xs = [] then [] else take n xs # chunks n (drop n xs))"
  by pat_completeness auto
termination
  by (relation "measure (\<lambda>(n, xs). length xs)") auto

declare chunks.simps [simp del]

lemma chunks_Nil [simp]: "chunks n [] = []"
  by (simp add: chunks.simps)

lemma chunks_short: "xs \<noteq> [] \<Longrightarrow> length xs \<le> n \<Longrightarrow> chunks n xs = [xs]"
  by (cases n) (simp_all add: chunks.simps)

lemma concat_chunks: "0 < n \<Longrightarrow> concat (chunks n xs) = xs"
proof (induction n xs rule: chunks.induct)
  case (1 n xs)
  then show ?case by (cases "xs = []") (simp_all add: chunks.simps [of n xs])
qed

lemma chunks_bounds: "0 < n \<Longrightarrow> c \<in> set (chunks n xs) \<Longrightarrow> c \<noteq> [] \<and> length c \<le> n"
proof (induction n xs rule: chunks.induct)
  case (1 n xs)
  then show ?case by (cases "xs = []") (auto simp: chunks.simps [of n xs])
qed

lemma length_chunks: "0 < n \<Longrightarrow> length (chunks n xs) = (length xs + n - 1) div n"
proof (induction n xs rule: chunks.induct)
  case (1 n xs)
  show ?case
  proof (cases "xs = []")
    case False
    with 1 have IH: "length (chunks n (drop n xs)) = (length xs - n + n - 1) div n"
      by simp
    show ?thesis
    proof (cases "n \<le> length xs")
      case True
      with False 1(2) IH show ?thesis
        by (simp add: chunks.simps [of n xs] le_div_geq)
    next
      case shorter: False
      have "(length xs + n - 1) div n = 1"
        using False shorter 1(2) by (cases xs) (simp_all add: div_nat_eqI)
      then show ?thesis
        using False shorter 1(2) by (simp add: chunks.simps [of n xs])
    qed
  qed (use 1(2) in simp)
qed

lemma find_append: "List.find P (xs @ ys) =
    (case List.find P xs of None \<Rightarrow> List.find P ys | Some x \<Rightarrow> Some x)"
  by (induction xs) auto

lemma find_SomeD: "List.find P xs = Some x \<Longrightarrow> x \<in> set xs \<and> P x"
  by (induction xs) (auto split: if_splits)

lemma find_None_filter: "List.find P xs = None \<longleftrightarrow> filter P xs = []"
  by (induction xs) auto

section \<open>Machines\<close>

text \<open>
  The deterministic machines of the source (a session, a port, a correlation
  state) share one contract: a step consumes an event and returns the next state
  with the list of outputs, and keeps an invariant. \<open>run\<close> is the trace semantics.
\<close>

fun run_machine :: "('s \<Rightarrow> 'e \<Rightarrow> 's \<times> 'o list) \<Rightarrow> 's \<Rightarrow> 'e list \<Rightarrow> 's \<times> 'o list" where
  "run_machine step s [] = (s, [])"
| "run_machine step s (e # es) =
     (let (s', out) = step s e; (s'', out') = run_machine step s' es in (s'', out @ out'))"

lemma run_machine_append:
  "run_machine step s (es @ fs) =
     (let (s', out) = run_machine step s es; (s'', out') = run_machine step s' fs
      in (s'', out @ out'))"
  by (induction es arbitrary: s) (auto simp: Let_def split: prod.splits)

text \<open>A machine whose outputs are watched by a monitor (a ghost state folded over the outputs).\<close>

locale monitored_machine =
  fixes step :: "'s \<Rightarrow> 'e \<Rightarrow> 's \<times> 'o list"
    and observe :: "'g \<Rightarrow> 'o \<Rightarrow> 'g"
    and inv :: "'s \<Rightarrow> 'g \<Rightarrow> bool"
    and allowed :: "'s \<Rightarrow> 'e \<Rightarrow> bool"
  assumes step_inv:
    "inv s g \<Longrightarrow> allowed s e \<Longrightarrow> inv (fst (step s e)) (foldl observe g (snd (step s e)))"
begin

text \<open>Every event of the run is allowed in the state it meets.\<close>

fun admissible :: "'s \<Rightarrow> 'e list \<Rightarrow> bool" where
  "admissible s [] \<longleftrightarrow> True"
| "admissible s (e # es) \<longleftrightarrow> allowed s e \<and> admissible (fst (step s e)) es"

lemma run_inv:
  "inv s g \<Longrightarrow> admissible s es \<Longrightarrow>
     inv (fst (run_machine step s es)) (foldl observe g (snd (run_machine step s es)))"
proof (induction es arbitrary: s g)
  case Nil
  then show ?case by simp
next
  case (Cons e es)
  then have "inv (fst (step s e)) (foldl observe g (snd (step s e)))"
    using step_inv by simp
  with Cons show ?case
    by (auto simp: Let_def split: prod.splits) (metis fst_conv snd_conv)
qed

lemma admissible_if_all_allowed: "(\<And>s e. e \<in> set es \<Longrightarrow> allowed s e) \<Longrightarrow> admissible s es"
  by (induction es arbitrary: s) auto

end

text \<open>A machine with a plain state invariant is one whose monitor sees nothing.\<close>

locale invariant_machine =
  fixes step :: "'s \<Rightarrow> 'e \<Rightarrow> 's \<times> 'o list"
    and inv :: "'s \<Rightarrow> bool"
  assumes keeps_inv: "inv s \<Longrightarrow> inv (fst (step s e))"

sublocale invariant_machine \<subseteq> unwatched: monitored_machine step "\<lambda>g _. g" "\<lambda>s (_ :: unit). inv s" "\<lambda>_ _. True"
  by unfold_locales (simp add: keeps_inv)

context invariant_machine
begin

lemma run_keeps_inv: "inv s \<Longrightarrow> inv (fst (run_machine step s es))"
  using unwatched.run_inv [of s es] unwatched.admissible_if_all_allowed by simp

end

end
