(* ===== verification/Rust_Strings.thy ===== *)
theory Rust_Strings
  imports Prelude
begin

text \<open>
  The parts of Rust's standard string library that the program uses: UTF-8
  validation (\<open>str::from_utf8\<close>), lossy decoding (\<open>String::from_utf8_lossy\<close>),
  \<open>char::is_control\<close>, \<open>str::parse::<u16>\<close>, \<open>rsplit_once\<close>, \<open>split\<close>, \<open>join\<close>, and
  the \<open>{:02X}\<close> and decimal formats. A Rust \<open>String\<close> is its UTF-8 bytes, and HOL's
  \<open>string\<close> is a list of 8-bit characters, so \<open>len()\<close> is \<open>length\<close>.
\<close>

section \<open>Bytes and characters\<close>

definition char_of_byte :: "u8 \<Rightarrow> char" where
  "char_of_byte b = char_of (unat b)"

definition byte_of_char :: "char \<Rightarrow> u8" where
  "byte_of_char c = word_of_nat (of_char c)"

definition string_of_bytes :: "bytes \<Rightarrow> string" where
  "string_of_bytes bs = map char_of_byte bs"

text \<open>\<open>str::as_bytes\<close>.\<close>

definition bytes_of_string :: "string \<Rightarrow> bytes" where
  "bytes_of_string s = map byte_of_char s"

lemma of_char_nat_less: "(of_char c :: nat) < 256"
  by (metis char_of_eq_iff of_char_mod_256 mod_less_divisor zero_less_numeral)

lemma byte_of_char_of_byte [simp]: "byte_of_char (char_of_byte b) = b"
proof -
  have "unat (byte_of_char (char_of_byte b)) = unat b"
    by (simp add: byte_of_char_def char_of_byte_def of_char_of)
  then show ?thesis by (rule unsigned_word_eqI)
qed

lemma char_of_byte_of_char [simp]: "char_of_byte (byte_of_char c) = c"
  using of_char_nat_less [of c] by (simp add: byte_of_char_def char_of_byte_def)

lemma bytes_of_string_of_bytes [simp]: "bytes_of_string (string_of_bytes bs) = bs"
  by (simp add: bytes_of_string_def string_of_bytes_def comp_def)

lemma string_of_bytes_of_string [simp]: "string_of_bytes (bytes_of_string s) = s"
  by (simp add: bytes_of_string_def string_of_bytes_def comp_def)

lemma length_bytes_of_string [simp]: "length (bytes_of_string s) = length s"
  by (simp add: bytes_of_string_def)

lemma length_string_of_bytes [simp]: "length (string_of_bytes bs) = length bs"
  by (simp add: string_of_bytes_def)

lemma bytes_of_string_inject [simp]: "bytes_of_string s = bytes_of_string t \<longleftrightarrow> s = t"
  by (metis string_of_bytes_of_string)

lemma bytes_of_string_empty_iff [simp]: "bytes_of_string s = [] \<longleftrightarrow> s = []"
  by (simp add: bytes_of_string_def)

section \<open>UTF-8\<close>

definition is_cont :: "u8 \<Rightarrow> bool" where
  "is_cont b \<longleftrightarrow> 0x80 \<le> b \<and> b \<le> 0xBF"

text \<open>The legal second octets of three- and four-octet sequences.\<close>

definition second3 :: "u8 \<Rightarrow> u8 \<Rightarrow> bool" where
  "second3 b c \<longleftrightarrow>
     (b = 0xE0 \<and> 0xA0 \<le> c \<and> c \<le> 0xBF) \<or>
     (0xE1 \<le> b \<and> b \<le> 0xEC \<and> is_cont c) \<or>
     (b = 0xED \<and> 0x80 \<le> c \<and> c \<le> 0x9F) \<or>
     (0xEE \<le> b \<and> b \<le> 0xEF \<and> is_cont c)"

definition second4 :: "u8 \<Rightarrow> u8 \<Rightarrow> bool" where
  "second4 b c \<longleftrightarrow>
     (b = 0xF0 \<and> 0x90 \<le> c \<and> c \<le> 0xBF) \<or>
     (0xF1 \<le> b \<and> b \<le> 0xF3 \<and> is_cont c) \<or>
     (b = 0xF4 \<and> 0x80 \<le> c \<and> c \<le> 0x8F)"

text \<open>
  One decoding step on a non-empty buffer: the code point, or \<open>None\<close> for an
  ill-formed sequence, and the number of octets consumed (for an ill-formed
  sequence its maximal well-formed prefix, as Rust's \<open>Utf8Chunks\<close> does).
\<close>

fun utf8_next :: "bytes \<Rightarrow> nat option \<times> nat" where
  "utf8_next [] = (None, 1)"
| "utf8_next (b # rest) =
     (if b < 0x80 then (Some (unat b), 1)
      else if 0xC2 \<le> b \<and> b \<le> 0xDF then
        (case rest of
           c # _ \<Rightarrow> if is_cont c then (Some ((unat b - 0xC0) * 64 + (unat c - 0x80)), 2)
                    else (None, 1)
         | [] \<Rightarrow> (None, 1))
      else if 0xE0 \<le> b \<and> b \<le> 0xEF then
        (case rest of
           c # rest' \<Rightarrow>
             if second3 b c then
               (case rest' of
                  d # _ \<Rightarrow> if is_cont d
                           then (Some ((unat b - 0xE0) * 4096 + (unat c - 0x80) * 64
                                       + (unat d - 0x80)), 3)
                           else (None, 2)
                | [] \<Rightarrow> (None, 2))
             else (None, 1)
         | [] \<Rightarrow> (None, 1))
      else if 0xF0 \<le> b \<and> b \<le> 0xF4 then
        (case rest of
           c # rest' \<Rightarrow>
             if second4 b c then
               (case rest' of
                  d # rest'' \<Rightarrow>
                    if is_cont d then
                      (case rest'' of
                         e # _ \<Rightarrow> if is_cont e
                                  then (Some ((unat b - 0xF0) * 262144 + (unat c - 0x80) * 4096
                                              + (unat d - 0x80) * 64 + (unat e - 0x80)), 4)
                                  else (None, 3)
                       | [] \<Rightarrow> (None, 3))
                    else (None, 2)
                | [] \<Rightarrow> (None, 2))
             else (None, 1)
         | [] \<Rightarrow> (None, 1))
      else (None, 1))"

lemma utf8_next_consumes: "0 < snd (utf8_next bs)"
  by (cases bs) (auto split: list.splits)

lemma utf8_next_ascii: "b < 0x80 \<Longrightarrow> utf8_next (b # bs) = (Some (unat b), 1)"
  by simp

declare utf8_next.simps [simp del]

lemma utf8_next_drop: "utf8_next bs = (r, n) \<Longrightarrow> bs \<noteq> [] \<Longrightarrow> length (drop n bs) < length bs"
  using utf8_next_consumes [of bs] by simp

text \<open>\<open>str::from_utf8(bs)\<close> followed by \<open>chars()\<close>: the code points, if \<open>bs\<close> is UTF-8.\<close>

function utf8_chars :: "bytes \<Rightarrow> nat list option" where
  "utf8_chars bs =
     (if bs = [] then Some []
      else (case utf8_next bs of
              (None, _) \<Rightarrow> None
            | (Some c, n) \<Rightarrow> map_option (Cons c) (utf8_chars (drop n bs))))"
  by pat_completeness auto
termination
  by (relation "measure length") (auto dest: utf8_next_drop [OF sym])

text \<open>\<open>String::from_utf8_lossy\<close>: every ill-formed sequence becomes U+FFFD.\<close>

function utf8_lossy :: "bytes \<Rightarrow> bytes" where
  "utf8_lossy bs =
     (if bs = [] then []
      else (case utf8_next bs of
              (None, n) \<Rightarrow> [0xEF, 0xBF, 0xBD] @ utf8_lossy (drop n bs)
            | (Some _, n) \<Rightarrow> take n bs @ utf8_lossy (drop n bs)))"
  by pat_completeness auto
termination
  by (relation "measure length") (auto dest: utf8_next_drop [OF sym])

declare utf8_chars.simps [simp del] utf8_lossy.simps [simp del]

definition from_utf8_lossy :: "bytes \<Rightarrow> string" where
  "from_utf8_lossy bs = string_of_bytes (utf8_lossy bs)"

text \<open>Lossy decoding leaves well-formed UTF-8 alone.\<close>

lemma utf8_lossy_valid: "utf8_chars bs \<noteq> None \<Longrightarrow> utf8_lossy bs = bs"
proof (induction bs rule: utf8_chars.induct)
  case (1 bs)
  show ?case
  proof (cases "bs = []")
    case True
    then show ?thesis by (simp add: utf8_lossy.simps)
  next
    case False
    with 1(2) obtain c n where n: "utf8_next bs = (Some c, n)" and "utf8_chars (drop n bs) \<noteq> None"
      by (auto simp: utf8_chars.simps [of bs] split: prod.splits option.splits)
    with 1(1) False have "utf8_lossy (drop n bs) = drop n bs" by auto
    with n False show ?thesis by (simp add: utf8_lossy.simps [of bs])
  qed
qed

lemma utf8_lossy_empty_iff: "utf8_lossy bs = [] \<longleftrightarrow> bs = []"
proof
  assume h: "utf8_lossy bs = []"
  show "bs = []"
  proof (rule ccontr)
    assume ne: "bs \<noteq> []"
    with h have "\<exists>c n. utf8_next bs = (Some c, n) \<and> take n bs = []"
      by (subst (asm) utf8_lossy.simps) (auto split: prod.splits option.splits)
    then show False using ne utf8_next_consumes [of bs] by auto
  qed
qed (simp add: utf8_lossy.simps)

lemma utf8_chars_ascii: "(\<forall>b \<in> set bs. b < 0x80) \<Longrightarrow> utf8_chars bs = Some (map unat bs)"
proof (induction bs)
  case Nil
  then show ?case by (simp add: utf8_chars.simps)
next
  case (Cons b bs)
  then show ?case by (simp add: utf8_chars.simps [of "b # bs"] utf8_next_ascii)
qed

text \<open>\<open>char::is_control\<close>: the Unicode category Cc.\<close>

definition is_control :: "nat \<Rightarrow> bool" where
  "is_control c \<longleftrightarrow> c < 0x20 \<or> (0x7F \<le> c \<and> c < 0xA0)"

section \<open>Numbers as text\<close>

definition digit_val :: "char \<Rightarrow> nat option" where
  "digit_val c =
     (let n = (of_char c :: nat) in if 48 \<le> n \<and> n \<le> 57 then Some (n - 48) else None)"

fun parse_digits :: "nat \<Rightarrow> string \<Rightarrow> nat option" where
  "parse_digits acc [] = Some acc"
| "parse_digits acc (c # cs) =
     (case digit_val c of
        None \<Rightarrow> None
      | Some d \<Rightarrow> if acc * 10 + d < 65536 then parse_digits (acc * 10 + d) cs else None)"

text \<open>
  \<open>str::parse::<u16>\<close>: one leading \<open>+\<close> is accepted, an empty digit string is not,
  and a value above 65535 overflows.
\<close>

definition parse_u16 :: "string \<Rightarrow> u16 option" where
  "parse_u16 s =
     (let digits = (case s of c # cs \<Rightarrow> if c = CHR ''+'' then cs else s | [] \<Rightarrow> s)
      in if digits = [] then None else map_option word_of_nat (parse_digits 0 digits))"

lemma parse_digits_bound: "parse_digits acc s = Some n \<Longrightarrow> acc < 65536 \<Longrightarrow> n < 65536"
  by (induction acc s rule: parse_digits.induct) (auto split: option.splits if_splits)

lemma parse_digits_digits: "parse_digits acc s = Some n \<Longrightarrow> c \<in> set s \<Longrightarrow> digit_val c \<noteq> None"
  by (induction acc s rule: parse_digits.induct) (auto split: option.splits if_splits)

text \<open>The decimal \<open>Display\<close> of an unsigned integer.\<close>

fun to_decimal :: "nat \<Rightarrow> string" where
  "to_decimal n =
     (if n < 10 then [char_of (48 + n)] else to_decimal (n div 10) @ [char_of (48 + n mod 10)])"

declare to_decimal.simps [simp del]

lemma of_char_digit: "d < 10 \<Longrightarrow> (of_char (char_of (48 + d :: nat)) :: nat) = 48 + d"
  by (simp add: of_char_of)

lemma to_decimal_set: "c \<in> set (to_decimal n) \<Longrightarrow> \<exists>d<10. c = char_of (48 + d :: nat)"
proof (induction n rule: to_decimal.induct)
  case (1 n)
  then show ?case
    by (cases "n < 10") (auto simp: to_decimal.simps [of n] intro: exI [of _ "n mod 10"])
qed

fun from_decimal :: "string \<Rightarrow> nat" where
  "from_decimal s = foldl (\<lambda>a c. a * 10 + (of_char c - 48)) 0 s"

lemma from_to_decimal: "from_decimal (to_decimal n) = n"
proof (induction n rule: to_decimal.induct)
  case (1 n)
  then show ?case
    by (cases "n < 10") (simp_all add: to_decimal.simps [of n] of_char_digit)
qed

lemma to_decimal_inject: "to_decimal m = to_decimal n \<longleftrightarrow> m = n"
  by (metis from_to_decimal)

text \<open>The hexadecimal formats \<open>{:02X}\<close> and \<open>{:02x}\<close>.\<close>

definition hex_upper :: "nat \<Rightarrow> char" where
  "hex_upper d = (if d < 10 then char_of (48 + d) else char_of (55 + d))"

definition hex_lower :: "nat \<Rightarrow> char" where
  "hex_lower d = (if d < 10 then char_of (48 + d) else char_of (87 + d))"

definition fmt_02X :: "u8 \<Rightarrow> string" where
  "fmt_02X b = [hex_upper (unat b div 16), hex_upper (unat b mod 16)]"

definition fmt_02x :: "u8 \<Rightarrow> string" where
  "fmt_02x b = [hex_lower (unat b div 16), hex_lower (unat b mod 16)]"

lemma of_char_hex_upper:
  "d < 16 \<Longrightarrow> (of_char (hex_upper d) :: nat) = (if d < 10 then 48 + d else 55 + d)"
  by (simp add: hex_upper_def of_char_of)

lemma hex_upper_inject:
  assumes "d < 16" "e < 16"
  shows "hex_upper d = hex_upper e \<longleftrightarrow> d = e"
proof
  assume "hex_upper d = hex_upper e"
  then have "(of_char (hex_upper d) :: nat) = of_char (hex_upper e)" by simp
  with assms show "d = e" by (simp add: of_char_hex_upper split: if_splits)
qed simp

lemma fmt_02X_inject: "fmt_02X a = fmt_02X b \<longleftrightarrow> a = b"
proof
  assume "fmt_02X a = fmt_02X b"
  moreover have "unat a div 16 < 16" "unat b div 16 < 16"
    using unat_u8_less [of a] unat_u8_less [of b] by linarith+
  ultimately have "unat a div 16 = unat b div 16" "unat a mod 16 = unat b mod 16"
    by (simp_all add: fmt_02X_def hex_upper_inject)
  then have "unat a = unat b" by (metis div_mult_mod_eq)
  then show "a = b" by (rule unsigned_word_eqI)
qed simp

lemma fmt_02X_length [simp]: "length (fmt_02X b) = 2"
  by (simp add: fmt_02X_def)

section \<open>Separators\<close>

text \<open>\<open>str::rsplit_once(sep)\<close>: split at the last separator.\<close>

definition rsplit_once :: "char \<Rightarrow> string \<Rightarrow> (string \<times> string) option" where
  "rsplit_once sep s =
     (if sep \<in> set s
      then Some (rev (tl (dropWhile (\<lambda>c. c \<noteq> sep) (rev s))), rev (takeWhile (\<lambda>c. c \<noteq> sep) (rev s)))
      else None)"

lemma rsplit_once_Some:
  assumes "rsplit_once sep s = Some (h, t)"
  shows "s = h @ sep # t \<and> sep \<notin> set t"
proof -
  let ?p = "\<lambda>c. c \<noteq> sep"
  from assms have sep: "sep \<in> set (rev s)"
    and h: "h = rev (tl (dropWhile ?p (rev s)))" and t: "t = rev (takeWhile ?p (rev s))"
    by (auto simp: rsplit_once_def split: if_splits)
  from sep have ne: "dropWhile ?p (rev s) \<noteq> []" by (simp add: dropWhile_eq_Nil_conv)
  then have "\<not> ?p (hd (dropWhile ?p (rev s)))" by (rule hd_dropWhile)
  then have "hd (dropWhile ?p (rev s)) = sep" by simp
  with ne have "rev s = takeWhile ?p (rev s) @ sep # tl (dropWhile ?p (rev s))"
    by (metis list.collapse takeWhile_dropWhile_id)
  then have "s = rev (takeWhile ?p (rev s) @ sep # tl (dropWhile ?p (rev s)))"
    by (metis rev_rev_ident)
  then have "s = h @ sep # t" using h t by simp
  moreover have "sep \<notin> set t" using t by (auto dest: set_takeWhileD)
  ultimately show ?thesis by blast
qed

text \<open>\<open>str::split(sep)\<close> and \<open>join(sep)\<close>.\<close>

fun split_on :: "char \<Rightarrow> string \<Rightarrow> string list" where
  "split_on sep [] = [[]]"
| "split_on sep (c # cs) =
     (if c = sep then [] # split_on sep cs
      else (case split_on sep cs of x # xs \<Rightarrow> (c # x) # xs | [] \<Rightarrow> [[c]]))"

fun join_with :: "char \<Rightarrow> string list \<Rightarrow> string" where
  "join_with sep [] = []"
| "join_with sep [x] = x"
| "join_with sep (x # y # xs) = x @ sep # join_with sep (y # xs)"

lemma split_on_ne [simp]: "split_on sep s \<noteq> []"
  by (induction s) (auto split: list.splits)

lemma split_on_no_sep: "sep \<notin> set x \<Longrightarrow> split_on sep x = [x]"
  by (induction x) auto

lemma split_on_append: "sep \<notin> set x \<Longrightarrow> split_on sep (x @ sep # s) = x # split_on sep s"
  by (induction x) auto

lemma split_join:
  "xs \<noteq> [] \<Longrightarrow> (\<forall>x \<in> set xs. sep \<notin> set x) \<Longrightarrow> split_on sep (join_with sep xs) = xs"
  by (induction sep xs rule: join_with.induct) (simp_all add: split_on_no_sep split_on_append)

lemma split_on_pieces: "x \<in> set (split_on sep s) \<Longrightarrow> sep \<notin> set x"
  by (induction s arbitrary: x) (auto split: list.splits if_splits)

end
