(* ===== verification/Pacp.thy ===== *)
theory Pacp
  imports Rust_Strings
begin

text \<open>
  The EAPOL/PACP frame codec (\<open>crates/pacp\<close>): the Ethernet II header
  (\<open>ethernet.rs\<close>), the EAPOL PDU (\<open>pdu.rs\<close>), the read-only EAP view
  (\<open>eap.rs\<close>), the one-shot \<open>decode_frame\<close> (\<open>lib.rs\<close>) and the error type
  (\<open>error.rs\<close>). The lemmas show that the decoders accept exactly the padded
  images of the encoders, and characterise every rejection.
\<close>

section \<open>Errors\<close>

datatype PacpError =
    TruncatedEthernet nat
  | NotEapol u16
  | TruncatedEapolHeader nat
  | TruncatedEapolBody nat nat
  | TruncatedEapHeader nat
  | EapLengthMismatch nat nat
  | EapTooShort u8 nat
  | BodyTooLong nat

section \<open>Ethernet II framing\<close>

definition ETH_HEADER_LEN :: nat where "ETH_HEADER_LEN = 14"

type_synonym MacAddr = "u8 \<times> u8 \<times> u8 \<times> u8 \<times> u8 \<times> u8"

definition ETHERTYPE_EAPOL :: u16 where "ETHERTYPE_EAPOL = 0x888E"

definition PAE_GROUP_ADDR :: MacAddr where
  "PAE_GROUP_ADDR = (0x01, 0x80, 0xC2, 0x00, 0x00, 0x03)"

fun mac_octets :: "MacAddr \<Rightarrow> bytes" where
  "mac_octets (a, b, c, d, e, f) = [a, b, c, d, e, f]"

record EthernetHeader =
  dst :: MacAddr
  src :: MacAddr
  ethertype :: u16

record EthernetFrame =
  header :: EthernetHeader
  payload :: bytes

text \<open>\<open>format_mac\<close> writes the octets as two upper-case hex digits with \<open>-\<close> between them.\<close>

fun format_mac_loop :: "nat \<Rightarrow> bytes \<Rightarrow> string \<Rightarrow> string" where
  "format_mac_loop i [] out = out"
| "format_mac_loop i (b # bs) out =
     format_mac_loop (Suc i) bs ((if i \<noteq> 0 then out @ ''-'' else out) @ fmt_02X b)"

definition format_mac :: "MacAddr \<Rightarrow> string" where
  "format_mac mac = format_mac_loop 0 (mac_octets mac) []"

definition src_station_id :: "EthernetHeader \<Rightarrow> string" where
  "src_station_id h = format_mac (src h)"

definition header_encode_into :: "EthernetHeader \<Rightarrow> bytes \<Rightarrow> bytes" where
  "header_encode_into h out = out @ mac_octets (dst h) @ mac_octets (src h) @ u16_to_be (ethertype h)"

definition ethernet_decode_frame :: "bytes \<Rightarrow> PacpError + EthernetFrame" where
  "ethernet_decode_frame buf =
     (case get_upto ETH_HEADER_LEN buf of
        Some [d0, d1, d2, d3, d4, d5, s0, s1, s2, s3, s4, s5, e0, e1] \<Rightarrow>
          Inr \<lparr>header = \<lparr>dst = (d0, d1, d2, d3, d4, d5), src = (s0, s1, s2, s3, s4, s5),
                         ethertype = u16_from_be e0 e1\<rparr>,
               payload = (case get_from ETH_HEADER_LEN buf of Some p \<Rightarrow> p | None \<Rightarrow> [])\<rparr>
      | _ \<Rightarrow> Inl (TruncatedEthernet (length buf)))"

definition decode_eapol_frame :: "bytes \<Rightarrow> PacpError + EthernetFrame" where
  "decode_eapol_frame buf =
     and_then (ethernet_decode_frame buf) (\<lambda>frame.
       if ethertype (header frame) \<noteq> ETHERTYPE_EAPOL
       then Inl (NotEapol (ethertype (header frame)))
       else Inr frame)"

section \<open>EAPOL PDU\<close>

definition PDU_HEADER_LEN :: nat where "PDU_HEADER_LEN = 4"

definition PROTOCOL_VERSION_2010 :: u8 where "PROTOCOL_VERSION_2010 = 3"

datatype PacketType =
    Eap | Start | Logoff | Key | EncapsulatedAsfAlert | Mka
  | AnnouncementGeneric | AnnouncementSpecific | AnnouncementReq | Unknown u8

fun packet_type_to_u8 :: "PacketType \<Rightarrow> u8" where
  "packet_type_to_u8 PacketType.Eap = 0"
| "packet_type_to_u8 PacketType.Start = 1"
| "packet_type_to_u8 PacketType.Logoff = 2"
| "packet_type_to_u8 PacketType.Key = 3"
| "packet_type_to_u8 PacketType.EncapsulatedAsfAlert = 4"
| "packet_type_to_u8 PacketType.Mka = 5"
| "packet_type_to_u8 PacketType.AnnouncementGeneric = 6"
| "packet_type_to_u8 PacketType.AnnouncementSpecific = 7"
| "packet_type_to_u8 PacketType.AnnouncementReq = 8"
| "packet_type_to_u8 (PacketType.Unknown v) = v"

definition packet_type_from_u8 :: "u8 \<Rightarrow> PacketType" where
  "packet_type_from_u8 v =
     (if v = 0 then PacketType.Eap
      else if v = 1 then PacketType.Start
      else if v = 2 then PacketType.Logoff
      else if v = 3 then PacketType.Key
      else if v = 4 then PacketType.EncapsulatedAsfAlert
      else if v = 5 then PacketType.Mka
      else if v = 6 then PacketType.AnnouncementGeneric
      else if v = 7 then PacketType.AnnouncementSpecific
      else if v = 8 then PacketType.AnnouncementReq
      else PacketType.Unknown v)"

record EapolPdu =
  version :: u8
  packet_type :: PacketType
  body :: bytes

definition pdu_new :: "PacketType \<Rightarrow> bytes \<Rightarrow> EapolPdu" where
  "pdu_new t b = \<lparr>version = PROTOCOL_VERSION_2010, packet_type = t, body = b\<rparr>"

definition pdu_decode :: "bytes \<Rightarrow> PacpError + EapolPdu" where
  "pdu_decode buf =
     (case get_upto PDU_HEADER_LEN buf of
        Some [ver, type_octet, len_hi, len_lo] \<Rightarrow>
          (let declared = unat (u16_from_be len_hi len_lo);
               body_end = PDU_HEADER_LEN + declared
           in and_then
                (ok_or (get_range PDU_HEADER_LEN body_end buf)
                   (TruncatedEapolBody declared (length buf - PDU_HEADER_LEN)))
                (\<lambda>b. Inr \<lparr>version = ver, packet_type = packet_type_from_u8 type_octet, body = b\<rparr>))
      | _ \<Rightarrow> Inl (TruncatedEapolHeader (length buf)))"

definition pdu_encode_into :: "EapolPdu \<Rightarrow> bytes \<Rightarrow> PacpError + bytes" where
  "pdu_encode_into p out =
     and_then (ok_or (u16_try_from (length (body p))) (BodyTooLong (length (body p)))) (\<lambda>len.
       Inr (out @ [version p] @ [packet_type_to_u8 (packet_type p)] @ u16_to_be len @ body p))"

definition pdu_encode :: "EapolPdu \<Rightarrow> PacpError + bytes" where
  "pdu_encode p = pdu_encode_into p []"

definition encode_frame :: "EapolPdu \<Rightarrow> MacAddr \<Rightarrow> MacAddr \<Rightarrow> PacpError + bytes" where
  "encode_frame p d s =
     (let h = \<lparr>dst = d, src = s, ethertype = ETHERTYPE_EAPOL\<rparr>
      in pdu_encode_into p (header_encode_into h []))"

section \<open>EAP view\<close>

definition EAP_HEADER_LEN :: nat where "EAP_HEADER_LEN = 4"

definition MIN_REQUEST_RESPONSE_LEN :: nat where "MIN_REQUEST_RESPONSE_LEN = 5"

datatype EapCode = Request | Response | Success | Failure | Unknown u8

definition eap_code_from_u8 :: "u8 \<Rightarrow> EapCode" where
  "eap_code_from_u8 v =
     (if v = 1 then EapCode.Request
      else if v = 2 then EapCode.Response
      else if v = 3 then EapCode.Success
      else if v = 4 then EapCode.Failure
      else EapCode.Unknown v)"

definition has_type :: "EapCode \<Rightarrow> bool" where
  "has_type c \<longleftrightarrow> c = EapCode.Request \<or> c = EapCode.Response"

datatype EapType = Identity | Notification | Nak | Tls | Teap | Other u8

definition eap_type_from_u8 :: "u8 \<Rightarrow> EapType" where
  "eap_type_from_u8 v =
     (if v = 1 then EapType.Identity
      else if v = 2 then EapType.Notification
      else if v = 3 then EapType.Nak
      else if v = 13 then EapType.Tls
      else if v = 55 then EapType.Teap
      else EapType.Other v)"

definition request_identity :: "u8 \<Rightarrow> bytes" where
  "request_identity i = [1, i, 0, 5, 1]"

record EapPacket =
  eap_code :: EapCode
  eap_identifier :: u8
  eap_type :: "EapType option"
  type_data :: bytes

text \<open>The shared \<open>Request | Response\<close> arm of \<open>EapPacket::decode\<close>.\<close>

definition eap_decode_typed :: "bytes \<Rightarrow> EapCode \<Rightarrow> u8 \<Rightarrow> u8 \<Rightarrow> nat \<Rightarrow> PacpError + EapPacket" where
  "eap_decode_typed buf cd code_octet ident declared =
     (if declared < MIN_REQUEST_RESPONSE_LEN then Inl (EapTooShort code_octet declared)
      else Inr \<lparr>eap_code = cd, eap_identifier = ident,
                eap_type = map_option eap_type_from_u8 (get_at EAP_HEADER_LEN buf),
                type_data = (case get_range (EAP_HEADER_LEN + 1) declared buf of
                               Some d \<Rightarrow> d | None \<Rightarrow> [])\<rparr>)"

definition eap_decode :: "bytes \<Rightarrow> PacpError + EapPacket" where
  "eap_decode buf =
     (case get_upto EAP_HEADER_LEN buf of
        Some [code_octet, ident, len_hi, len_lo] \<Rightarrow>
          (let declared = unat (u16_from_be len_hi len_lo)
           in if declared \<noteq> length buf then Inl (EapLengthMismatch declared (length buf))
              else
                (let cd = eap_code_from_u8 code_octet
                 in case cd of
                      EapCode.Request \<Rightarrow> eap_decode_typed buf cd code_octet ident declared
                    | EapCode.Response \<Rightarrow> eap_decode_typed buf cd code_octet ident declared
                    | EapCode.Success \<Rightarrow>
                        if declared \<noteq> EAP_HEADER_LEN then Inl (EapTooShort code_octet declared)
                        else Inr \<lparr>eap_code = cd, eap_identifier = ident, eap_type = None, type_data = []\<rparr>
                    | EapCode.Failure \<Rightarrow>
                        if declared \<noteq> EAP_HEADER_LEN then Inl (EapTooShort code_octet declared)
                        else Inr \<lparr>eap_code = cd, eap_identifier = ident, eap_type = None, type_data = []\<rparr>
                    | EapCode.Unknown _ \<Rightarrow>
                        if declared < EAP_HEADER_LEN then Inl (EapTooShort code_octet declared)
                        else Inr \<lparr>eap_code = cd, eap_identifier = ident, eap_type = None, type_data = []\<rparr>))
      | _ \<Rightarrow> Inl (TruncatedEapHeader (length buf)))"

text \<open>\<open>EapPacket::identity\<close>: the octets that become \<open>User-Name\<close>.\<close>

definition identity :: "EapPacket \<Rightarrow> bytes option" where
  "identity p =
     (if eap_code p = EapCode.Response \<and> eap_type p = Some EapType.Identity
      then Some (type_data p) else None)"

section \<open>One-shot decoding\<close>

record EapolFrame =
  ethernet :: EthernetHeader
  pdu :: EapolPdu

definition decode_frame :: "bytes \<Rightarrow> PacpError + EapolFrame" where
  "decode_frame buf =
     and_then (decode_eapol_frame buf) (\<lambda>frame.
       and_then (pdu_decode (payload frame)) (\<lambda>p.
         Inr \<lparr>ethernet = header frame, pdu = p\<rparr>))"

lemmas [codec_simps] =
  ETH_HEADER_LEN_def PDU_HEADER_LEN_def EAP_HEADER_LEN_def MIN_REQUEST_RESPONSE_LEN_def

section \<open>Lemmas: MAC formatting\<close>

lemma mac_octets_length [simp]: "length (mac_octets m) = 6"
  by (cases m) simp

lemma mac_octets_inject [simp]: "mac_octets m = mac_octets n \<longleftrightarrow> m = n"
  by (cases m, cases n) simp

lemma format_mac_unfold:
  "format_mac (a, b, c, d, e, f) =
     fmt_02X a @ ''-'' @ fmt_02X b @ ''-'' @ fmt_02X c @ ''-'' @ fmt_02X d @ ''-''
       @ fmt_02X e @ ''-'' @ fmt_02X f"
  by (simp add: format_mac_def)

lemma format_mac_length: "length (format_mac m) = 17"
  by (cases m) (simp add: format_mac_unfold)

lemma format_mac_inject: "format_mac m = format_mac n \<longleftrightarrow> m = n"
  by (cases m, cases n) (auto simp: format_mac_unfold fmt_02X_inject append_eq_append_conv)

section \<open>Lemmas: octet tables\<close>

text \<open>A packet type is canonical when it is not an \<open>Unknown\<close> wrapping an assigned octet.\<close>

definition canonical_type :: "PacketType \<Rightarrow> bool" where
  "canonical_type t \<longleftrightarrow> (\<forall>v. t = PacketType.Unknown v \<longrightarrow> 8 < v)"

lemma packet_type_to_from [simp]: "packet_type_to_u8 (packet_type_from_u8 v) = v"
  by (simp add: packet_type_from_u8_def)

lemma packet_type_from_to: "canonical_type t \<Longrightarrow> packet_type_from_u8 (packet_type_to_u8 t) = t"
  by (cases t) (auto simp: canonical_type_def packet_type_from_u8_def)

lemma u8_gt_8:
  assumes "(v :: u8) \<notin> {0, 1, 2, 3, 4, 5, 6, 7, 8}"
  shows "8 < v"
proof (rule ccontr)
  assume "\<not> 8 < v"
  then have "unat v \<le> 8" by (simp add: word_less_nat_alt)
  then have "unat v \<in> {0, 1, 2, 3, 4, 5, 6, 7, 8}" by auto
  then have "v = word_of_nat (unat v) \<and> unat v \<in> {0, 1, 2, 3, 4, 5, 6, 7, 8}" by simp
  then have "v \<in> word_of_nat ` {0, 1, 2, 3, 4, 5, 6, 7, 8}" by blast
  with assms show False by simp
qed

lemma canonical_from [simp]: "canonical_type (packet_type_from_u8 v)"
  using u8_gt_8 [of v] by (auto simp: canonical_type_def packet_type_from_u8_def split: if_splits)

section \<open>Lemmas: the codec contract\<close>

text \<open>
  The contract of a self-delimiting codec under link-layer padding: the decoder
  accepts a buffer exactly when it starts with the encoding of a well-formed
  value, and returns that value.
\<close>

locale padded_codec =
  fixes enc :: "'a \<Rightarrow> 'e + bytes"
    and dec :: "bytes \<Rightarrow> 'e + 'a"
    and wf :: "'a \<Rightarrow> bool"
  assumes dec_iff:
    "dec buf = Inr x \<longleftrightarrow> wf x \<and> (\<exists>bs pad. enc x = Inr bs \<and> buf = bs @ pad)"
begin

lemma roundtrip: "wf x \<Longrightarrow> enc x = Inr bs \<Longrightarrow> dec (bs @ pad) = Inr x"
  using dec_iff by blast

lemma decoded_is_encoding: "dec buf = Inr x \<Longrightarrow> \<exists>bs pad. enc x = Inr bs \<and> buf = bs @ pad"
  using dec_iff by blast

lemma decoded_wf: "dec buf = Inr x \<Longrightarrow> wf x"
  using dec_iff by blast

lemma padding_ignored: "dec buf = Inr x \<Longrightarrow> dec (buf @ pad) = Inr x"
  by (metis append.assoc dec_iff)

lemma enc_prefix_free:
  assumes "wf x" "wf y" "enc x = Inr bs" "enc y = Inr (bs @ rest)"
  shows "x = y \<and> rest = []"
proof -
  have "dec (bs @ rest) = Inr x" using roundtrip assms(1,3) by blast
  moreover have "dec (bs @ rest) = Inr y" using roundtrip [OF assms(2,4), of "[]"] by simp
  ultimately have "x = y" by simp
  with assms(3,4) show ?thesis by simp
qed

end

lemma pdu_decode_header:
  "pdu_decode (v # t # hi # lo # rest) =
     (let n = unat (u16_from_be hi lo)
      in if n \<le> length rest
         then Inr \<lparr>version = v, packet_type = packet_type_from_u8 t, body = take n rest\<rparr>
         else Inl (TruncatedEapolBody n (length rest)))"
  by (simp add: pdu_decode_def codec_simps get_range_def ok_or_def Let_def)

lemma pdu_decode_short: "length buf < 4 \<Longrightarrow> pdu_decode buf = Inl (TruncatedEapolHeader (length buf))"
  by (simp add: pdu_decode_def codec_simps get_upto_def)

lemma pdu_encode_Inr_iff:
  "pdu_encode p = Inr bs \<longleftrightarrow>
     (\<exists>hi lo. unat (u16_from_be hi lo) = length (body p) \<and>
        bs = version p # packet_type_to_u8 (packet_type p) # hi # lo # body p)"
proof
  assume "pdu_encode p = Inr bs"
  then obtain w where w: "length (body p) = unat w"
    and bs: "bs = [version p] @ [packet_type_to_u8 (packet_type p)] @ u16_to_be w @ body p"
    by (auto simp: pdu_encode_def pdu_encode_into_def and_then_Inr_iff u16_try_from_Some_iff)
  show "\<exists>hi lo. unat (u16_from_be hi lo) = length (body p) \<and>
        bs = version p # packet_type_to_u8 (packet_type p) # hi # lo # body p"
    using w bs u16_be_roundtrip [of w]
    by (intro exI [of _ "word_of_nat (unat w div 256)"] exI [of _ "word_of_nat (unat w mod 256)"])
      (simp add: u16_to_be_def)
next
  assume "\<exists>hi lo. unat (u16_from_be hi lo) = length (body p) \<and>
        bs = version p # packet_type_to_u8 (packet_type p) # hi # lo # body p"
  then obtain hi lo where l: "length (body p) = unat (u16_from_be hi lo)"
    and bs: "bs = version p # packet_type_to_u8 (packet_type p) # hi # lo # body p" by metis
  from l have "u16_try_from (length (body p)) = Some (u16_from_be hi lo)"
    using u16_try_from_Some_iff by blast
  with bs show "pdu_encode p = Inr bs"
    by (simp add: pdu_encode_def pdu_encode_into_def u16_be_roundtrip2)
qed

lemma pdu_decode_iff:
  "pdu_decode buf = Inr p \<longleftrightarrow>
     canonical_type (packet_type p) \<and> (\<exists>bs pad. pdu_encode p = Inr bs \<and> buf = bs @ pad)"
proof (cases buf rule: get_upto_4_cases)
  case short
  then show ?thesis by (auto simp: pdu_decode_short pdu_encode_Inr_iff)
next
  case (header v t hi lo rest)
  let ?n = "unat (u16_from_be hi lo)"
  show ?thesis
  proof
    assume "pdu_decode buf = Inr p"
    then have n: "?n \<le> length rest"
      and p: "p = \<lparr>version = v, packet_type = packet_type_from_u8 t, body = take ?n rest\<rparr>"
      by (auto simp: header pdu_decode_header Let_def split: if_splits)
    have "pdu_encode p = Inr (v # t # hi # lo # take ?n rest)"
      unfolding pdu_encode_Inr_iff using n p by (intro exI [of _ hi] exI [of _ lo]) simp
    moreover have "buf = (v # t # hi # lo # take ?n rest) @ drop ?n rest" by (simp add: header)
    moreover have "canonical_type (packet_type p)" by (simp add: p)
    ultimately show "canonical_type (packet_type p) \<and>
        (\<exists>bs pad. pdu_encode p = Inr bs \<and> buf = bs @ pad)"
      by blast
  next
    assume "canonical_type (packet_type p) \<and>
        (\<exists>bs pad. pdu_encode p = Inr bs \<and> buf = bs @ pad)"
    then show "pdu_decode buf = Inr p"
      by (auto simp: header pdu_encode_Inr_iff pdu_decode_header packet_type_from_to Let_def
          simp del: unat_u16_from_be)
  qed
qed

interpretation pdu_codec: padded_codec pdu_encode pdu_decode "\<lambda>p. canonical_type (packet_type p)"
  by unfold_locales (rule pdu_decode_iff)

text \<open>The frame codec: Ethernet header and PDU together.\<close>

lemma ethernet_decode_short:
  "length buf < 14 \<Longrightarrow> ethernet_decode_frame buf = Inl (TruncatedEthernet (length buf))"
  by (simp add: ethernet_decode_frame_def codec_simps get_upto_def)

lemma ethernet_decode_header:
  assumes "length hb = 14"
  shows "\<exists>h. header_encode_into h [] = hb \<and>
    ethernet_decode_frame (hb @ rest) = Inr \<lparr>header = h, payload = rest\<rparr>"
proof -
  from length_eq_14_cases [OF assms] obtain d0 d1 d2 d3 d4 d5 s0 s1 s2 s3 s4 s5 e0 e1
    where hb: "hb = [d0, d1, d2, d3, d4, d5, s0, s1, s2, s3, s4, s5, e0, e1]" by blast
  show ?thesis
    by (intro exI [of _ "\<lparr>dst = (d0, d1, d2, d3, d4, d5), src = (s0, s1, s2, s3, s4, s5),
                         ethertype = u16_from_be e0 e1\<rparr>"])
      (simp add: hb header_encode_into_def ethernet_decode_frame_def codec_simps get_upto_def
        get_from_def u16_be_roundtrip2)
qed

lemma header_encode_length [simp]: "length (header_encode_into h out) = length out + 14"
  by (simp add: header_encode_into_def)

lemma header_encode_inject: "header_encode_into h [] = header_encode_into h' [] \<longleftrightarrow> h = h'"
proof
  assume "header_encode_into h [] = header_encode_into h' []"
  then have "mac_octets (dst h) = mac_octets (dst h')" "mac_octets (src h) = mac_octets (src h')"
    and e: "u16_to_be (ethertype h) = u16_to_be (ethertype h')"
    by (simp_all add: header_encode_into_def append_eq_append_conv)
  moreover from e have "ethertype h = ethertype h'" by (simp only: u16_to_be_inject)
  ultimately show "h = h'" by simp
qed simp

lemma ethernet_decode_iff:
  "ethernet_decode_frame buf = Inr f \<longleftrightarrow> buf = header_encode_into (header f) [] @ payload f"
proof (cases "length buf < 14")
  case True
  then show ?thesis by (auto simp: ethernet_decode_short)
next
  case False
  then obtain h where h: "header_encode_into h [] = take 14 buf"
    and d: "ethernet_decode_frame (take 14 buf @ drop 14 buf) = Inr \<lparr>header = h, payload = drop 14 buf\<rparr>"
    using ethernet_decode_header [of "take 14 buf" "drop 14 buf"] by auto
  have "buf = header_encode_into (header f) [] @ payload f \<longleftrightarrow>
      header_encode_into h [] = header_encode_into (header f) [] \<and> drop 14 buf = payload f"
    unfolding h by (subst append_take_drop_id [of 14 buf, symmetric], subst append_eq_append_conv)
      (use False in simp_all)
  also have "\<dots> \<longleftrightarrow> f = \<lparr>header = h, payload = drop 14 buf\<rparr>"
    by (cases f) (auto simp: header_encode_inject)
  finally show ?thesis using d by auto
qed

lemma encode_frame_Inr_iff:
  "encode_frame p d s = Inr bs \<longleftrightarrow>
     (\<exists>ps. pdu_encode p = Inr ps \<and>
        bs = header_encode_into \<lparr>dst = d, src = s, ethertype = ETHERTYPE_EAPOL\<rparr> [] @ ps)"
  by (auto simp: encode_frame_def pdu_encode_def pdu_encode_into_def and_then_Inr_iff)

definition frame_wf :: "EapolFrame \<Rightarrow> bool" where
  "frame_wf f \<longleftrightarrow> canonical_type (packet_type (pdu f)) \<and> ethertype (ethernet f) = ETHERTYPE_EAPOL"

lemma decode_frame_iff:
  "decode_frame buf = Inr f \<longleftrightarrow>
     frame_wf f \<and>
     (\<exists>bs pad. encode_frame (pdu f) (dst (ethernet f)) (src (ethernet f)) = Inr bs \<and> buf = bs @ pad)"
  (is "?L \<longleftrightarrow> ?R")
proof
  assume ?L
  then obtain e p where e: "ethernet_decode_frame buf = Inr e"
    and t: "ethertype (header e) = ETHERTYPE_EAPOL" and p: "pdu_decode (payload e) = Inr p"
    and f: "f = \<lparr>ethernet = header e, pdu = p\<rparr>"
    by (auto simp: decode_frame_def decode_eapol_frame_def and_then_Inr_iff split: if_splits)
  from p obtain ps pad where "canonical_type (packet_type p)" "pdu_encode p = Inr ps"
    "payload e = ps @ pad" by (auto simp: pdu_decode_iff)
  with e t f show ?R
    by (cases "header e") (auto simp: frame_wf_def encode_frame_Inr_iff ethernet_decode_iff)
next
  assume ?R
  then obtain ps pad where w: "frame_wf f" and ps: "pdu_encode (pdu f) = Inr ps"
    and buf: "buf = header_encode_into (ethernet f) [] @ (ps @ pad)"
    by (cases "ethernet f") (auto simp: frame_wf_def encode_frame_Inr_iff)
  from buf have "ethernet_decode_frame buf = Inr \<lparr>header = ethernet f, payload = ps @ pad\<rparr>"
    by (simp add: ethernet_decode_iff)
  moreover have "pdu_decode (ps @ pad) = Inr (pdu f)"
    using w ps by (auto simp: frame_wf_def pdu_decode_iff)
  ultimately show ?L
    using w by (simp add: decode_frame_def decode_eapol_frame_def frame_wf_def)
qed

interpretation frame_codec: padded_codec
  "\<lambda>f. encode_frame (pdu f) (dst (ethernet f)) (src (ethernet f))" decode_frame frame_wf
  by unfold_locales (rule decode_frame_iff)

section \<open>Lemmas: EAP\<close>

lemma eap_decode_short: "length buf < 4 \<Longrightarrow> eap_decode buf = Inl (TruncatedEapHeader (length buf))"
  by (simp add: eap_decode_def codec_simps get_upto_def)

text \<open>The acceptance condition of \<open>EapPacket::decode\<close>, written on the octets.\<close>

definition eap_well_formed :: "bytes \<Rightarrow> bool" where
  "eap_well_formed buf \<longleftrightarrow>
     (case buf of
        c # i # hi # lo # rest \<Rightarrow>
          unat (u16_from_be hi lo) = length buf \<and>
          (c = 1 \<or> c = 2 \<longrightarrow> rest \<noteq> []) \<and> (c = 3 \<or> c = 4 \<longrightarrow> rest = [])
      | _ \<Rightarrow> False)"

lemma eap_decode_typed_ok:
  "eap_decode_typed (c # i # hi # lo # t # td) cd c i (5 + length td) =
     Inr \<lparr>eap_code = cd, eap_identifier = i, eap_type = Some (eap_type_from_u8 t), type_data = td\<rparr>"
  by (simp add: eap_decode_typed_def codec_simps get_at_def get_range_def)

lemma eap_decode_accepts_iff: "(\<exists>p. eap_decode buf = Inr p) \<longleftrightarrow> eap_well_formed buf"
proof (cases buf rule: get_upto_4_cases)
  case short
  then show ?thesis by (auto simp: eap_decode_short eap_well_formed_def split: list.splits)
next
  case (header c i hi lo rest)
  then show ?thesis
    by (cases rest)
      (auto simp: eap_decode_def eap_well_formed_def codec_simps eap_code_from_u8_def
        eap_decode_typed_def Let_def simp del: unat_u16_from_be split: if_splits)
qed

lemma eap_decode_identity:
  assumes "eap_decode buf = Inr p" and "identity p = Some name"
  shows "\<exists>i hi lo. buf = 2 # i # hi # lo # 1 # name"
proof (cases buf rule: get_upto_4_cases)
  case short
  then show ?thesis using assms by (simp add: eap_decode_short)
next
  case (header c i hi lo rest)
  have wf: "eap_well_formed buf" using assms(1) eap_decode_accepts_iff by blast
  from assms have c: "c = 2"
    by (auto simp: header eap_decode_def codec_simps eap_code_from_u8_def identity_def Let_def
        eap_decode_typed_def split: if_splits)
  with wf obtain t td where rest: "rest = t # td" and n: "unat (u16_from_be hi lo) = 5 + length td"
    by (auto simp: header eap_well_formed_def neq_Nil_conv)
  from assms(1) have "p = \<lparr>eap_code = EapCode.Response, eap_identifier = i,
      eap_type = Some (eap_type_from_u8 t), type_data = td\<rparr>"
    using n by (simp add: header c rest eap_decode_def codec_simps eap_code_from_u8_def Let_def
        eap_decode_typed_ok [unfolded add.commute [of 5]] eap_decode_typed_ok
        del: unat_u16_from_be)
  with assms(2) have "eap_type_from_u8 t = EapType.Identity" "name = td"
    by (auto simp: identity_def split: if_splits)
  then show ?thesis by (auto simp: header c rest eap_type_from_u8_def split: if_splits)
qed

lemma request_identity_decodes:
  "eap_decode (request_identity i) =
     Inr \<lparr>eap_code = EapCode.Request, eap_identifier = i, eap_type = Some EapType.Identity,
          type_data = []\<rparr>"
  by (simp add: request_identity_def eap_decode_def codec_simps eap_code_from_u8_def
      eap_type_from_u8_def eap_decode_typed_def get_at_def get_range_def u16_from_be_def)


section \<open>Properties\<close>

text \<open>
  C21. The frame codec is exact: \<open>decode_frame\<close> accepts a buffer as a frame exactly
  when the buffer is \<open>encode_frame\<close> of that frame followed by arbitrary link-layer
  padding, the frame has the EAPOL ethertype and its packet type is not an
  \<open>Unknown\<close> that stands for an assigned octet.
\<close>

theorem frame_codec_exact:
  "decode_frame buf = Inr f \<longleftrightarrow>
     frame_wf f \<and>
     (\<exists>bs pad. encode_frame (pdu f) (dst (ethernet f)) (src (ethernet f)) = Inr bs \<and> buf = bs @ pad)"
  by (rule frame_codec.dec_iff)

text \<open>
  C22. EAP acceptance: a packet decodes exactly when its length field equals the
  octets received, a request or response carries a type octet and a success or
  failure carries nothing after the header.
\<close>

theorem eap_acceptance: "(\<exists>p. eap_decode buf = Inr p) \<longleftrightarrow> eap_well_formed buf"
  by (rule eap_decode_accepts_iff)

text \<open>
  The identity that becomes \<open>User-Name\<close> is exactly the octets after the type
  octet of an EAP-Response/Identity: nothing is trimmed, added or read past the
  declared length.
\<close>

theorem identity_octets:
  assumes "eap_decode buf = Inr p" and "identity p = Some name"
  shows "\<exists>i hi lo. buf = 2 # i # hi # lo # 1 # name \<and> unat (u16_from_be hi lo) = 5 + length name"
proof -
  from eap_decode_identity [OF assms] obtain i hi lo where b: "buf = 2 # i # hi # lo # 1 # name" by blast
  have "eap_well_formed buf" using assms(1) eap_decode_accepts_iff by blast
  then have "unat (u16_from_be hi lo) = 5 + length name"
    unfolding b eap_well_formed_def by simp
  with b show ?thesis by blast
qed

theorem identity_octets_witness:
  "\<exists>i hi lo. [2, 7, 0, 7, 1, 97, 98] = 2 # i # hi # lo # 1 # [97, 98 :: u8] \<and>
     unat (u16_from_be hi lo) = 5 + length [97, 98 :: u8]"
  by (rule identity_octets [where p = "\<lparr>eap_code = EapCode.Response, eap_identifier = 7,
        eap_type = Some EapType.Identity, type_data = [97, 98]\<rparr>"])
    (simp_all add: identity_def eap_decode_def codec_simps eap_code_from_u8_def eap_type_from_u8_def
      eap_decode_typed_def get_at_def get_range_def u16_from_be_def)

text \<open>
  A \<open>Calling-Station-Id\<close> identifies the supplicant: distinct MAC addresses have
  distinct renderings, each of 17 characters.
\<close>

theorem station_id_unique: "(format_mac m = format_mac n \<longleftrightarrow> m = n) \<and> length (format_mac m) = 17"
  by (simp add: format_mac_inject format_mac_length)

end
