(* ===== verification/Pae_Types.thy ===== *)
theory Pae_Types
  imports Pacp
begin

text \<open>
  The vocabulary of the authenticator PAE (\<open>crates/pae\<close>): the per-port
  configuration (\<open>config.rs\<close>), the input events (\<open>event.rs\<close>) and the
  side effects (\<open>effect.rs\<close>), with the specification-level readings of an effect
  list: the authorization the dataplane ends with, the accounting sequence, the
  timers left armed and the requests sent to the authentication server.
\<close>

section \<open>Configuration\<close>

datatype HostMode = SingleHost | MultiHost | MultiAuth | MultiDomain

record Timers =
  tx_period :: u32
  held_period :: u32
  reauth_period :: u32
  server_timeout :: u32
  supp_timeout :: u32

definition timers_default :: Timers where
  "timers_default =
     \<lparr>tx_period = 30, held_period = 60, reauth_period = 3600, server_timeout = 30, supp_timeout = 30\<rparr>"

datatype TimerKind = TxPeriod | Held | Reauth | ServerTimeout | SuppTimeout | SessionTimeout

record PaeConfig =
  host_mode :: HostMode
  cfg_timers :: Timers
  max_reauth_req :: u32
  reauth_enabled :: bool
  mab_enabled :: bool
  guest_vlan :: "string option"
  auth_fail_vlan :: "string option"
  critical_vlan :: "string option"

definition pae_config_default :: PaeConfig where
  "pae_config_default =
     \<lparr>host_mode = MultiAuth, cfg_timers = timers_default, max_reauth_req = 2, reauth_enabled = True,
      mab_enabled = False, guest_vlan = None, auth_fail_vlan = None, critical_vlan = None\<rparr>"

section \<open>Effects\<close>

record Authorization =
  vlan :: "string option"
  filter_id :: "string option"
  session_timeout :: "u32 option"
  authz_class :: "bytes option"

definition authorization_default :: Authorization where
  "authorization_default =
     \<lparr>vlan = None, filter_id = None, session_timeout = None, authz_class = None\<rparr>"

datatype FallbackReason = Guest | AuthFail | Critical

datatype PortAuthorization =
    Authorized Authorization
  | Unauthorized
  | Fallback FallbackReason "string option"

datatype TerminateCause =
    SupplicantLogoff | PortLinkDown | SessionTimeout | AdminReset | ReauthFailure

datatype AcctTrigger = Start | Stop TerminateCause

datatype Effect =
    TxEapToSupplicant bytes
  | ToAuthServer bytes
  | StartMab MacAddr
  | SetAuthorization PortAuthorization
  | ArmTimer TimerKind
  | CancelTimer TimerKind
  | CancelAllTimers
  | Accounting AcctTrigger

section \<open>Events\<close>

record InboundEap =
  in_code :: EapCode
  in_identifier :: u8
  in_eap_type :: "EapType option"
  in_packet :: bytes

datatype Event =
    Enable
  | LinkUp
  | LinkDown
  | EapolStart
  | EapolLogoff
  | EapFromSupplicant InboundEap
  | AccessChallenge bytes
  | AccessAccept Authorization "bytes option"
  | AccessReject "bytes option"
  | ServerUnreachable
  | Timer TimerKind
  | CoaDisconnect
  | CoaReauthenticate
  | CoaAuthorize Authorization

section \<open>Readings of an effect list\<close>

text \<open>The authorization the dataplane holds after one more effect.\<close>

fun dataplane :: "PortAuthorization \<Rightarrow> Effect \<Rightarrow> PortAuthorization" where
  "dataplane dp (SetAuthorization a) = a"
| "dataplane dp _ = dp"

text \<open>
  Accounting as RFC 2866 wants it: a Stop only follows a Start and a Start only
  follows a Stop. \<open>None\<close> is a violation, \<open>Some open\<close> the state reached.
\<close>

fun acct_monitor :: "bool option \<Rightarrow> Effect \<Rightarrow> bool option" where
  "acct_monitor (Some False) (Accounting AcctTrigger.Start) = Some True"
| "acct_monitor (Some True) (Accounting (AcctTrigger.Stop _)) = Some False"
| "acct_monitor _ (Accounting _) = None"
| "acct_monitor m _ = m"

text \<open>The timers armed after one more effect.\<close>

fun armed_timers :: "TimerKind set \<Rightarrow> Effect \<Rightarrow> TimerKind set" where
  "armed_timers T (ArmTimer k) = insert k T"
| "armed_timers T (CancelTimer k) = T - {k}"
| "armed_timers T CancelAllTimers = {}"
| "armed_timers T _ = T"

text \<open>The effects that make the daemon talk to the RADIUS server and wait for its reply.\<close>

fun radius_bearing :: "Effect \<Rightarrow> bool" where
  "radius_bearing (ToAuthServer _) = True"
| "radius_bearing (StartMab _) = True"
| "radius_bearing _ = False"

text \<open>The fallback VLAN configured for a reason.\<close>

fun fallback_vlan :: "PaeConfig \<Rightarrow> FallbackReason \<Rightarrow> string option" where
  "fallback_vlan cfg Guest = guest_vlan cfg"
| "fallback_vlan cfg AuthFail = auth_fail_vlan cfg"
| "fallback_vlan cfg Critical = critical_vlan cfg"

end
