(* ===== verification/Pae_Session.thy ===== *)
theory Pae_Session
  imports Pae_Types
begin

text \<open>
  The per-\<open>{port, MAC}\<close> authenticator state machine (\<open>crates/pae/src/session.rs\<close>):
  one definition per handler and shared transition, composed by \<open>step\<close> as the
  source composes them, and the invariants of its runs: what the dataplane holds
  in each state, that accounting alternates, that no waiting state is left
  without its timer, and that retries are bounded.
\<close>

section \<open>State\<close>

datatype AuthKind = Dot1x | Mab

datatype State =
    New | Connecting | AuthServer | Authenticating | Authenticated | Held
  | Fallback FallbackReason

record PortSession =
  mac :: MacAddr
  state :: State
  auth_kind :: AuthKind
  eap_id :: u8
  tx_count :: u32
  authz :: "Authorization option"
  accounting_open :: bool

definition session_new :: "MacAddr \<Rightarrow> PortSession" where
  "session_new m =
     \<lparr>mac = m, state = State.New, auth_kind = Dot1x, eap_id = 0, tx_count = 0, authz = None,
      accounting_open = False\<rparr>"

definition is_authorized :: "PortSession \<Rightarrow> bool" where
  "is_authorized s \<longleftrightarrow> state s = State.Authenticated"

definition is_mab :: "PortSession \<Rightarrow> bool" where
  "is_mab s \<longleftrightarrow> auth_kind s = Mab"

type_synonym outcome = "PortSession \<times> Effect list"

section \<open>Shared transitions\<close>

definition send_identity :: "PortSession \<Rightarrow> outcome" where
  "send_identity s =
     (let s1 = s\<lparr>eap_id := eap_id s + 1\<rparr>
      in (s1, [TxEapToSupplicant (request_identity (eap_id s1)), ArmTimer TimerKind.TxPeriod]))"

definition teardown :: "TerminateCause \<Rightarrow> PortSession \<Rightarrow> outcome" where
  "teardown cause s =
     (if state s = State.New then (s, [])
      else
        (s\<lparr>accounting_open := False, state := State.New, authz := None, auth_kind := Dot1x,
           tx_count := 0\<rparr>,
         (if accounting_open s then [Accounting (AcctTrigger.Stop cause)] else [])
           @ [CancelAllTimers, SetAuthorization Unauthorized]))"

definition hold :: "PortSession \<Rightarrow> outcome" where
  "hold s =
     (s\<lparr>state := State.Held\<rparr>,
      [CancelAllTimers, SetAuthorization Unauthorized, ArmTimer TimerKind.Held])"

definition enter_fallback :: "FallbackReason \<Rightarrow> string \<Rightarrow> PortSession \<Rightarrow> outcome" where
  "enter_fallback reason v s =
     (s\<lparr>state := State.Fallback reason\<rparr>,
      [CancelAllTimers, SetAuthorization (PortAuthorization.Fallback reason (Some v))])"

definition coa_authorize :: "Authorization \<Rightarrow> PortSession \<Rightarrow> outcome" where
  "coa_authorize a s =
     (if state s \<noteq> State.Authenticated then (s, [])
      else (s\<lparr>authz := Some a\<rparr>, [SetAuthorization (Authorized a)]))"

text \<open>\<open>fx.extend(self.send_identity())\<close> after the effects already collected.\<close>

definition then_identity :: "Effect list \<Rightarrow> PortSession \<Rightarrow> outcome" where
  "then_identity fx s = (let (s1, fx2) = send_identity s in (s1, fx @ fx2))"

definition begin_reauth :: "PortSession \<Rightarrow> outcome" where
  "begin_reauth s =
     then_identity [CancelTimer TimerKind.Reauth] (s\<lparr>state := State.Connecting, tx_count := 1\<rparr>)"

definition server_unreachable :: "PaeConfig \<Rightarrow> PortSession \<Rightarrow> outcome" where
  "server_unreachable cfg s =
     (if accounting_open s then
        (s\<lparr>state := State.Authenticated\<rparr>,
         CancelTimer TimerKind.ServerTimeout
           # (if reauth_enabled cfg then [ArmTimer TimerKind.Reauth] else []))
      else
        (case critical_vlan cfg of
           Some v \<Rightarrow>
             (let (s1, fx) = enter_fallback Critical v s
              in (s1, fx @ [ArmTimer TimerKind.ServerTimeout]))
         | None \<Rightarrow> hold s))"

definition reject :: "bytes option \<Rightarrow> PaeConfig \<Rightarrow> PortSession \<Rightarrow> outcome" where
  "reject eap cfg s =
     (let fx = (case eap of Some failure \<Rightarrow> [TxEapToSupplicant failure] | None \<Rightarrow> [])
      in if accounting_open s then
           (let (s1, fx2) = teardown ReauthFailure s in (s1, fx @ fx2))
         else
           (case auth_fail_vlan cfg of
              Some v \<Rightarrow> (let (s1, fx2) = enter_fallback AuthFail v s in (s1, fx @ fx2))
            | None \<Rightarrow> (let (s1, fx2) = hold s in (s1, fx @ fx2))))"

definition authorize :: "Authorization \<Rightarrow> bytes option \<Rightarrow> PaeConfig \<Rightarrow> PortSession \<Rightarrow> outcome" where
  "authorize a eap cfg s =
     (s\<lparr>accounting_open := True, authz := Some a, state := State.Authenticated\<rparr>,
      (case eap of Some success \<Rightarrow> [TxEapToSupplicant success] | None \<Rightarrow> [])
        @ [CancelAllTimers, SetAuthorization (Authorized a)]
        @ (if accounting_open s then [] else [Accounting AcctTrigger.Start])
        @ (if reauth_enabled cfg then [ArmTimer TimerKind.Reauth] else [])
        @ (if session_timeout a \<noteq> None then [ArmTimer TimerKind.SessionTimeout] else []))"

definition no_supplicant :: "PaeConfig \<Rightarrow> PortSession \<Rightarrow> outcome" where
  "no_supplicant cfg s =
     (if accounting_open s then teardown ReauthFailure s
      else if mab_enabled cfg then
        (s\<lparr>auth_kind := Mab, state := State.AuthServer\<rparr>,
         [CancelTimer TimerKind.TxPeriod, StartMab (mac s), ArmTimer TimerKind.ServerTimeout])
      else
        (case guest_vlan cfg of
           Some v \<Rightarrow> enter_fallback Guest v s
         | None \<Rightarrow> hold s))"

section \<open>State handlers\<close>

definition enable :: "PortSession \<Rightarrow> outcome" where
  "enable s =
     then_identity [SetAuthorization Unauthorized]
       (s\<lparr>authz := None, accounting_open := False, auth_kind := Dot1x, tx_count := 1,
          state := State.Connecting\<rparr>)"

fun in_connecting :: "Event \<Rightarrow> PaeConfig \<Rightarrow> PortSession \<Rightarrow> outcome" where
  "in_connecting EapolStart cfg s = send_identity s"
| "in_connecting LinkUp cfg s = send_identity s"
| "in_connecting (Timer TimerKind.TxPeriod) cfg s =
     (if tx_count s < max_reauth_req cfg
      then send_identity (s\<lparr>tx_count := saturating_add_u32 (tx_count s) 1\<rparr>)
      else no_supplicant cfg s)"
| "in_connecting (EapFromSupplicant eap) cfg s =
     (if in_code eap = EapCode.Response then
        (s\<lparr>auth_kind := Dot1x, state := State.AuthServer\<rparr>,
         [CancelTimer TimerKind.TxPeriod, ToAuthServer (in_packet eap), ArmTimer TimerKind.ServerTimeout])
      else (s, []))"
| "in_connecting EapolLogoff cfg s = teardown SupplicantLogoff s"
| "in_connecting _ cfg s = (s, [])"

fun in_auth_server :: "Event \<Rightarrow> PaeConfig \<Rightarrow> PortSession \<Rightarrow> outcome" where
  "in_auth_server (AccessChallenge eap) cfg s =
     (s\<lparr>state := State.Authenticating\<rparr>,
      [CancelTimer TimerKind.ServerTimeout, TxEapToSupplicant eap, ArmTimer TimerKind.SuppTimeout])"
| "in_auth_server (AccessAccept a eap) cfg s = authorize a eap cfg s"
| "in_auth_server (AccessReject eap) cfg s = reject eap cfg s"
| "in_auth_server ServerUnreachable cfg s = server_unreachable cfg s"
| "in_auth_server (Timer TimerKind.ServerTimeout) cfg s = server_unreachable cfg s"
| "in_auth_server EapolLogoff cfg s = teardown SupplicantLogoff s"
| "in_auth_server _ cfg s = (s, [])"

fun in_authenticating :: "Event \<Rightarrow> PaeConfig \<Rightarrow> PortSession \<Rightarrow> outcome" where
  "in_authenticating (EapFromSupplicant eap) cfg s =
     (if in_code eap = EapCode.Response then
        (s\<lparr>state := State.AuthServer\<rparr>,
         [CancelTimer TimerKind.SuppTimeout, ToAuthServer (in_packet eap),
          ArmTimer TimerKind.ServerTimeout])
      else (s, []))"
| "in_authenticating (Timer TimerKind.SuppTimeout) cfg s =
     (if accounting_open s then teardown ReauthFailure s else hold s)"
| "in_authenticating EapolStart cfg s =
     then_identity [CancelTimer TimerKind.SuppTimeout] (s\<lparr>state := State.Connecting\<rparr>)"
| "in_authenticating EapolLogoff cfg s = teardown SupplicantLogoff s"
| "in_authenticating _ cfg s = (s, [])"

fun in_authenticated :: "Event \<Rightarrow> PortSession \<Rightarrow> outcome" where
  "in_authenticated (Timer TimerKind.Reauth) s = begin_reauth s"
| "in_authenticated EapolStart s = begin_reauth s"
| "in_authenticated EapolLogoff s = teardown SupplicantLogoff s"
| "in_authenticated (Timer TimerKind.SessionTimeout) s =
     (let (s1, fx) = teardown TerminateCause.SessionTimeout s
      in then_identity fx (s1\<lparr>tx_count := 1, state := State.Connecting\<rparr>))"
| "in_authenticated _ s = (s, [])"

definition held_retry :: "PortSession \<Rightarrow> outcome" where
  "held_retry s =
     then_identity [CancelTimer TimerKind.Held] (s\<lparr>tx_count := 1, state := State.Connecting\<rparr>)"

fun in_held :: "Event \<Rightarrow> PortSession \<Rightarrow> outcome" where
  "in_held (Timer TimerKind.Held) s = held_retry s"
| "in_held EapolStart s = held_retry s"
| "in_held _ s = (s, [])"

fun in_fallback :: "Event \<Rightarrow> PortSession \<Rightarrow> outcome" where
  "in_fallback EapolStart s = send_identity (s\<lparr>tx_count := 1, state := State.Connecting\<rparr>)"
| "in_fallback (Timer TimerKind.ServerTimeout) s =
     (if state s = State.Fallback Critical
      then send_identity (s\<lparr>tx_count := 1, state := State.Connecting\<rparr>)
      else (s, []))"
| "in_fallback _ s = (s, [])"

text \<open>\<open>PortSession::step\<close>: the events that apply in any state first, then the state's handler.\<close>

definition step_in_state :: "Event \<Rightarrow> PaeConfig \<Rightarrow> PortSession \<Rightarrow> outcome" where
  "step_in_state event cfg s =
     (case state s of
        State.Connecting \<Rightarrow> in_connecting event cfg s
      | State.AuthServer \<Rightarrow> in_auth_server event cfg s
      | State.Authenticating \<Rightarrow> in_authenticating event cfg s
      | State.Authenticated \<Rightarrow> in_authenticated event s
      | State.Held \<Rightarrow> in_held event s
      | State.Fallback _ \<Rightarrow> in_fallback event s
      | State.New \<Rightarrow> (s, []))"

definition step :: "PortSession \<Rightarrow> Event \<Rightarrow> PaeConfig \<Rightarrow> outcome" where
  "step s event cfg =
     (case event of
        LinkDown \<Rightarrow> teardown PortLinkDown s
      | CoaDisconnect \<Rightarrow> teardown AdminReset s
      | CoaAuthorize a \<Rightarrow> coa_authorize a s
      | CoaReauthenticate \<Rightarrow>
          if state s = State.Authenticated then begin_reauth s else (s, [])
      | Enable \<Rightarrow> enable s
      | _ \<Rightarrow> step_in_state event cfg s)"

definition max_sessions :: "HostMode \<Rightarrow> nat option" where
  "max_sessions mode =
     (case mode of
        SingleHost \<Rightarrow> Some 1 | MultiHost \<Rightarrow> Some 1 | MultiDomain \<Rightarrow> Some 2 | MultiAuth \<Rightarrow> None)"

lemmas [step_defs] =
  send_identity_def then_identity_def teardown_def hold_def enter_fallback_def coa_authorize_def
  begin_reauth_def server_unreachable_def reject_def authorize_def no_supplicant_def
  enable_def held_retry_def

section \<open>What the dataplane holds\<close>

text \<open>
  \<open>granted\<close> ties the three places that record an authorization: the open
  accounting session, the retained \<open>authz\<close>, and the dataplane. Without an open
  session the port is closed or in a VLAN that the configuration names.
\<close>

definition granted :: "PaeConfig \<Rightarrow> PortSession \<Rightarrow> PortAuthorization \<Rightarrow> bool" where
  "granted cfg s dp \<longleftrightarrow>
     (if accounting_open s then \<exists>a. authz s = Some a \<and> dp = Authorized a
      else authz s = None \<and>
        (dp = Unauthorized \<or>
         (\<exists>r v. fallback_vlan cfg r = Some v \<and> dp = PortAuthorization.Fallback r (Some v))))"

definition session_inv :: "PaeConfig \<Rightarrow> PortSession \<Rightarrow> PortAuthorization \<Rightarrow> bool" where
  "session_inv cfg s dp \<longleftrightarrow>
     granted cfg s dp \<and>
     (case state s of
        State.New \<Rightarrow> \<not> accounting_open s \<and> dp = Unauthorized
      | State.Held \<Rightarrow> \<not> accounting_open s \<and> dp = Unauthorized
      | State.Fallback r \<Rightarrow> \<not> accounting_open s \<and> dp = PortAuthorization.Fallback r (fallback_vlan cfg r)
      | State.Authenticated \<Rightarrow> accounting_open s
      | _ \<Rightarrow> True)"

definition inv_after :: "PaeConfig \<Rightarrow> PortAuthorization \<Rightarrow> outcome \<Rightarrow> bool" where
  "inv_after cfg dp out \<longleftrightarrow> session_inv cfg (fst out) (foldl dataplane dp (snd out))"

named_theorems inv_intros \<open>each shared transition re-establishes the session invariant\<close>

lemma session_inv_closed:
  "session_inv cfg s dp \<Longrightarrow> \<not> accounting_open s \<Longrightarrow> authz s = None"
  by (simp add: session_inv_def granted_def)

lemma inv_after_unchanged [inv_intros]: "session_inv cfg s dp \<Longrightarrow> inv_after cfg dp (s, [])"
  by (simp add: inv_after_def)

lemma inv_after_teardown [inv_intros]: "session_inv cfg s dp \<Longrightarrow> inv_after cfg dp (teardown c s)"
  by (cases "state s = State.New") (auto simp: inv_after_def teardown_def session_inv_def granted_def)

lemma inv_after_hold [inv_intros]:
  "session_inv cfg s dp \<Longrightarrow> \<not> accounting_open s \<Longrightarrow> inv_after cfg dp (hold s)"
  by (simp add: inv_after_def hold_def session_inv_def granted_def)

lemma inv_after_fallback [inv_intros]:
  "session_inv cfg s dp \<Longrightarrow> \<not> accounting_open s \<Longrightarrow> fallback_vlan cfg r = Some v \<Longrightarrow>
     inv_after cfg dp (enter_fallback r v s)"
  by (auto simp: inv_after_def enter_fallback_def session_inv_def granted_def)

lemma inv_after_identity:
  assumes "granted cfg s dp"
  shows "inv_after cfg dp (send_identity (s\<lparr>tx_count := n, state := State.Connecting\<rparr>))"
  using assms by (simp add: inv_after_def send_identity_def session_inv_def granted_def)

lemma granted_of_inv: "session_inv cfg s dp \<Longrightarrow> granted cfg s dp"
  by (simp add: session_inv_def)

lemma inv_after_connecting_identity:
  assumes "session_inv cfg s dp" "state s = State.Connecting"
  shows "inv_after cfg dp (send_identity s)"
    and "inv_after cfg dp (send_identity (s\<lparr>tx_count := n\<rparr>))"
  using assms by (simp_all add: inv_after_def send_identity_def session_inv_def granted_def)

lemma inv_after_then_identity:
  assumes "granted cfg s dp" and "\<And>d. foldl dataplane d fx = d"
  shows "inv_after cfg dp (then_identity fx (s\<lparr>tx_count := n, state := State.Connecting\<rparr>))"
    and "inv_after cfg dp (then_identity fx (s\<lparr>state := State.Connecting\<rparr>))"
  using assms
  by (simp_all add: inv_after_def then_identity_def send_identity_def session_inv_def granted_def)

lemma inv_after_reauth [inv_intros]: "session_inv cfg s dp \<Longrightarrow> inv_after cfg dp (begin_reauth s)"
  by (simp add: begin_reauth_def inv_after_def then_identity_def send_identity_def session_inv_def
      granted_def)

lemma inv_after_held_retry [inv_intros]: "session_inv cfg s dp \<Longrightarrow> inv_after cfg dp (held_retry s)"
  unfolding held_retry_def by (rule inv_after_then_identity) (auto dest: granted_of_inv)

lemma inv_after_enable [inv_intros]: "inv_after cfg dp (enable s)"
  by (simp add: inv_after_def enable_def then_identity_def send_identity_def session_inv_def
      granted_def)

lemma inv_after_coa [inv_intros]: "session_inv cfg s dp \<Longrightarrow> inv_after cfg dp (coa_authorize a s)"
  by (cases "state s = State.Authenticated")
    (auto simp: inv_after_def coa_authorize_def session_inv_def granted_def)

lemma inv_after_authorize [inv_intros]: "inv_after cfg dp (authorize a eap cfg s)"
  by (simp add: inv_after_def authorize_def session_inv_def granted_def split: option.splits)

lemma inv_after_reject [inv_intros]: "session_inv cfg s dp \<Longrightarrow> inv_after cfg dp (reject eap cfg s)"
  by (cases eap; cases "auth_fail_vlan cfg"; cases "state s = State.New")
    (auto simp: inv_after_def reject_def Let_def teardown_def hold_def enter_fallback_def session_inv_def
      granted_def intro: exI [of _ AuthFail])

lemma inv_after_unreachable [inv_intros]:
  "session_inv cfg s dp \<Longrightarrow> inv_after cfg dp (server_unreachable cfg s)"
  by (auto simp: server_unreachable_def session_inv_def granted_def inv_after_def hold_def
      enter_fallback_def split: option.splits intro: exI [of _ Critical])

lemma inv_after_await_server [inv_intros]:
  assumes "session_inv cfg s dp"
  shows "inv_after cfg dp (s\<lparr>auth_kind := k, state := State.AuthServer\<rparr>,
      [CancelTimer t, ToAuthServer p, ArmTimer t'])"
    and "inv_after cfg dp (s\<lparr>state := State.AuthServer\<rparr>, [CancelTimer t, ToAuthServer p, ArmTimer t'])"
    and "inv_after cfg dp (s\<lparr>state := State.Authenticating\<rparr>,
      [CancelTimer t, TxEapToSupplicant p, ArmTimer t'])"
    and "inv_after cfg dp (s\<lparr>auth_kind := k, state := State.AuthServer\<rparr>,
      [CancelTimer t, StartMab m, ArmTimer t'])"
  using assms by (simp_all add: inv_after_def session_inv_def granted_def)

lemma inv_after_no_supplicant [inv_intros]:
  "session_inv cfg s dp \<Longrightarrow> inv_after cfg dp (no_supplicant cfg s)"
  by (auto simp: no_supplicant_def split: option.splits
      intro!: inv_after_teardown inv_after_hold inv_after_fallback inv_after_await_server)

lemma in_connecting_inv:
  assumes "session_inv cfg s dp" "state s = State.Connecting"
  shows "inv_after cfg dp (in_connecting e cfg s)"
  using assms
  by (induction e cfg s rule: in_connecting.induct)
    (simp_all add: inv_intros inv_after_connecting_identity)

lemma in_auth_server_inv:
  assumes "session_inv cfg s dp"
  shows "inv_after cfg dp (in_auth_server e cfg s)"
  using assms
  by (induction e cfg s rule: in_auth_server.induct) (simp_all add: inv_intros)

lemma in_authenticating_inv:
  assumes "session_inv cfg s dp" "state s = State.Authenticating"
  shows "inv_after cfg dp (in_authenticating e cfg s)"
  using assms
  by (induction e cfg s rule: in_authenticating.induct)
    (simp_all add: inv_intros inv_after_then_identity granted_of_inv)

lemma in_authenticated_inv:
  assumes "session_inv cfg s dp"
  shows "inv_after cfg dp (in_authenticated e s)"
  using assms
proof (induction e s rule: in_authenticated.induct)
  case (4 s)
  then show ?case
    by (simp add: teardown_def then_identity_def send_identity_def inv_after_def session_inv_def
        granted_def)
qed (simp_all add: inv_intros)

lemma in_held_inv: "session_inv cfg s dp \<Longrightarrow> inv_after cfg dp (in_held e s)"
  by (induction e s rule: in_held.induct) (simp_all add: inv_intros)

lemma in_fallback_inv: "session_inv cfg s dp \<Longrightarrow> inv_after cfg dp (in_fallback e s)"
  by (induction e s rule: in_fallback.induct)
    (simp_all add: inv_intros inv_after_identity granted_of_inv)

lemma step_in_state_inv: "session_inv cfg s dp \<Longrightarrow> inv_after cfg dp (step_in_state e cfg s)"
  by (cases "state s")
    (simp_all add: step_in_state_def in_connecting_inv in_auth_server_inv in_authenticating_inv
      in_authenticated_inv in_held_inv in_fallback_inv inv_intros)

lemma step_session_inv: "session_inv cfg s dp \<Longrightarrow> inv_after cfg dp (step s e cfg)"
  by (cases e) (simp_all add: step_def inv_intros step_in_state_inv)

lemma session_new_inv: "session_inv cfg (session_new m) Unauthorized"
  by (simp add: session_inv_def granted_def session_new_def)

interpretation session_dataplane: monitored_machine
  "\<lambda>s e. step s e cfg" dataplane "session_inv cfg" "\<lambda>_ _. True" for cfg
  by unfold_locales (use step_session_inv in \<open>simp add: inv_after_def\<close>)

end
