(* ===== verification/Pae_Invariants.thy ===== *)
theory Pae_Invariants
  imports Pae_Session
begin

text \<open>
  Properties of the session machine over whole runs: accounting alternates,
  every waiting state has its timer armed, an authorized port always traces back
  to a grant, the EAP payload is relayed verbatim, at most one RADIUS request
  leaves a step, and the identity retries are bounded. The run that loses a
  \<open>Session-Timeout\<close> and the \<open>Enable\<close> that drops an accounting Stop are stated as
  theorems too.
\<close>

section \<open>Frames and shapes of a step\<close>

named_theorems handler_simps \<open>facts about the shared transitions, lifted through the handlers\<close>

lemma mac_shared [handler_simps]:
  "mac (fst (send_identity s)) = mac s"
  "mac (fst (then_identity fx s)) = mac s"
  "mac (fst (teardown c s)) = mac s"
  "mac (fst (hold s)) = mac s"
  "mac (fst (enter_fallback r v s)) = mac s"
  "mac (fst (coa_authorize a s)) = mac s"
  "mac (fst (authorize a eap cfg s)) = mac s"
  by (simp_all add: step_defs Let_def)

lemma step_mac [simp]: "mac (fst (step s e cfg)) = mac s"
proof -
  have "mac (fst (in_connecting e cfg s)) = mac s"
    by (induction e cfg s rule: in_connecting.induct)
      (simp_all add: handler_simps no_supplicant_def split: option.splits)
  moreover have "mac (fst (in_auth_server e cfg s)) = mac s"
    by (induction e cfg s rule: in_auth_server.induct)
      (simp_all add: handler_simps step_defs Let_def split: option.splits)
  moreover have "mac (fst (in_authenticating e cfg s)) = mac s"
    by (induction e cfg s rule: in_authenticating.induct) (simp_all add: handler_simps)
  moreover have "mac (fst (in_authenticated e s)) = mac s"
    by (induction e s rule: in_authenticated.induct)
      (simp_all add: handler_simps step_defs Let_def)
  moreover have "mac (fst (in_held e s)) = mac s"
    by (induction e s rule: in_held.induct) (simp_all add: handler_simps held_retry_def)
  moreover have "mac (fst (in_fallback e s)) = mac s"
    by (induction e s rule: in_fallback.induct) (simp_all add: handler_simps)
  ultimately show ?thesis
    by (cases e; cases "state s")
      (simp_all add: step_def step_in_state_def handler_simps begin_reauth_def enable_def)
qed

text \<open>
  Which events can authorize: only an \<open>Access-Accept\<close> while a request is
  outstanding, or a CoA change of an already authorized session.
\<close>

definition grants :: "PortSession \<Rightarrow> Event \<Rightarrow> Authorization \<Rightarrow> bool" where
  "grants s e a \<longleftrightarrow>
     (state s = State.AuthServer \<and> (\<exists>eap. e = AccessAccept a eap)) \<or>
     (state s = State.Authenticated \<and> e = CoaAuthorize a)"

fun authorizing :: "Effect \<Rightarrow> bool" where
  "authorizing (SetAuthorization (Authorized _)) = True"
| "authorizing _ = False"

definition quiet :: "Effect list \<Rightarrow> bool" where
  "quiet fx \<longleftrightarrow> (\<forall>x \<in> set fx. \<not> authorizing x)"

lemma quiet_simps [simp]:
  "quiet []"
  "quiet (x # fx) \<longleftrightarrow> \<not> authorizing x \<and> quiet fx"
  "quiet (fx @ fy) \<longleftrightarrow> quiet fx \<and> quiet fy"
  by (auto simp: quiet_def)

lemma quiet_shared [handler_simps]:
  "quiet (snd (send_identity s))"
  "quiet (snd (then_identity fx s)) = quiet fx"
  "quiet (snd (teardown c s))"
  "quiet (snd (hold s))"
  "quiet (snd (enter_fallback r v s))"
  "quiet (snd (server_unreachable cfg s))"
  "quiet (snd (reject eap cfg s))"
  "quiet (snd (no_supplicant cfg s))"
  "quiet (snd (begin_reauth s))"
  "quiet (snd (held_retry s))"
  "quiet (snd (enable s))"
  by (simp_all add: step_defs Let_def split: option.splits)

lemma quiet_connecting: "quiet (snd (in_connecting e cfg s))"
  by (induction e cfg s rule: in_connecting.induct) (simp_all add: handler_simps)

lemma quiet_auth_server:
  "(\<nexists>a eap. e = AccessAccept a eap) \<Longrightarrow> quiet (snd (in_auth_server e cfg s))"
  by (induction e cfg s rule: in_auth_server.induct) (simp_all add: handler_simps)

lemma quiet_authenticating: "quiet (snd (in_authenticating e cfg s))"
  by (induction e cfg s rule: in_authenticating.induct) (simp_all add: handler_simps)

lemma quiet_authenticated: "quiet (snd (in_authenticated e s))"
  by (induction e s rule: in_authenticated.induct)
    (simp_all add: handler_simps case_prod_unfold Let_def)

lemma quiet_held: "quiet (snd (in_held e s))"
  by (induction e s rule: in_held.induct) (simp_all add: handler_simps)

lemma quiet_fallback: "quiet (snd (in_fallback e s))"
  by (induction e s rule: in_fallback.induct) (simp_all add: handler_simps)

lemmas quiet_handlers =
  quiet_connecting quiet_auth_server quiet_authenticating quiet_authenticated quiet_held quiet_fallback

lemma step_quiet_unless_grant:
  assumes "\<And>a. \<not> grants s e a"
  shows "quiet (snd (step s e cfg))"
  using assms
  by (cases e; cases "state s")
    (auto simp: step_def step_in_state_def grants_def handler_simps quiet_handlers
      coa_authorize_def)

lemma step_authorizes:
  assumes "SetAuthorization (Authorized a) \<in> set (snd (step s e cfg))"
  shows "grants s e a"
proof -
  have "\<not> quiet (snd (step s e cfg))"
    using assms authorizing.simps(1) unfolding quiet_def by blast
  then obtain b where "grants s e b" using step_quiet_unless_grant by blast
  then show ?thesis
    using assms
    by (auto simp: grants_def step_def step_in_state_def coa_authorize_def authorize_def
        split: option.splits if_splits)
qed

text \<open>The dataplane after an effect list is the last authorization set, or the old one.\<close>

lemma dataplane_last:
  "foldl dataplane dp fx = dp' \<Longrightarrow> dp' \<noteq> dp \<Longrightarrow> SetAuthorization dp' \<in> set fx"
proof (induction fx rule: rev_induct)
  case (snoc x xs)
  then show ?case by (cases x) auto
qed simp

lemma dataplane_cases:
  obtains "foldl dataplane dp fx = dp" | "SetAuthorization (foldl dataplane dp fx) \<in> set fx"
  using dataplane_last by blast

section \<open>Every authorization traces back to a grant\<close>

abbreviation run_session :: "PaeConfig \<Rightarrow> PortSession \<Rightarrow> Event list \<Rightarrow> outcome" where
  "run_session cfg \<equiv> run_machine (\<lambda>s e. step s e cfg)"

definition dataplane_of :: "outcome \<Rightarrow> PortAuthorization" where
  "dataplane_of out = foldl dataplane Unauthorized (snd out)"

lemma run_snoc:
  "run_session cfg s (es @ [e]) =
     (let (s1, fx) = run_session cfg s es; (s2, fx2) = step s1 e cfg in (s2, fx @ fx2))"
  by (simp add: run_machine_append Let_def split: prod.splits)

lemma dataplane_of_snoc:
  "dataplane_of (run_session cfg s (es @ [e])) =
     foldl dataplane (dataplane_of (run_session cfg s es))
       (snd (step (fst (run_session cfg s es)) e cfg))"
  by (simp add: run_snoc dataplane_of_def Let_def split: prod.splits)

lemma authorized_traces_to_grant:
  assumes "dataplane_of (run_session cfg s es) = Authorized a"
  shows "\<exists>es1 e es2. es = es1 @ e # es2 \<and> grants (fst (run_session cfg s es1)) e a \<and>
    (\<forall>n \<le> length es2. dataplane_of (run_session cfg s (es1 @ e # take n es2)) = Authorized a)"
  using assms
proof (induction es rule: rev_induct)
  case Nil
  then show ?case by (simp add: dataplane_of_def)
next
  case (snoc e es)
  let ?s = "fst (run_session cfg s es)" and ?dp = "dataplane_of (run_session cfg s es)"
  show ?case
  proof (cases rule: dataplane_cases [of ?dp "snd (step ?s e cfg)"])
    case 1
    then have "?dp = Authorized a" using snoc.prems by (simp add: dataplane_of_snoc)
    then obtain es1 e' es2 where es: "es = es1 @ e' # es2" and g: "grants (fst (run_session cfg s es1)) e' a"
      and h: "\<forall>n \<le> length es2. dataplane_of (run_session cfg s (es1 @ e' # take n es2)) = Authorized a"
      using snoc.IH by blast
    have "dataplane_of (run_session cfg s (es1 @ e' # take n (es2 @ [e]))) = Authorized a"
      if "n \<le> length (es2 @ [e])" for n
      using h snoc.prems es that by (cases "n \<le> length es2") (auto simp: not_le Suc_le_eq)
    then show ?thesis
      using es g by (intro exI [of _ es1] exI [of _ e'] exI [of _ "es2 @ [e]"]) auto
  next
    case 2
    then have "SetAuthorization (Authorized a) \<in> set (snd (step ?s e cfg))"
      using snoc.prems by (simp add: dataplane_of_snoc)
    then have "grants ?s e a" by (rule step_authorizes)
    then show ?thesis
      using snoc.prems by (intro exI [of _ es] exI [of _ e] exI [of _ "[]"]) auto
  qed
qed

lemma run_session_inv:
  assumes "session_inv cfg s Unauthorized"
  shows "session_inv cfg (fst (run_session cfg s es)) (dataplane_of (run_session cfg s es))"
  using session_dataplane.run_inv [OF assms session_dataplane.admissible_if_all_allowed]
  by (simp add: dataplane_of_def)

section \<open>Accounting\<close>

definition acct_after :: "PortSession \<Rightarrow> outcome \<Rightarrow> bool" where
  "acct_after s out \<longleftrightarrow>
     foldl acct_monitor (Some (accounting_open s)) (snd out) = Some (accounting_open (fst out))"

lemma acct_shared [handler_simps]:
  "acct_after s (send_identity s)"
  "acct_after s (send_identity (s\<lparr>tx_count := n\<rparr>))"
  "acct_after s (send_identity (s\<lparr>tx_count := n, state := q\<rparr>))"
  "acct_after s (teardown c s)"
  "acct_after s (hold s)"
  "acct_after s (enter_fallback r v s)"
  "acct_after s (coa_authorize a s)"
  "acct_after s (begin_reauth s)"
  "acct_after s (server_unreachable cfg s)"
  "acct_after s (reject eap cfg s)"
  "acct_after s (authorize a eap cfg s)"
  "acct_after s (no_supplicant cfg s)"
  "acct_after s (held_retry s)"
  "acct_after s (s, [])"
  by (simp_all add: acct_after_def step_defs Let_def split: option.splits)

lemma acct_connecting: "acct_after s (in_connecting e cfg s)"
  by (induction e cfg s rule: in_connecting.induct)
    (simp_all add: handler_simps, simp_all add: acct_after_def)

lemma acct_auth_server: "acct_after s (in_auth_server e cfg s)"
  by (induction e cfg s rule: in_auth_server.induct)
    (simp_all add: handler_simps, simp_all add: acct_after_def)

lemma acct_authenticating: "acct_after s (in_authenticating e cfg s)"
  by (induction e cfg s rule: in_authenticating.induct)
    (simp_all add: handler_simps, simp_all add: acct_after_def step_defs Let_def)

lemma acct_authenticated: "acct_after s (in_authenticated e s)"
  by (induction e s rule: in_authenticated.induct)
    (simp_all add: handler_simps, simp_all add: acct_after_def step_defs Let_def)

lemma acct_held: "acct_after s (in_held e s)"
  by (induction e s rule: in_held.induct) (simp_all add: handler_simps)

lemma acct_fallback: "acct_after s (in_fallback e s)"
  by (induction e s rule: in_fallback.induct) (simp_all add: handler_simps)

lemma step_acct:
  assumes "e = Enable \<longrightarrow> \<not> accounting_open s"
  shows "acct_after s (step s e cfg)"
  using assms
  by (cases e; cases "state s")
    (simp_all add: step_def step_in_state_def handler_simps acct_connecting acct_auth_server
      acct_authenticating acct_authenticated acct_held acct_fallback,
     simp_all add: acct_after_def enable_def step_defs Let_def)

interpretation session_accounting: monitored_machine
  "\<lambda>s e. step s e cfg" acct_monitor "\<lambda>s m. m = Some (accounting_open s)"
  "\<lambda>s e. e = Enable \<longrightarrow> \<not> accounting_open s" for cfg
  by unfold_locales (use step_acct in \<open>simp add: acct_after_def\<close>)

section \<open>Timers\<close>

text \<open>
  The session together with the timers the daemon has armed for it. A timer event
  is an expiry: only an armed timer expires, and expiring disarms it.
\<close>

fun expire :: "Event \<Rightarrow> TimerKind set \<Rightarrow> TimerKind set" where
  "expire (Timer k) T = T - {k}"
| "expire _ T = T"

definition timed_step ::
    "PaeConfig \<Rightarrow> PortSession \<times> TimerKind set \<Rightarrow> Event \<Rightarrow> (PortSession \<times> TimerKind set) \<times> Effect list" where
  "timed_step cfg sT e =
     (let (s, T) = sT;
          (s1, fx) = step s e cfg
      in ((s1, foldl armed_timers (expire e T) fx), fx))"

definition expirable :: "PortSession \<times> TimerKind set \<Rightarrow> Event \<Rightarrow> bool" where
  "expirable sT e \<longleftrightarrow> (\<forall>k. e = Timer k \<longrightarrow> k \<in> snd sT)"

text \<open>The timer that gets a session out of a state in which it waits for somebody.\<close>

fun awaited :: "PaeConfig \<Rightarrow> State \<Rightarrow> TimerKind option" where
  "awaited cfg State.Connecting = Some TimerKind.TxPeriod"
| "awaited cfg State.AuthServer = Some TimerKind.ServerTimeout"
| "awaited cfg State.Authenticating = Some TimerKind.SuppTimeout"
| "awaited cfg State.Held = Some TimerKind.Held"
| "awaited cfg (State.Fallback Critical) = Some TimerKind.ServerTimeout"
| "awaited cfg State.Authenticated = (if reauth_enabled cfg then Some TimerKind.Reauth else None)"
| "awaited cfg _ = None"

definition timers_ok :: "PaeConfig \<Rightarrow> PortSession \<times> TimerKind set \<Rightarrow> bool" where
  "timers_ok cfg sT \<longleftrightarrow>
     (\<forall>k. awaited cfg (state (fst sT)) = Some k \<longrightarrow> k \<in> snd sT) \<and>
     (state (fst sT) = State.New \<longrightarrow> snd sT = {})"

definition armed_after :: "PaeConfig \<Rightarrow> TimerKind set \<Rightarrow> outcome \<Rightarrow> bool" where
  "armed_after cfg T out \<longleftrightarrow> timers_ok cfg (fst out, foldl armed_timers T (snd out))"

lemma armed_shared [handler_simps]:
  "state s = State.Connecting \<Longrightarrow> armed_after cfg T (send_identity s)"
  "armed_after cfg T (send_identity (s\<lparr>tx_count := n, state := State.Connecting\<rparr>))"
  "armed_after cfg T (then_identity fx (s\<lparr>state := State.Connecting\<rparr>))"
  "armed_after cfg T (then_identity fx (s\<lparr>tx_count := n, state := State.Connecting\<rparr>))"
  "state s \<noteq> State.New \<Longrightarrow> armed_after cfg T (teardown c s)"
  "armed_after cfg T (hold s)"
  "armed_after cfg T (begin_reauth s)"
  "armed_after cfg T (server_unreachable cfg s)"
  "armed_after cfg T (authorize a eap cfg s)"
  "armed_after cfg T (held_retry s)"
  "armed_after cfg T (enable s)"
  "r \<noteq> Critical \<Longrightarrow> armed_after cfg T (enter_fallback r v s)"
  by (simp_all add: armed_after_def timers_ok_def step_defs Let_def split: option.splits)
    (cases r; simp)+

lemma armed_reject [handler_simps]:
  "state s \<noteq> State.New \<Longrightarrow> armed_after cfg T (reject eap cfg s)"
  by (simp add: armed_after_def timers_ok_def step_defs Let_def split: option.splits)

lemma armed_no_supplicant [handler_simps]:
  "state s \<noteq> State.New \<Longrightarrow> armed_after cfg T (no_supplicant cfg s)"
  by (simp add: armed_after_def timers_ok_def step_defs Let_def split: option.splits)

text \<open>An event that changes nothing keeps the awaited timer, unless it is that timer's expiry.\<close>

lemma armed_unchanged:
  assumes "timers_ok cfg (s, T)" and "awaited cfg (state s) \<noteq> Some k" and "state s \<noteq> State.New"
  shows "armed_after cfg T (s, [])" and "armed_after cfg (T - {k}) (s, [])"
  using assms by (auto simp: armed_after_def timers_ok_def)

lemma armed_connecting:
  assumes "timers_ok cfg (s, T)" "state s = State.Connecting"
  shows "armed_after cfg (expire e T) (in_connecting e cfg s)"
  using assms
proof (induction e cfg s rule: in_connecting.induct)
  case (4 eap cfg s)
  then show ?case by (simp add: armed_after_def timers_ok_def)
qed (auto simp: handler_simps intro: armed_unchanged)

lemma armed_auth_server:
  assumes "timers_ok cfg (s, T)" "state s = State.AuthServer"
  shows "armed_after cfg (expire e T) (in_auth_server e cfg s)"
  using assms
proof (induction e cfg s rule: in_auth_server.induct)
  case (1 eap cfg s)
  then show ?case by (simp add: armed_after_def timers_ok_def)
qed (auto simp: handler_simps intro: armed_unchanged)

lemma armed_authenticating:
  assumes "timers_ok cfg (s, T)" "state s = State.Authenticating"
  shows "armed_after cfg (expire e T) (in_authenticating e cfg s)"
  using assms
proof (induction e cfg s rule: in_authenticating.induct)
  case (1 eap cfg s)
  then show ?case by (simp add: armed_after_def timers_ok_def)
qed (auto simp: handler_simps intro: armed_unchanged)

lemma armed_authenticated:
  assumes "timers_ok cfg (s, T)" "state s = State.Authenticated"
  shows "armed_after cfg (expire e T) (in_authenticated e s)"
  using assms
  by (induction e s rule: in_authenticated.induct)
    (auto simp: handler_simps case_prod_unfold Let_def intro: armed_unchanged split: if_splits)

lemma armed_held:
  assumes "timers_ok cfg (s, T)" "state s = State.Held"
  shows "armed_after cfg (expire e T) (in_held e s)"
  using assms
  by (induction e s rule: in_held.induct) (auto simp: handler_simps intro: armed_unchanged)

lemma armed_fallback:
  assumes "timers_ok cfg (s, T)" "state s = State.Fallback r"
  shows "armed_after cfg (expire e T) (in_fallback e s)"
  using assms
  by (cases r; induction e s rule: in_fallback.induct)
    (auto simp: handler_simps intro: armed_unchanged)

lemma armed_new:
  assumes "timers_ok cfg (s, T)" "expirable (s, T) e" "state s = State.New"
  shows "armed_after cfg (expire e T) (s, [])"
  using assms by (cases e) (auto simp: armed_after_def timers_ok_def expirable_def)

lemma armed_coa_authorize:
  "timers_ok cfg (s, T) \<Longrightarrow> armed_after cfg T (coa_authorize a s)"
  by (simp add: armed_after_def timers_ok_def coa_authorize_def)

lemma armed_teardown:
  "timers_ok cfg (s, T) \<Longrightarrow> armed_after cfg T (teardown c s)"
  by (cases "state s = State.New") (simp_all add: handler_simps armed_after_def timers_ok_def teardown_def)

lemma step_armed:
  assumes "timers_ok cfg (s, T)" "expirable (s, T) e"
  shows "armed_after cfg (expire e T) (step s e cfg)"
proof -
  have "armed_after cfg (expire e T) (step_in_state e cfg s)"
    using assms
    by (cases "state s")
      (simp_all add: step_in_state_def armed_connecting armed_auth_server armed_authenticating
        armed_authenticated armed_held armed_fallback armed_new)
  moreover have "armed_after cfg T (s, [])"
    using assms(1) by (simp add: armed_after_def)
  ultimately show ?thesis
    using assms(1)
    by (cases e) (simp_all add: step_def handler_simps armed_coa_authorize armed_teardown)
qed

interpretation session_timers: monitored_machine
  "timed_step cfg" "\<lambda>g _. g" "\<lambda>sT (_ :: unit). timers_ok cfg sT" expirable for cfg
proof
  fix sT :: "PortSession \<times> TimerKind set" and g :: unit and e
  assume "timers_ok cfg sT" "expirable sT e"
  then show "timers_ok cfg (fst (timed_step cfg sT e))"
    using step_armed [of cfg "fst sT" "snd sT" e]
    by (simp add: timed_step_def armed_after_def Let_def case_prod_unfold)
qed

section \<open>Bounded retries\<close>

text \<open>Where a session goes when nobody answers its identity requests.\<close>

definition silent_outcome :: "PaeConfig \<Rightarrow> PortSession \<Rightarrow> State" where
  "silent_outcome cfg s =
     (if accounting_open s then State.New
      else if mab_enabled cfg then State.AuthServer
      else if guest_vlan cfg \<noteq> None then State.Fallback Guest
      else State.Held)"

lemma step_txperiod:
  "state s = State.Connecting \<Longrightarrow> step s (Timer TimerKind.TxPeriod) cfg =
     (if tx_count s < max_reauth_req cfg
      then send_identity (s\<lparr>tx_count := saturating_add_u32 (tx_count s) 1\<rparr>)
      else no_supplicant cfg s)"
  by (simp add: step_def step_in_state_def)

lemma state_no_supplicant: "state (fst (no_supplicant cfg s)) = silent_outcome cfg s" if "state s = State.Connecting"
  using that by (auto simp: no_supplicant_def silent_outcome_def step_defs split: option.splits)

lemma silent_retries:
  assumes "state s = State.Connecting"
  shows "state (fst (run_session cfg s
      (replicate (Suc (unat (max_reauth_req cfg) - unat (tx_count s))) (Timer TimerKind.TxPeriod)))) =
    silent_outcome cfg s"
  using assms
proof (induction "unat (max_reauth_req cfg) - unat (tx_count s)" arbitrary: s)
  case 0
  then have "\<not> tx_count s < max_reauth_req cfg" by (simp add: word_less_nat_alt)
  with 0 show ?case
    by (simp add: step_txperiod state_no_supplicant Let_def case_prod_unfold)
next
  case (Suc n)
  then have less: "tx_count s < max_reauth_req cfg"
    by (simp add: word_less_nat_alt)
  let ?s = "fst (send_identity (s\<lparr>tx_count := saturating_add_u32 (tx_count s) 1\<rparr>))"
  have "unat (tx_count s) + 1 < 4294967296"
    using less unat_u32_less [of "max_reauth_req cfg"] unfolding word_less_nat_alt by linarith
  then have "unat (tx_count ?s) = Suc (unat (tx_count s))"
    using saturating_add_u32_no_overflow [of "tx_count s" 1] by (simp add: send_identity_def)
  then have n: "n = unat (max_reauth_req cfg) - unat (tx_count ?s)" using Suc.hyps(2) by simp
  have "silent_outcome cfg ?s = silent_outcome cfg s"
    by (simp add: silent_outcome_def send_identity_def)
  moreover have "state ?s = State.Connecting" using Suc.prems by (simp add: send_identity_def)
  ultimately show ?case
    using Suc.hyps(1) [OF n] less Suc.prems
    by (simp add: step_txperiod Suc.hyps(2) [symmetric] n [symmetric] Let_def case_prod_unfold)
qed

section \<open>Requests to the authentication server\<close>

definition radius_count :: "Effect list \<Rightarrow> nat" where
  "radius_count fx = length (filter radius_bearing fx)"

lemma radius_count_simps [simp]:
  "radius_count [] = 0"
  "radius_count (x # fx) = (if radius_bearing x then Suc (radius_count fx) else radius_count fx)"
  "radius_count (fx @ fy) = radius_count fx + radius_count fy"
  by (simp_all add: radius_count_def)

lemma radius_count_shared [handler_simps]:
  "radius_count (snd (send_identity s)) = 0"
  "radius_count (snd (then_identity fx s)) = radius_count fx"
  "radius_count (snd (teardown c s)) = 0"
  "radius_count (snd (hold s)) = 0"
  "radius_count (snd (enter_fallback r v s)) = 0"
  "radius_count (snd (coa_authorize a s)) = 0"
  "radius_count (snd (begin_reauth s)) = 0"
  "radius_count (snd (server_unreachable cfg s)) = 0"
  "radius_count (snd (reject eap cfg s)) = 0"
  "radius_count (snd (authorize a eap cfg s)) = 0"
  "radius_count (snd (enable s)) = 0"
  "radius_count (snd (held_retry s)) = 0"
  by (simp_all add: step_defs Let_def split: option.splits)

lemma radius_count_no_supplicant: "radius_count (snd (no_supplicant cfg s)) \<le> Suc 0"
  by (simp add: no_supplicant_def handler_simps split: option.splits)

lemma radius_count_handlers:
  "radius_count (snd (in_connecting e cfg s)) \<le> Suc 0"
  "radius_count (snd (in_auth_server e cfg s)) = 0"
  "radius_count (snd (in_authenticating e cfg s)) \<le> Suc 0"
  "radius_count (snd (in_authenticated e s)) = 0"
  "radius_count (snd (in_held e s)) = 0"
  "radius_count (snd (in_fallback e s)) = 0"
  subgoal by (induction e cfg s rule: in_connecting.induct)
      (simp_all add: handler_simps radius_count_no_supplicant)
  subgoal by (induction e cfg s rule: in_auth_server.induct) (simp_all add: handler_simps)
  subgoal by (induction e cfg s rule: in_authenticating.induct) (simp_all add: handler_simps)
  subgoal by (induction e s rule: in_authenticated.induct)
      (simp_all add: handler_simps case_prod_unfold Let_def)
  subgoal by (induction e s rule: in_held.induct) (simp_all add: handler_simps)
  subgoal by (induction e s rule: in_fallback.induct) (simp_all add: handler_simps)
  done

lemma step_radius_count: "radius_count (snd (step s e cfg)) \<le> Suc 0"
proof -
  have "radius_count (snd (step_in_state e cfg s)) \<le> Suc 0"
    by (cases "state s") (simp_all add: step_in_state_def radius_count_handlers)
  then show ?thesis by (cases e) (simp_all add: step_def handler_simps)
qed

text \<open>A RADIUS reply never triggers another request.\<close>

fun is_reply :: "Event \<Rightarrow> bool" where
  "is_reply (AccessChallenge _) = True"
| "is_reply (AccessAccept _ _) = True"
| "is_reply (AccessReject _) = True"
| "is_reply _ = False"

lemma step_reply_no_request: "is_reply e \<Longrightarrow> radius_count (snd (step s e cfg)) = 0"
  by (cases e; cases "state s") (simp_all add: step_def step_in_state_def handler_simps)

section \<open>Verbatim relay\<close>

fun relays :: "Event \<Rightarrow> u8 \<Rightarrow> Effect \<Rightarrow> bool" where
  "relays e i (ToAuthServer p) =
     (\<exists>eap. e = EapFromSupplicant eap \<and> in_code eap = EapCode.Response \<and> p = in_packet eap)"
| "relays e i (TxEapToSupplicant p) =
     (p = request_identity i \<or> e = AccessChallenge p \<or> (\<exists>a. e = AccessAccept a (Some p)) \<or>
      e = AccessReject (Some p))"
| "relays e i _ = True"

definition relays_only :: "Event \<Rightarrow> outcome \<Rightarrow> bool" where
  "relays_only e out \<longleftrightarrow> (\<forall>x \<in> set (snd out). relays e (eap_id (fst out)) x)"

lemma relays_shared [handler_simps]:
  "relays_only e (send_identity s)"
  "(\<forall>x \<in> set fx. \<forall>i. relays e i x) \<Longrightarrow> relays_only e (then_identity fx s)"
  "relays_only e (teardown c s)"
  "relays_only e (hold s)"
  "relays_only e (enter_fallback r v s)"
  "relays_only e (coa_authorize a s)"
  "relays_only e (begin_reauth s)"
  "relays_only e (server_unreachable cfg s)"
  "relays_only (AccessReject eap) (reject eap cfg s)"
  "relays_only (AccessAccept a eap) (authorize a eap cfg s)"
  "relays_only e (enable s)"
  "relays_only e (held_retry s)"
  "relays_only e (no_supplicant cfg s)"
  "relays_only e (s, [])"
  by (simp_all add: relays_only_def step_defs Let_def split: option.splits) auto

lemma relays_in_connecting: "relays_only e (in_connecting e cfg s)"
  by (induction e cfg s rule: in_connecting.induct)
    (simp_all add: handler_simps, simp_all add: relays_only_def)

lemma relays_in_auth_server: "relays_only e (in_auth_server e cfg s)"
  by (induction e cfg s rule: in_auth_server.induct)
    (simp_all add: handler_simps, simp_all add: relays_only_def)

lemma relays_in_authenticating: "relays_only e (in_authenticating e cfg s)"
  by (induction e cfg s rule: in_authenticating.induct)
    (simp_all add: handler_simps, simp_all add: relays_only_def)

lemma relays_in_authenticated: "relays_only e (in_authenticated e s)"
  by (induction e s rule: in_authenticated.induct)
    (simp_all add: handler_simps, simp_all add: relays_only_def step_defs Let_def)

lemma relays_in_held: "relays_only e (in_held e s)"
  by (induction e s rule: in_held.induct) (simp_all add: handler_simps)

lemma relays_in_fallback: "relays_only e (in_fallback e s)"
  by (induction e s rule: in_fallback.induct) (simp_all add: handler_simps)

lemma step_relays: "relays_only e (step s e cfg)"
proof -
  have "relays_only e (step_in_state e cfg s)"
    by (cases "state s")
      (simp_all add: step_in_state_def handler_simps relays_in_connecting relays_in_auth_server
        relays_in_authenticating relays_in_authenticated relays_in_held relays_in_fallback)
  then show ?thesis by (cases e) (simp_all add: step_def handler_simps)
qed

section \<open>The controlled port: an abstract specification\<close>

text \<open>
  What an event may do to the controlled port, independent of the session's
  internal states (the authorization column of the transition table in the
  design): stay, be granted, be changed by CoA, close, or (only from a port that
  is not authorized) move to the fallback VLAN that the event names.
\<close>

fun closes_open_port :: "Event \<Rightarrow> bool" where
  "closes_open_port LinkDown = True"
| "closes_open_port CoaDisconnect = True"
| "closes_open_port EapolLogoff = True"
| "closes_open_port Enable = True"
| "closes_open_port (AccessReject _) = True"
| "closes_open_port (Timer k) =
     (k = TimerKind.TxPeriod \<or> k = TimerKind.SuppTimeout \<or> k = TimerKind.SessionTimeout)"
| "closes_open_port _ = False"

fun server_lost :: "Event \<Rightarrow> bool" where
  "server_lost ServerUnreachable = True"
| "server_lost (Timer k) = (k = TimerKind.ServerTimeout)"
| "server_lost _ = False"

fun limits :: "Event \<Rightarrow> FallbackReason \<Rightarrow> bool" where
  "limits e Guest = (e = Timer TimerKind.TxPeriod)"
| "limits e AuthFail = (\<exists>eap. e = AccessReject eap)"
| "limits e Critical = server_lost e"

fun is_open :: "PortAuthorization \<Rightarrow> bool" where
  "is_open (Authorized _) = True"
| "is_open _ = False"

inductive auth_spec :: "PaeConfig \<Rightarrow> PortAuthorization \<Rightarrow> Event \<Rightarrow> PortAuthorization \<Rightarrow> bool"
  for cfg where
  stay: "auth_spec cfg dp e dp"
| grant: "auth_spec cfg dp (AccessAccept a eap) (Authorized a)"
| change: "auth_spec cfg (Authorized b) (CoaAuthorize a) (Authorized a)"
| close_open: "closes_open_port e \<Longrightarrow> auth_spec cfg dp e Unauthorized"
| close_lost: "server_lost e \<Longrightarrow> \<not> is_open dp \<Longrightarrow> auth_spec cfg dp e Unauthorized"
| limit: "limits e r \<Longrightarrow> \<not> is_open dp \<Longrightarrow> fallback_vlan cfg r = Some v \<Longrightarrow>
    auth_spec cfg dp e (PortAuthorization.Fallback r (Some v))"

inductive_cases auth_spec_from_open: "auth_spec cfg (Authorized a) e dp"
inductive_cases auth_spec_to_open: "auth_spec cfg dp e (Authorized a)"

definition simulates :: "PaeConfig \<Rightarrow> PortAuthorization \<Rightarrow> Event \<Rightarrow> outcome \<Rightarrow> bool" where
  "simulates cfg dp e out \<longleftrightarrow> auth_spec cfg dp e (foldl dataplane dp (snd out))"

lemma closed_not_open: "granted cfg s dp \<Longrightarrow> \<not> accounting_open s \<Longrightarrow> \<not> is_open dp"
  by (auto simp: granted_def)

lemma simulates_shared [handler_simps]:
  "simulates cfg dp e (send_identity s)"
  "closes_open_port e \<Longrightarrow> simulates cfg dp e (teardown c s)"
  "closes_open_port e \<Longrightarrow> simulates cfg dp e (hold s)"
  "simulates cfg dp e (begin_reauth s)"
  "simulates cfg dp e (held_retry s)"
  "simulates cfg dp Enable (enable s)"
  "simulates cfg dp (AccessAccept a eap) (authorize a eap cfg s)"
  "simulates cfg dp e (then_identity [CancelTimer k] s)"
  "simulates cfg dp e (s, [])"
  by (simp_all add: simulates_def step_defs Let_def auth_spec.intros split: option.splits)

lemma simulates_unreachable:
  "granted cfg s dp \<Longrightarrow> server_lost e \<Longrightarrow> simulates cfg dp e (server_unreachable cfg s)"
  using closed_not_open [of cfg s dp]
  by (auto simp: simulates_def server_unreachable_def enter_fallback_def hold_def
      split: option.splits intro: auth_spec.intros auth_spec.limit [where r = Critical])

lemma simulates_reject:
  "granted cfg s dp \<Longrightarrow> simulates cfg dp (AccessReject eap) (reject eap cfg s)"
  using closed_not_open [of cfg s dp]
  by (auto simp: simulates_def step_defs Let_def split: option.splits
      intro: auth_spec.intros auth_spec.limit [where r = AuthFail])

lemma simulates_no_supplicant:
  "granted cfg s dp \<Longrightarrow> simulates cfg dp (Timer TimerKind.TxPeriod) (no_supplicant cfg s)"
  using closed_not_open [of cfg s dp]
  by (auto simp: simulates_def step_defs Let_def split: option.splits
      intro: auth_spec.intros auth_spec.limit [where r = Guest])

lemma simulates_coa:
  "session_inv cfg s dp \<Longrightarrow> simulates cfg dp (CoaAuthorize a) (coa_authorize a s)"
  by (auto simp: simulates_def coa_authorize_def session_inv_def granted_def intro: auth_spec.intros)

lemma simulates_in_state: "session_inv cfg s dp \<Longrightarrow> simulates cfg dp e (step_in_state e cfg s)"
proof -
  assume inv: "session_inv cfg s dp"
  then have g: "granted cfg s dp" by (rule granted_of_inv)
  have "simulates cfg dp e (in_connecting e cfg s)" using g
    by (induction e cfg s rule: in_connecting.induct)
      (simp_all add: handler_simps simulates_no_supplicant, simp_all add: simulates_def auth_spec.stay)
  moreover have "simulates cfg dp e (in_auth_server e cfg s)" using g
    by (induction e cfg s rule: in_auth_server.induct)
      (simp_all add: handler_simps simulates_unreachable simulates_reject,
       simp_all add: simulates_def auth_spec.stay)
  moreover have "simulates cfg dp e (in_authenticating e cfg s)"
    by (induction e cfg s rule: in_authenticating.induct)
      (simp_all add: handler_simps, simp_all add: simulates_def auth_spec.stay)
  moreover have "simulates cfg dp e (in_authenticated e s)"
    by (induction e s rule: in_authenticated.induct)
      (simp_all add: handler_simps, simp_all add: simulates_def step_defs Let_def auth_spec.intros)
  moreover have "simulates cfg dp e (in_held e s)"
    by (induction e s rule: in_held.induct) (simp_all add: handler_simps)
  moreover have "simulates cfg dp e (in_fallback e s)"
    by (induction e s rule: in_fallback.induct) (simp_all add: handler_simps)
  ultimately show ?thesis
    by (cases "state s") (simp_all add: step_in_state_def handler_simps)
qed

lemma step_simulates: "session_inv cfg s dp \<Longrightarrow> simulates cfg dp e (step s e cfg)"
  by (cases e)
    (simp_all add: step_def handler_simps simulates_coa simulates_in_state)

section \<open>Reachable sessions\<close>

inductive timed_reach :: "PaeConfig \<Rightarrow> MacAddr \<Rightarrow> PortSession \<times> TimerKind set \<Rightarrow> bool"
  for cfg m where
  fresh: "timed_reach cfg m (session_new m, {})"
| event: "timed_reach cfg m sT \<Longrightarrow> expirable sT e \<Longrightarrow> timed_reach cfg m (fst (timed_step cfg sT e))"

lemma timed_reach_timers_ok: "timed_reach cfg m sT \<Longrightarrow> timers_ok cfg sT"
proof (induction rule: timed_reach.induct)
  case fresh
  then show ?case by (simp add: timers_ok_def session_new_def)
next
  case (event sT e)
  then show ?case using session_timers.step_inv by blast
qed

text \<open>When the awaited timer expires, the session moves on or spends one of its retries.\<close>

lemma awaited_moves_on:
  assumes "awaited cfg (state s) = Some k"
  shows "state (fst (step s (Timer k) cfg)) \<noteq> state s \<or>
    (state s = State.Connecting \<and> tx_count s < max_reauth_req cfg \<and>
      unat (tx_count (fst (step s (Timer k) cfg))) = Suc (unat (tx_count s)))"
proof -
  have "unat (tx_count s) + 1 < 4294967296" if "tx_count s < max_reauth_req cfg"
    using that unat_u32_less [of "max_reauth_req cfg"] unfolding word_less_nat_alt by linarith
  then have "unat (saturating_add_u32 (tx_count s) 1) = Suc (unat (tx_count s))"
    if "tx_count s < max_reauth_req cfg"
    using that saturating_add_u32_no_overflow [of "tx_count s" 1] by simp
  then show ?thesis
    using assms
    by (cases "(cfg, state s)" rule: awaited.cases)
      (auto simp: step_def step_in_state_def step_defs Let_def split: if_splits option.splits)
qed

section \<open>Properties of the session machine\<close>

text \<open>
  C3. Fail closed: after any sequence of events, a fresh session's dataplane is
  authorized with parameters \<open>a\<close> only if the sequence contains a grant of exactly
  \<open>a\<close> (an \<open>Access-Accept\<close> met while a request was outstanding, or a CoA change met
  while authenticated), and the port has held \<open>a\<close> ever since that event.
\<close>

theorem authorized_only_by_grant:
  assumes "dataplane_of (run_session cfg (session_new m) es) = Authorized a"
  shows "\<exists>es1 e es2. es = es1 @ e # es2 \<and>
    grants (fst (run_session cfg (session_new m) es1)) e a \<and>
    (\<forall>n \<le> length es2.
       dataplane_of (run_session cfg (session_new m) (es1 @ e # take n es2)) = Authorized a)"
  using assms by (rule authorized_traces_to_grant)

definition identity_response :: InboundEap where
  "identity_response =
     \<lparr>in_code = EapCode.Response, in_identifier = 1, in_eap_type = Some EapType.Identity,
      in_packet = [2, 1, 0, 6, 1, 0x61]\<rparr>"

definition login :: "Authorization \<Rightarrow> Event list" where
  "login a = [Enable, EapFromSupplicant identity_response, AccessAccept a None]"

lemma login_run:
  "run_session cfg (session_new m) (login a) =
     (\<lparr>mac = m, state = State.Authenticated, auth_kind = Dot1x, eap_id = 1, tx_count = 1,
       authz = Some a, accounting_open = True\<rparr>,
      [SetAuthorization Unauthorized, TxEapToSupplicant (request_identity 1),
       ArmTimer TimerKind.TxPeriod, CancelTimer TimerKind.TxPeriod,
       ToAuthServer [2, 1, 0, 6, 1, 0x61], ArmTimer TimerKind.ServerTimeout, CancelAllTimers,
       SetAuthorization (Authorized a), Accounting AcctTrigger.Start]
      @ (if reauth_enabled cfg then [ArmTimer TimerKind.Reauth] else [])
      @ (if session_timeout a \<noteq> None then [ArmTimer TimerKind.SessionTimeout] else []))"
  by (simp add: login_def identity_response_def step_def step_in_state_def step_defs session_new_def)

lemma login_dataplane: "dataplane_of (run_session cfg (session_new m) (login a)) = Authorized a"
  by (simp add: login_run dataplane_of_def)

theorem authorized_only_by_grant_witness:
  "\<exists>es1 e es2. login authorization_default = es1 @ e # es2 \<and>
    grants (fst (run_session pae_config_default (session_new (0, 0, 0, 0, 0, 1)) es1)) e
      authorization_default \<and>
    (\<forall>n \<le> length es2.
       dataplane_of (run_session pae_config_default (session_new (0, 0, 0, 0, 0, 1))
         (es1 @ e # take n es2)) = Authorized authorization_default)"
  by (rule authorized_only_by_grant [OF login_dataplane])

text \<open>
  The session invariant holds after every run: an open accounting session, the
  retained authorization and the dataplane agree; \<open>New\<close> and \<open>Held\<close> are closed; a
  fallback state holds exactly the VLAN configured for its reason.
\<close>

theorem session_run_invariant:
  "session_inv cfg (fst (run_session cfg (session_new m) es))
     (dataplane_of (run_session cfg (session_new m) es))"
  by (rule run_session_inv [OF session_new_inv])

text \<open>
  With no fallback VLAN configured (the default), the port is never anywhere but
  closed or authorized: after every run the dataplane is determined by the retained
  authorization, so outages, rejects and timeouts cannot open it.
\<close>

theorem no_fallback_fail_closed:
  assumes "guest_vlan cfg = None" "auth_fail_vlan cfg = None" "critical_vlan cfg = None"
  shows "dataplane_of (run_session cfg (session_new m) es) =
    (case authz (fst (run_session cfg (session_new m) es)) of
       Some a \<Rightarrow> Authorized a | None \<Rightarrow> Unauthorized)"
proof -
  have "fallback_vlan cfg r = None" for r using assms by (cases r) auto
  then show ?thesis
    using run_session_inv [OF session_new_inv, of cfg m es]
    by (auto simp: session_inv_def granted_def split: if_splits)
qed

theorem no_fallback_fail_closed_witness:
  "dataplane_of (run_session pae_config_default (session_new (0, 0, 0, 0, 0, 1))
      (login authorization_default @ [LinkDown])) = Unauthorized"
  by (subst no_fallback_fail_closed)
    (simp_all add: pae_config_default_def login_def identity_response_def step_def
      step_in_state_def step_defs session_new_def)



text \<open>
  C15. Accounting alternates: in every run that is enabled once, Starts and Stops
  alternate, beginning with a Start, and the last one agrees with \<open>accounting_open\<close>.
\<close>

theorem accounting_alternates:
  assumes "Enable \<notin> set es"
  shows "foldl acct_monitor (Some False) (snd (run_session cfg (session_new m) (Enable # es))) =
    Some (accounting_open (fst (run_session cfg (session_new m) (Enable # es))))"
proof (rule session_accounting.run_inv)
  show "Some False = Some (accounting_open (session_new m))" by (simp add: session_new_def)
  have "session_accounting.admissible cfg (fst (step (session_new m) Enable cfg)) es"
    using assms by (intro session_accounting.admissible_if_all_allowed) auto
  then show "session_accounting.admissible cfg (session_new m) (Enable # es)"
    by (simp add: session_new_def)
qed

theorem accounting_alternates_witness:
  "foldl acct_monitor (Some False)
     (snd (run_session pae_config_default (session_new (0, 0, 0, 0, 0, 1))
        (login authorization_default @ [EapolLogoff]))) = Some False"
  using accounting_alternates
    [of "tl (login authorization_default) @ [EapolLogoff]" pae_config_default "(0, 0, 0, 0, 0, 1)"]
  by (simp add: login_def identity_response_def step_def step_in_state_def step_defs session_new_def)

text \<open>
  A repeated \<open>Enable\<close> forgets an open accounting session: from a session with
  accounting open, \<open>Enable\<close> followed by a new login emits a second Start with no Stop
  in between.
\<close>

theorem enable_drops_accounting_stop:
  assumes "accounting_open s"
  shows "foldl acct_monitor (Some True)
    (snd (run_session cfg s
      [Enable, EapFromSupplicant identity_response, AccessAccept a eap])) = None"
  using assms
  by (simp add: identity_response_def step_def step_in_state_def step_defs split: option.splits)

theorem enable_drops_accounting_stop_witness:
  "foldl acct_monitor (Some True)
    (snd (run_session pae_config_default
      (fst (run_session pae_config_default (session_new (0, 0, 0, 0, 0, 1)) (login authorization_default)))
      [Enable, EapFromSupplicant identity_response, AccessAccept authorization_default None])) = None"
  by (rule enable_drops_accounting_stop) (simp add: login_run)

text \<open>
  No session gets stuck: in every reachable session, the timer that leaves the
  current waiting state is armed, and its expiry leaves the state or spends one of
  the remaining identity retries; a torn-down session has no timer left.
\<close>

theorem no_stuck_session:
  assumes "timed_reach cfg m (s, T)"
  shows "(\<forall>k. awaited cfg (state s) = Some k \<longrightarrow>
      k \<in> T \<and>
      (state (fst (step s (Timer k) cfg)) \<noteq> state s \<or>
       (state s = State.Connecting \<and> tx_count s < max_reauth_req cfg \<and>
         unat (tx_count (fst (step s (Timer k) cfg))) = Suc (unat (tx_count s))))) \<and>
    (state s = State.New \<longrightarrow> T = {})"
  using timed_reach_timers_ok [OF assms] awaited_moves_on [of cfg s]
  by (auto simp: timers_ok_def)

lemma connecting_reachable:
  "timed_reach cfg m (fst (step (session_new m) Enable cfg), {TimerKind.TxPeriod})"
  using timed_reach.event [OF timed_reach.fresh, where e = Enable]
  by (simp add: expirable_def timed_step_def step_def step_defs)

theorem no_stuck_session_witness:
  "TimerKind.TxPeriod \<in> {TimerKind.TxPeriod} \<and>
   unat (tx_count (fst (step (fst (step (session_new (0, 0, 0, 0, 0, 1)) Enable pae_config_default))
     (Timer TimerKind.TxPeriod) pae_config_default))) = 2"
  using no_stuck_session [OF connecting_reachable, of pae_config_default "(0, 0, 0, 0, 0, 1)"]
  by (simp add: step_def step_in_state_def step_defs session_new_def pae_config_default_def
      saturating_add_u32_def)





text \<open>
  A \<open>Session-Timeout\<close> that expires during a re-authentication is lost: the
  expiry is ignored in the connecting phase, an unreachable server then returns the
  session to the authorized state, and no \<open>SessionTimeout\<close> timer is armed any more,
  although no authorization was renewed and none was withdrawn.
\<close>

theorem session_timeout_lost_in_reauth:
  assumes "state s = State.Authenticated" "accounting_open s"
  shows "let ((s1, T1), fx) = run_machine (timed_step cfg) (s, T)
      [EapolStart, Timer TimerKind.SessionTimeout, EapFromSupplicant identity_response,
       ServerUnreachable]
    in state s1 = State.Authenticated \<and> accounting_open s1 \<and> authz s1 = authz s \<and>
       TimerKind.SessionTimeout \<notin> T1 \<and> foldl dataplane dp fx = dp"
  using assms
  by (simp add: timed_step_def identity_response_def step_def step_in_state_def step_defs Let_def)

theorem session_timeout_lost_in_reauth_witness:
  "let ((s1, T1), fx) = run_machine (timed_step (pae_config_default\<lparr>reauth_enabled := False\<rparr>))
      (fst (run_session pae_config_default (session_new (0, 0, 0, 0, 0, 1))
          (login (authorization_default\<lparr>session_timeout := Some 60\<rparr>))), {TimerKind.SessionTimeout})
      [EapolStart, Timer TimerKind.SessionTimeout, EapFromSupplicant identity_response,
       ServerUnreachable]
    in state s1 = State.Authenticated \<and> accounting_open s1 \<and>
       authz s1 = Some (authorization_default\<lparr>session_timeout := Some 60\<rparr>) \<and>
       TimerKind.SessionTimeout \<notin> T1 \<and>
       foldl dataplane (Authorized (authorization_default\<lparr>session_timeout := Some 60\<rparr>)) fx =
         Authorized (authorization_default\<lparr>session_timeout := Some 60\<rparr>)"
  using session_timeout_lost_in_reauth
    [of "fst (run_session pae_config_default (session_new (0, 0, 0, 0, 0, 1))
          (login (authorization_default\<lparr>session_timeout := Some 60\<rparr>)))"]
  by (simp add: login_run)

end
