(* ===== verification/Pae_Port.thy ===== *)
theory Pae_Port
  imports Pae_Invariants
begin

text \<open>
  The per-port host-mode logic (\<open>crates/pae/src/port.rs\<close>): routing an event to
  the session of its MAC, admitting new MACs as the host mode allows, tearing
  every session down on link loss and pruning dead sessions. The port invariant
  bounds the sessions by the host mode and ties every dataplane target to a live
  session.
\<close>

section \<open>The port\<close>

record DirectedEffect =
  de_mac :: "MacAddr option"
  de_effect :: Effect

record PortPae =
  cfg :: PaeConfig
  sessions :: "PortSession list"

definition port_new :: "PaeConfig \<Rightarrow> PortPae" where
  "port_new c = \<lparr>cfg = c, sessions = []\<rparr>"

definition port_enable :: "PortPae \<Rightarrow> DirectedEffect list" where
  "port_enable p = [\<lparr>de_mac = None, de_effect = SetAuthorization Unauthorized\<rparr>]"

definition port_session :: "PortPae \<Rightarrow> MacAddr \<Rightarrow> PortSession option" where
  "port_session p m = List.find (\<lambda>s. mac s = m) (sessions p)"

definition active_sessions :: "PortPae \<Rightarrow> nat" where
  "active_sessions p = length (filter (\<lambda>s. state s \<noteq> State.New) (sessions p))"

fun is_set_authorization :: "Effect \<Rightarrow> bool" where
  "is_set_authorization (SetAuthorization _) = True"
| "is_set_authorization _ = False"

definition decorate :: "HostMode \<Rightarrow> MacAddr \<Rightarrow> Effect list \<Rightarrow> DirectedEffect list" where
  "decorate mode m fx =
     map (\<lambda>effect.
       let port_wide = (mode = MultiHost \<and> is_set_authorization effect)
       in \<lparr>de_mac = (if port_wide then None else Some m), de_effect = effect\<rparr>) fx"

definition can_admit :: "PortPae \<Rightarrow> bool" where
  "can_admit p =
     (let active = active_sessions p
      in case host_mode (cfg p) of
           MultiAuth \<Rightarrow> True
         | SingleHost \<Rightarrow> active = 0
         | MultiHost \<Rightarrow> active = 0
         | MultiDomain \<Rightarrow> active < 2)"

definition prune :: "PortPae \<Rightarrow> PortPae" where
  "prune p = p\<lparr>sessions := filter (\<lambda>s. state s \<noteq> State.New) (sessions p)\<rparr>"

text \<open>\<open>admit\<close>: bootstrap a session for a new MAC, then apply the triggering event.\<close>

definition admit :: "PortPae \<Rightarrow> MacAddr \<Rightarrow> Event \<Rightarrow> PortPae \<times> DirectedEffect list" where
  "admit p m event =
     (let (s1, fx) = step (session_new m) Enable (cfg p);
          (s2, fx2) =
            (if event = Enable \<or> event = EapolStart then (s1, fx)
             else (let (s', more_fx) = step s1 event (cfg p) in (s', fx @ more_fx)))
      in (p\<lparr>sessions := sessions p @ [s2]\<rparr>, decorate (host_mode (cfg p)) m fx2))"

text \<open>Step the first session of a MAC in place (\<open>iter_mut().find\<close>).\<close>

fun step_first ::
    "MacAddr \<Rightarrow> Event \<Rightarrow> PaeConfig \<Rightarrow> PortSession list \<Rightarrow> (PortSession list \<times> Effect list) option" where
  "step_first m e c [] = None"
| "step_first m e c (s # ss) =
     (if mac s = m then (let (s1, fx) = step s e c in Some (s1 # ss, fx))
      else map_option (\<lambda>(ss1, fx). (s # ss1, fx)) (step_first m e c ss))"

definition handle :: "PortPae \<Rightarrow> MacAddr \<Rightarrow> Event \<Rightarrow> PortPae \<times> DirectedEffect list" where
  "handle p m event =
     (let (p1, directed) =
        (case step_first m event (cfg p) (sessions p) of
           Some (ss, fx) \<Rightarrow> (p\<lparr>sessions := ss\<rparr>, decorate (host_mode (cfg p)) m fx)
         | None \<Rightarrow> if can_admit p then admit p m event else (p, []))
      in (prune p1, directed))"

fun link_down_loop :: "PaeConfig \<Rightarrow> PortSession list \<Rightarrow> PortSession list \<times> DirectedEffect list" where
  "link_down_loop c [] = ([], [])"
| "link_down_loop c (s # ss) =
     (let (s1, fx) = step s LinkDown c; (ss1, out) = link_down_loop c ss
      in (s1 # ss1, map (\<lambda>effect. \<lparr>de_mac = Some (mac s), de_effect = effect\<rparr>) fx @ out))"

definition link_down :: "PortPae \<Rightarrow> PortPae \<times> DirectedEffect list" where
  "link_down p =
     (let (ss, out) = link_down_loop (cfg p) (sessions p)
      in (prune (p\<lparr>sessions := ss\<rparr>),
          out @ [\<lparr>de_mac = None, de_effect = SetAuthorization Unauthorized\<rparr>]))"

section \<open>Basic facts\<close>

lemma handle_cfg [simp]: "cfg (fst (handle p m e)) = cfg p"
  by (simp add: handle_def admit_def prune_def Let_def split: option.splits prod.splits)

lemma link_down_cfg [simp]: "cfg (fst (link_down p)) = cfg p"
  by (simp add: link_down_def prune_def Let_def split: prod.splits)

lemma step_first_None: "step_first m e c ss = None \<longleftrightarrow> m \<notin> mac ` set ss"
  by (induction ss) (auto simp: Let_def split: prod.splits)

lemma step_first_Some:
  assumes "step_first m e c ss = Some (ss1, fx)"
  shows "\<exists>xs s ys. ss = xs @ s # ys \<and> mac s = m \<and> m \<notin> mac ` set xs \<and>
    ss1 = xs @ fst (step s e c) # ys \<and> fx = snd (step s e c)"
  using assms
proof (induction ss arbitrary: ss1)
  case (Cons a ss)
  show ?case
  proof (cases "mac a = m")
    case True
    with Cons.prems show ?thesis
      by (intro exI [of _ "[]"] exI [of _ a] exI [of _ ss]) (simp add: Let_def split: prod.splits)
  next
    case False
    with Cons.prems obtain ss2 where r: "step_first m e c ss = Some (ss2, fx)" and ss1: "ss1 = a # ss2"
      by auto
    from Cons.IH [OF r] obtain xs s ys where "ss = xs @ s # ys" "mac s = m" "m \<notin> mac ` set xs"
      "ss2 = xs @ fst (step s e c) # ys" "fx = snd (step s e c)" by blast
    with False ss1 show ?thesis
      by (intro exI [of _ "a # xs"] exI [of _ s] exI [of _ ys]) auto
  qed
qed simp

lemma handle_known:
  assumes "step_first m e (cfg p) (sessions p) = Some (ss, fx)"
  shows "handle p m e = (prune (p\<lparr>sessions := ss\<rparr>), decorate (host_mode (cfg p)) m fx)"
  using assms by (simp add: handle_def)

lemma handle_unknown:
  assumes "m \<notin> mac ` set (sessions p)"
  shows "handle p m e =
    (if can_admit p then (prune (fst (admit p m e)), snd (admit p m e)) else (prune p, []))"
proof -
  have "step_first m e (cfg p) (sessions p) = None" using assms by (simp add: step_first_None)
  then show ?thesis by (simp add: handle_def case_prod_unfold Let_def)
qed

lemma active_all: "(\<forall>s \<in> set (sessions p). state s \<noteq> State.New) \<Longrightarrow> active_sessions p = length (sessions p)"
  by (simp add: active_sessions_def filter_id_conv)

lemma state_step_LinkDown [simp]: "state (fst (step s LinkDown c)) = State.New"
  by (simp add: step_def teardown_def)

lemma link_down_loop_spec:
  "link_down_loop c ss =
     (map (\<lambda>s. fst (step s LinkDown c)) ss,
      concat (map (\<lambda>s. map (\<lambda>effect. \<lparr>de_mac = Some (mac s), de_effect = effect\<rparr>)
        (snd (step s LinkDown c))) ss))"
  by (induction ss) (simp_all add: Let_def case_prod_unfold)

lemma link_down_sessions [simp]: "sessions (fst (link_down p)) = []"
  by (simp add: link_down_def link_down_loop_spec prune_def Let_def filter_empty_conv)

section \<open>The port invariant\<close>

text \<open>What the dataplane holds for each target (\<open>None\<close> is the whole port).\<close>

type_synonym view = "MacAddr option \<Rightarrow> PortAuthorization"

definition observe_directed :: "view \<Rightarrow> DirectedEffect \<Rightarrow> view" where
  "observe_directed v d = v(de_mac d := dataplane (v (de_mac d)) (de_effect d))"

definition closed_view :: view where
  "closed_view = (\<lambda>_. Unauthorized)"

definition target :: "PaeConfig \<Rightarrow> MacAddr \<Rightarrow> MacAddr option" where
  "target c m = (if host_mode c = MultiHost then None else Some m)"

definition within_capacity :: "PortPae \<Rightarrow> bool" where
  "within_capacity p \<longleftrightarrow>
     (case max_sessions (host_mode (cfg p)) of None \<Rightarrow> True | Some n \<Rightarrow> length (sessions p) \<le> n)"

definition port_wf :: "PortPae \<Rightarrow> bool" where
  "port_wf p \<longleftrightarrow>
     distinct (map mac (sessions p)) \<and> (\<forall>s \<in> set (sessions p). state s \<noteq> State.New) \<and>
     within_capacity p"

definition port_inv :: "PortPae \<Rightarrow> view \<Rightarrow> bool" where
  "port_inv p v \<longleftrightarrow>
     port_wf p \<and>
     (\<forall>s \<in> set (sessions p). session_inv (cfg p) s (v (target (cfg p) (mac s)))) \<and>
     (\<forall>t. t \<notin> (\<lambda>s. target (cfg p) (mac s)) ` set (sessions p) \<longrightarrow> v t = Unauthorized)"

lemma observe_decorate:
  "foldl observe_directed v (decorate (host_mode c) m fx) =
     v(target c m := foldl dataplane (v (target c m)) fx)"
proof (induction fx arbitrary: v)
  case (Cons x fx)
  have split: "decorate (host_mode c) m (x # fx) =
      hd (decorate (host_mode c) m [x]) # decorate (host_mode c) m fx"
    by (simp add: decorate_def)
  have "observe_directed v (hd (decorate (host_mode c) m [x])) =
      v(target c m := dataplane (v (target c m)) x)"
    by (cases x) (auto simp: decorate_def observe_directed_def target_def fun_eq_iff)
  then show ?case by (simp only: split foldl_Cons Cons.IH) (auto simp: fun_eq_iff)
qed (simp add: decorate_def)

lemma find_session_iff:
  "distinct (map mac ss) \<Longrightarrow> List.find (\<lambda>s. mac s = m) ss = Some s \<longleftrightarrow> s \<in> set ss \<and> mac s = m"
  by (induction ss) (auto simp: image_iff)

lemma port_session_iff:
  "port_wf p \<Longrightarrow> port_session p m = Some s \<longleftrightarrow> s \<in> set (sessions p) \<and> mac s = m"
  by (simp add: port_session_def port_wf_def find_session_iff)

text \<open>
  The invariant before pruning: as \<open>port_inv\<close>, but sessions that were just torn
  down to \<open>New\<close> are still in the list.
\<close>

definition port_inv0 :: "PortPae \<Rightarrow> view \<Rightarrow> bool" where
  "port_inv0 p v \<longleftrightarrow>
     distinct (map mac (sessions p)) \<and> within_capacity p \<and>
     (\<forall>s \<in> set (sessions p). session_inv (cfg p) s (v (target (cfg p) (mac s)))) \<and>
     (\<forall>t. t \<notin> (\<lambda>s. target (cfg p) (mac s)) ` set (sessions p) \<longrightarrow> v t = Unauthorized)"

lemma prune_establishes: "port_inv0 p v \<Longrightarrow> port_inv (prune p) v"
proof -
  assume inv: "port_inv0 p v"
  have "v t = Unauthorized"
    if "t \<notin> (\<lambda>s. target (cfg p) (mac s)) ` {s \<in> set (sessions p). state s \<noteq> State.New}" for t
  proof (cases "t \<in> (\<lambda>s. target (cfg p) (mac s)) ` set (sessions p)")
    case True
    then obtain s where "s \<in> set (sessions p)" "t = target (cfg p) (mac s)" by blast
    moreover from this that have "state s = State.New" by blast
    ultimately show ?thesis using inv by (auto simp: port_inv0_def session_inv_def)
  qed (use inv in \<open>simp add: port_inv0_def\<close>)
  moreover have "within_capacity (prune p)"
    using inv by (auto simp: port_inv0_def within_capacity_def prune_def split: option.splits
        intro: order_trans [OF length_filter_le])
  ultimately show ?thesis
    using inv by (auto simp: port_inv0_def port_inv_def port_wf_def prune_def distinct_map_filter)
qed

lemma target_distinct:
  assumes "distinct (map mac (xs @ s # ys))" "within_capacity p" "sessions p = xs @ s # ys"
    and "s' \<in> set xs \<union> set ys"
  shows "target (cfg p) (mac s') \<noteq> target (cfg p) (mac s)"
proof (cases "host_mode (cfg p) = MultiHost")
  case True
  with assms(2,3) have "xs = [] \<and> ys = []" by (simp add: within_capacity_def max_sessions_def)
  with assms(4) show ?thesis by simp
next
  case False
  with assms(1,4) show ?thesis by (auto simp: target_def) (metis image_eqI)+
qed

lemma step_session_establishes:
  assumes inv: "port_inv p v" and ss: "sessions p = xs @ s # ys"
    and s1: "mac s1 = mac s" "session_inv (cfg p) s1 d"
  shows "port_inv0 (p\<lparr>sessions := xs @ s1 # ys\<rparr>) (v(target (cfg p) (mac s) := d))"
proof -
  have dist: "distinct (map mac (xs @ s # ys))" and cap: "within_capacity p"
    using inv ss by (simp_all add: port_inv_def port_wf_def)
  have other: "target (cfg p) (mac s') \<noteq> target (cfg p) (mac s)" if "s' \<in> set xs \<union> set ys" for s'
    using target_distinct [OF dist cap ss that] .
  have "within_capacity (p\<lparr>sessions := xs @ s1 # ys\<rparr>)"
    using cap ss by (simp add: within_capacity_def split: option.splits)
  moreover have "session_inv (cfg p) s' ((v(target (cfg p) (mac s) := d)) (target (cfg p) (mac s')))"
    if "s' \<in> set (xs @ s1 # ys)" for s'
    using that inv ss s1 other [of s'] by (auto simp: port_inv_def)
  ultimately show ?thesis
    using inv dist s1 ss by (auto simp: port_inv0_def port_inv_def)
qed

lemma can_admit_wf:
  assumes "port_wf p" "can_admit p"
  shows "within_capacity (p\<lparr>sessions := sessions p @ [s]\<rparr>)"
    and "host_mode (cfg p) = MultiHost \<Longrightarrow> sessions p = []"
  using assms active_all [of p]
  by (auto simp: can_admit_def port_wf_def within_capacity_def max_sessions_def Let_def
      split: HostMode.splits)

lemma admit_session:
  "admit p m e =
     (let out = (if e = Enable \<or> e = EapolStart then step (session_new m) Enable (cfg p)
                 else run_session (cfg p) (session_new m) [Enable, e])
      in (p\<lparr>sessions := sessions p @ [fst out]\<rparr>, decorate (host_mode (cfg p)) m (snd out)))"
  by (simp add: admit_def Let_def case_prod_unfold)

lemma admit_establishes:
  assumes inv: "port_inv p v" and adm: "can_admit p" and m: "m \<notin> mac ` set (sessions p)"
  shows "port_inv0 (fst (admit p m e)) (foldl observe_directed v (snd (admit p m e)))"
proof -
  define out where "out = (if e = Enable \<or> e = EapolStart then step (session_new m) Enable (cfg p)
    else run_session (cfg p) (session_new m) [Enable, e])"
  have wf: "port_wf p" using inv by (simp add: port_inv_def)
  have fresh: "target (cfg p) m \<notin> (\<lambda>s. target (cfg p) (mac s)) ` set (sessions p)"
    using m can_admit_wf(2) [OF wf adm] by (auto simp: target_def image_iff)
  with inv have "v (target (cfg p) m) = Unauthorized" by (simp add: port_inv_def)
  moreover have "session_inv (cfg p) (fst out) (foldl dataplane Unauthorized (snd out))"
    using session_dataplane.run_inv [OF session_new_inv [of "cfg p" m], of "[Enable]"]
      session_dataplane.run_inv [OF session_new_inv [of "cfg p" m], of "[Enable, e]"]
      session_dataplane.admissible_if_all_allowed
    by (cases "e = Enable \<or> e = EapolStart") (simp_all add: out_def Let_def case_prod_unfold)
  moreover have "mac (fst out) = m"
    by (simp add: out_def Let_def case_prod_unfold session_new_def)
  ultimately show ?thesis
    using inv m fresh can_admit_wf(1) [OF wf adm, of "fst out"]
    by (auto simp: admit_session out_def [symmetric] Let_def observe_decorate port_inv0_def port_inv_def
        port_wf_def) (metis image_eqI)
qed

lemma handle_port_inv:
  assumes inv: "port_inv p v"
  shows "port_inv (fst (handle p m e)) (foldl observe_directed v (snd (handle p m e)))"
proof (cases "step_first m e (cfg p) (sessions p)")
  case None
  then have "m \<notin> mac ` set (sessions p)" by (simp add: step_first_None)
  then have "can_admit p \<Longrightarrow>
      port_inv (prune (fst (admit p m e))) (foldl observe_directed v (snd (admit p m e)))"
    using prune_establishes [OF admit_establishes [OF inv]] by blast
  moreover have "port_inv (prune p) v"
    using inv by (intro prune_establishes) (simp add: port_inv0_def port_inv_def port_wf_def)
  ultimately show ?thesis using None by (simp add: handle_unknown step_first_None)
next
  case (Some r)
  obtain ss1 fx where r: "r = (ss1, fx)" by fastforce
  note known = handle_known [OF Some [unfolded r]]
  from step_first_Some [OF Some [unfolded r]] obtain xs s ys where
    ss: "sessions p = xs @ s # ys" "mac s = m" "ss1 = xs @ fst (step s e (cfg p)) # ys"
      "fx = snd (step s e (cfg p))" by blast
  have "session_inv (cfg p) s (v (target (cfg p) m))"
    using inv ss by (simp add: port_inv_def)
  then have "session_inv (cfg p) (fst (step s e (cfg p))) (foldl dataplane (v (target (cfg p) m)) fx)"
    using step_session_inv by (simp add: inv_after_def ss(4))
  from step_session_establishes [OF inv ss(1) _ this] show ?thesis
    unfolding known by (simp add: observe_decorate ss prune_establishes)
qed

lemma observe_teardown:
  assumes "state s \<noteq> State.New"
  shows "foldl observe_directed v
      (map (\<lambda>effect. \<lparr>de_mac = Some m, de_effect = effect\<rparr>) (snd (step s LinkDown c))) =
    v(Some m := Unauthorized)"
  using assms by (auto simp: step_def teardown_def observe_directed_def)

lemma observe_link_down_loop:
  assumes "\<forall>s \<in> set ss. state s \<noteq> State.New"
  shows "foldl observe_directed v (snd (link_down_loop c ss)) =
    (\<lambda>t. if t \<in> (\<lambda>s. Some (mac s)) ` set ss then Unauthorized else v t)"
  using assms
proof (induction ss arbitrary: v)
  case (Cons s ss)
  then show ?case by (auto simp: Let_def case_prod_unfold observe_teardown fun_eq_iff)
qed simp

lemma link_down_closes:
  assumes "port_inv p v"
  shows "foldl observe_directed v (snd (link_down p)) = closed_view"
proof -
  have "snd (link_down p) = snd (link_down_loop (cfg p) (sessions p))
      @ [\<lparr>de_mac = None, de_effect = SetAuthorization Unauthorized\<rparr>]"
    by (simp add: link_down_def case_prod_unfold Let_def)
  moreover have "v (Some m) = Unauthorized" if "m \<notin> mac ` set (sessions p)" for m
  proof -
    have "Some m \<notin> (\<lambda>s. target (cfg p) (mac s)) ` set (sessions p)"
      using that by (auto simp: target_def split: if_splits)
    with assms show ?thesis unfolding port_inv_def by blast
  qed
  ultimately show ?thesis
    using assms
    by (auto simp: observe_link_down_loop observe_directed_def closed_view_def port_inv_def port_wf_def
        fun_eq_iff image_iff)
qed

lemma port_inv_closed: "port_inv (port_new c) closed_view"
  by (simp add: port_inv_def port_wf_def port_new_def within_capacity_def closed_view_def
      split: option.splits)

lemma link_down_port_inv:
  "port_inv p v \<Longrightarrow> port_inv (fst (link_down p)) (foldl observe_directed v (snd (link_down p)))"
  by (simp add: link_down_closes) (simp add: port_inv_def port_wf_def within_capacity_def
      closed_view_def split: option.splits)

section \<open>Runs of a port\<close>

datatype PortInput = Frame MacAddr Event | LinkLost

fun port_step :: "PortPae \<Rightarrow> PortInput \<Rightarrow> PortPae \<times> DirectedEffect list" where
  "port_step p (Frame m e) = handle p m e"
| "port_step p LinkLost = link_down p"

abbreviation run_port_pae :: "PortPae \<Rightarrow> PortInput list \<Rightarrow> PortPae \<times> DirectedEffect list" where
  "run_port_pae \<equiv> run_machine port_step"

interpretation port_dataplane: monitored_machine port_step observe_directed port_inv "\<lambda>_ _. True"
proof unfold_locales
  show "port_inv (fst (port_step p i)) (foldl observe_directed v (snd (port_step p i)))"
    if "port_inv p v" for p v i
    using that by (cases i) (simp_all add: handle_port_inv link_down_port_inv)
qed


lemma run_port_inv:
  "port_inv (fst (run_port_pae (port_new c) is))
     (foldl observe_directed closed_view (snd (run_port_pae (port_new c) is)))"
  using port_dataplane.run_inv [OF port_inv_closed] port_dataplane.admissible_if_all_allowed by simp

lemma run_port_cfg [simp]: "cfg (fst (run_port_pae p is)) = cfg p"
proof (induction "is" arbitrary: p)
  case (Cons i "is")
  then show ?case by (cases i) (simp_all add: Let_def case_prod_unfold)
qed simp

lemma cfg_port_new [simp]: "cfg (port_new c) = c"
  by (simp add: port_new_def)

lemma handle_frame:
  assumes "port_wf p" "m' \<noteq> m"
  shows "port_session (fst (handle p m e)) m' = port_session p m'"
proof (cases "step_first m e (cfg p) (sessions p)")
  case None
  then have m: "m \<notin> mac ` set (sessions p)" by (simp add: step_first_None)
  have keep: "filter (\<lambda>s. state s \<noteq> State.New) (sessions p) = sessions p"
    using assms by (simp add: port_wf_def filter_id_conv)
  have new: "mac (session_new m) = m" by (simp add: session_new_def)
  have "port_session (prune (fst (admit p m e))) m' = port_session p m'"
    using assms(2) keep
    by (auto simp: admit_session prune_def port_session_def find_append Let_def case_prod_unfold new
        split: option.splits)
  moreover have "port_session (prune p) m' = port_session p m'"
    by (simp add: prune_def port_session_def keep)
  ultimately show ?thesis by (simp add: handle_unknown m)
next
  case (Some r)
  obtain ss1 fx where r: "r = (ss1, fx)" by fastforce
  from step_first_Some [OF Some [unfolded r]] obtain xs s ys where
    ss: "sessions p = xs @ s # ys" "mac s = m" "ss1 = xs @ fst (step s e (cfg p)) # ys" by blast
  have keep: "filter (\<lambda>s. state s \<noteq> State.New) xs = xs" "filter (\<lambda>s. state s \<noteq> State.New) ys = ys"
    using assms ss by (simp_all add: port_wf_def filter_id_conv)
  show ?thesis
    using assms(2) ss
    by (simp add: handle_known [OF Some [unfolded r]] prune_def port_session_def find_append keep
        split: option.splits)
qed

lemma decorate_target:
  "d \<in> set (decorate mode m fx) \<Longrightarrow>
     de_mac d = Some m \<or> (mode = MultiHost \<and> de_mac d = None \<and> is_set_authorization (de_effect d))"
  by (auto simp: decorate_def Let_def split: if_splits)

lemma handle_effects:
  "\<exists>fx. snd (handle p m e) = decorate (host_mode (cfg p)) m fx"
proof (cases "step_first m e (cfg p) (sessions p)")
  case None
  then have "m \<notin> mac ` set (sessions p)" by (simp add: step_first_None)
  moreover have "decorate (host_mode (cfg p)) m [] = []" by (simp add: decorate_def)
  ultimately show ?thesis by (auto simp: handle_unknown admit_session Let_def intro: sym)
next
  case (Some r)
  then show ?thesis by (cases r) (auto simp: handle_known)
qed


text \<open>The effects of \<open>handle\<close> are those of one session step, after the bootstrap of a new session.\<close>

lemma decorate_effects [simp]: "map de_effect (decorate mode m fx) = fx"
  by (simp add: decorate_def Let_def o_def)

lemma handle_step_effects:
  "\<exists>s fx. map de_effect (snd (handle p m e)) \<in> {[], snd (step s e (cfg p)), fx, fx @ snd (step s e (cfg p))} \<and>
     fx = snd (step (session_new m) Enable (cfg p))"
proof (cases "step_first m e (cfg p) (sessions p)")
  case None
  then have "m \<notin> mac ` set (sessions p)" by (simp add: step_first_None)
  then show ?thesis
    by (auto simp: handle_unknown admit_session Let_def case_prod_unfold)
next
  case (Some r)
  obtain ss fx where r: "r = (ss, fx)" by fastforce
  from step_first_Some [OF Some [unfolded r]] obtain s where "fx = snd (step s e (cfg p))" by blast
  then show ?thesis by (auto simp: handle_known [OF Some [unfolded r]])
qed

lemma stops_of_teardown:
  assumes "state s \<noteq> State.New"
  shows "filter (\<lambda>x. \<exists>c. x = Accounting (AcctTrigger.Stop c)) (snd (step s LinkDown c0)) =
    (if accounting_open s then [Accounting (AcctTrigger.Stop PortLinkDown)] else [])"
  using assms by (simp add: step_def teardown_def)

section \<open>Properties\<close>

text \<open>
  C7. An authorized target is backed by a live session: after any sequence of
  frames and link losses on a new port, every dataplane target that holds
  \<open>Authorized a\<close> belongs to a session on the port whose accounting is open and whose
  retained authorization is \<open>a\<close>.
\<close>

theorem port_authorized_has_session:
  assumes "foldl observe_directed closed_view (snd (run_port_pae (port_new c) is)) t = Authorized a"
  shows "\<exists>s \<in> set (sessions (fst (run_port_pae (port_new c) is))).
    target c (mac s) = t \<and> accounting_open s \<and> authz s = Some a \<and> state s \<noteq> State.New"
proof -
  let ?p = "fst (run_port_pae (port_new c) is)"
  let ?v = "foldl observe_directed closed_view (snd (run_port_pae (port_new c) is))"
  have inv: "port_inv ?p ?v" by (rule run_port_inv)
  with assms have "t \<in> (\<lambda>s. target c (mac s)) ` set (sessions ?p)"
    by (fastforce simp: port_inv_def)
  then obtain s where s: "s \<in> set (sessions ?p)" "target c (mac s) = t" by blast
  with inv have "session_inv c s (?v t)" by (auto simp: port_inv_def)
  with assms have "granted c s (Authorized a)" by (simp add: granted_of_inv)
  with s inv show ?thesis
    by (auto simp: granted_def port_inv_def port_wf_def split: if_splits intro!: bexI [of _ s])
qed

lemma login_inputs_run:
  "run_port_pae (port_new (pae_config_default\<lparr>host_mode := MultiHost\<rparr>))
     (map (Frame (0, 0, 0, 0, 0, 1)) [EapFromSupplicant identity_response, AccessAccept authorization_default None])
   = (\<lparr>cfg = pae_config_default\<lparr>host_mode := MultiHost\<rparr>,
       sessions = [\<lparr>mac = (0, 0, 0, 0, 0, 1), state = State.Authenticated, auth_kind = Dot1x, eap_id = 1,
         tx_count = 1, authz = Some authorization_default, accounting_open = True\<rparr>]\<rparr>,
      decorate MultiHost (0, 0, 0, 0, 0, 1)
        [SetAuthorization Unauthorized, TxEapToSupplicant (request_identity 1), ArmTimer TimerKind.TxPeriod,
         CancelTimer TimerKind.TxPeriod, ToAuthServer (in_packet identity_response),
         ArmTimer TimerKind.ServerTimeout, CancelAllTimers,
         SetAuthorization (Authorized authorization_default), Accounting AcctTrigger.Start,
         ArmTimer TimerKind.Reauth])"
  by (simp add: port_new_def handle_def can_admit_def active_sessions_def admit_def step_def step_in_state_def
      step_defs session_new_def identity_response_def pae_config_default_def authorization_default_def
      decorate_def prune_def Let_def)

theorem port_authorized_has_session_witness:
  "\<exists>s \<in> set (sessions (fst (run_port_pae (port_new (pae_config_default\<lparr>host_mode := MultiHost\<rparr>))
      (map (Frame (0, 0, 0, 0, 0, 1))
        [EapFromSupplicant identity_response, AccessAccept authorization_default None])))).
    target (pae_config_default\<lparr>host_mode := MultiHost\<rparr>) (mac s) = None \<and> accounting_open s \<and>
    authz s = Some authorization_default \<and> state s \<noteq> State.New"
  by (rule port_authorized_has_session)
    (simp only: login_inputs_run snd_conv, simp add: decorate_def observe_directed_def)

text \<open>
  C18. Host-mode capacity: after any sequence of inputs, the port never holds more
  live sessions than its host mode admits, never two of the same MAC, and no dead
  session is kept.
\<close>

theorem host_mode_capacity:
  "let p = fst (run_port_pae (port_new c) is)
   in (case max_sessions (host_mode c) of None \<Rightarrow> True | Some n \<Rightarrow> active_sessions p \<le> n) \<and>
      distinct (map mac (sessions p)) \<and> active_sessions p = length (sessions p)"
proof -
  have wf: "port_wf (fst (run_port_pae (port_new c) is))"
    using run_port_inv by (simp add: port_inv_def)
  then have "active_sessions (fst (run_port_pae (port_new c) is)) =
      length (sessions (fst (run_port_pae (port_new c) is)))"
    by (intro active_all) (simp add: port_wf_def)
  with wf show ?thesis
    by (simp add: port_wf_def within_capacity_def Let_def split: option.splits)
qed

text \<open>
  C20. Sessions do not interfere: an event for one MAC leaves the session of every
  other MAC as it was, and every effect it causes is directed at that MAC, or is a
  port-wide authorization of a multi-host port.
\<close>

theorem port_session_isolation:
  assumes "port_wf p" "m' \<noteq> m"
  shows "port_session (fst (handle p m e)) m' = port_session p m' \<and>
    list_all (\<lambda>d. de_mac d = Some m \<or>
      (host_mode (cfg p) = MultiHost \<and> de_mac d = None \<and> is_set_authorization (de_effect d)))
      (snd (handle p m e))"
proof -
  obtain fx where "snd (handle p m e) = decorate (host_mode (cfg p)) m fx"
    using handle_effects by blast
  then show ?thesis
    using handle_frame [OF assms] by (auto simp: list_all_iff dest: decorate_target)
qed

lemma port_wf_new: "port_wf (port_new c)"
  using port_inv_closed by (simp add: port_inv_def)

theorem port_session_isolation_witness:
  "port_session (fst (handle (port_new pae_config_default) (0, 0, 0, 0, 0, 1) EapolStart)) (0, 0, 0, 0, 0, 2)
     = None"
  using port_session_isolation [OF port_wf_new, of "(0, 0, 0, 0, 0, 2)" "(0, 0, 0, 0, 0, 1)"
      pae_config_default EapolStart]
  by (simp add: port_session_def port_new_def)

text \<open>
  C19. Losing the link closes the port: no session survives, every dataplane target is
  unauthorized whatever the host mode, and each session with open accounting is
  stopped exactly once, with cause \<open>PortLinkDown\<close>, in the order of the sessions.
\<close>

theorem link_down_fails_closed:
  assumes "port_inv p v"
  shows "sessions (fst (link_down p)) = [] \<and>
    foldl observe_directed v (snd (link_down p)) = closed_view \<and>
    filter (\<lambda>d. \<exists>c. de_effect d = Accounting (AcctTrigger.Stop c)) (snd (link_down p)) =
      map (\<lambda>s. \<lparr>de_mac = Some (mac s), de_effect = Accounting (AcctTrigger.Stop PortLinkDown)\<rparr>)
        (filter accounting_open (sessions p))"
proof -
  have live: "\<forall>s \<in> set (sessions p). state s \<noteq> State.New"
    using assms by (simp add: port_inv_def port_wf_def)
  have "filter (\<lambda>d. \<exists>c. de_effect d = Accounting (AcctTrigger.Stop c)) (snd (link_down_loop k ss)) =
      map (\<lambda>s. \<lparr>de_mac = Some (mac s), de_effect = Accounting (AcctTrigger.Stop PortLinkDown)\<rparr>)
        (filter accounting_open ss)" if "\<forall>s \<in> set ss. state s \<noteq> State.New" for k ss
    using that
  proof (induction ss)
    case (Cons s ss)
    then show ?case
      using stops_of_teardown [of s k]
      by (auto simp: Let_def case_prod_unfold filter_map o_def)
  qed simp
  with live link_down_closes [OF assms] show ?thesis
    by (simp add: link_down_def Let_def case_prod_unfold prune_def link_down_loop_spec filter_empty_conv)
qed

theorem link_down_fails_closed_witness:
  "foldl observe_directed closed_view (snd (link_down (port_new pae_config_default))) = closed_view"
  using link_down_fails_closed [OF port_inv_closed [of pae_config_default]] by blast

text \<open>
  A single-slot port serves one MAC: on a single-host or multi-host port with a
  session, whatever its state, every event of every other MAC is dropped without an
  effect and without touching the port.
\<close>

theorem second_supplicant_denied:
  assumes "port_wf p" "host_mode (cfg p) = SingleHost \<or> host_mode (cfg p) = MultiHost"
    and "port_session p m = Some s" "m' \<noteq> m"
  shows "handle p m' e = (p, [])"
proof -
  have s: "s \<in> set (sessions p)" "mac s = m"
    using assms port_session_iff by blast+
  with assms(1,2) have one: "sessions p = [s]"
    by (cases "sessions p") (auto simp: port_wf_def within_capacity_def max_sessions_def)
  moreover have "state s \<noteq> State.New" using s assms(1) by (simp add: port_wf_def)
  ultimately show ?thesis
    using assms(2,4) s
    by (auto simp: handle_unknown can_admit_def active_sessions_def prune_def)
qed

theorem second_supplicant_denied_witness:
  "handle (fst (handle (port_new (pae_config_default\<lparr>host_mode := SingleHost\<rparr>)) (0, 0, 0, 0, 0, 1) EapolStart))
     (0, 0, 0, 0, 0, 2) EapolStart =
   (fst (handle (port_new (pae_config_default\<lparr>host_mode := SingleHost\<rparr>)) (0, 0, 0, 0, 0, 1) EapolStart), [])"
  (is "handle ?p _ _ = _")
proof (rule second_supplicant_denied)
  show "port_wf ?p"
    using handle_port_inv [OF port_inv_closed] by (simp add: port_inv_def)
  show "port_session ?p (0, 0, 0, 0, 0, 1) =
    Some (fst (step (session_new (0, 0, 0, 0, 0, 1)) Enable (pae_config_default\<lparr>host_mode := SingleHost\<rparr>)))"
    by (simp add: port_new_def handle_def can_admit_def active_sessions_def admit_def step_def step_in_state_def
      step_defs session_new_def prune_def Let_def port_session_def)
qed (simp_all add: port_new_def)

text \<open>
  A stale timer admits a session: the expiry of a timer for a MAC that has no
  session on the port (its session was torn down and pruned while the expiry was
  queued) creates a live session for it and sends an identity request.
\<close>

theorem stale_timer_admits_session:
  assumes "port_wf p" "can_admit p" "port_session p m = None" "k \<noteq> TimerKind.TxPeriod"
  shows "(\<exists>s. port_session (fst (handle p m (Timer k))) m = Some s \<and> state s = State.Connecting) \<and>
    \<lparr>de_mac = Some m, de_effect = TxEapToSupplicant (request_identity 1)\<rparr> \<in> set (snd (handle p m (Timer k)))"
proof -
  have m: "m \<notin> mac ` set (sessions p)"
    using assms(3) by (auto simp: port_session_def find_None_iff)
  then have none: "List.find (\<lambda>s. mac s = m) (filter (\<lambda>s. state s \<noteq> State.New) (sessions p)) = None"
    by (auto simp: find_None_iff)
  have "step (fst (step (session_new m) Enable (cfg p))) (Timer k) (cfg p) =
      (fst (step (session_new m) Enable (cfg p)), [])"
    using assms(4) by (cases k) (simp_all add: step_def step_in_state_def step_defs session_new_def)
  then show ?thesis
    using none assms(2)
    by (simp add: handle_unknown m admit_session Let_def case_prod_unfold prune_def port_session_def
        find_append decorate_def) (simp add: step_def step_defs session_new_def)
qed

theorem stale_timer_admits_session_witness:
  "\<lparr>de_mac = Some (0, 0, 0, 0, 0, 1), de_effect = TxEapToSupplicant (request_identity 1)\<rparr>
     \<in> set (snd (handle (port_new pae_config_default) (0, 0, 0, 0, 0, 1) (Timer TimerKind.Reauth)))"
  using stale_timer_admits_session [OF port_wf_new, of pae_config_default "(0, 0, 0, 0, 0, 1)" TimerKind.Reauth]
  by (simp add: port_new_def can_admit_def active_sessions_def pae_config_default_def port_session_def)

end
