(* ===== verification/Enforce.thy ===== *)
theory Enforce
  imports Pae_Port
begin

text \<open>
  The dataplane boundary (\<open>crates/enforce\<close>): the \<open>Enforcer\<close> trait as a record of
  operations over an explicit enforcer state, its contract as the locale
  \<open>enforcer\<close> (a success is a confirmed change, and no call touches another port), and the
  recording test enforcer, which meets the contract.
\<close>

section \<open>The trait\<close>

datatype Target = Port | Mac MacAddr

record ('s, 'e) Enforcer =
  ensure_eapol_trap :: "'s \<Rightarrow> string \<Rightarrow> 's \<times> ('e + unit)"
  enforcer_apply :: "'s \<Rightarrow> string \<Rightarrow> Target \<Rightarrow> PortAuthorization \<Rightarrow> 's \<times> ('e + unit)"

text \<open>One call of the trait, and what it leaves behind, whether it succeeds or not.\<close>

datatype Call = EnsureEapolTrap string | Apply string Target PortAuthorization

fun call_port :: "Call \<Rightarrow> string" where
  "call_port (EnsureEapolTrap p) = p"
| "call_port (Apply p _ _) = p"

fun perform :: "('s, 'e) Enforcer \<Rightarrow> 's \<Rightarrow> Call \<Rightarrow> 's" where
  "perform E s (EnsureEapolTrap p) = fst (ensure_eapol_trap E s p)"
| "perform E s (Apply p t a) = fst (enforcer_apply E s p t a)"

text \<open>A sequence of applications that all succeed.\<close>

fun apply_all :: "('s, 'e) Enforcer \<Rightarrow> 's \<Rightarrow> (string \<times> Target \<times> PortAuthorization) list \<Rightarrow> 's option" where
  "apply_all E s [] = Some s"
| "apply_all E s ((p, t, a) # rest) =
     (case snd (enforcer_apply E s p t a) of
        Inl _ \<Rightarrow> None
      | Inr _ \<Rightarrow> apply_all E (fst (enforcer_apply E s p t a)) rest)"

lemma apply_all_snoc:
  "apply_all E s (xs @ [(p, t, a)]) = Some s' \<longleftrightarrow>
     (\<exists>s1. apply_all E s xs = Some s1 \<and> enforcer_apply E s1 p t a = (s', Inr ()))"
proof (induction xs arbitrary: s)
  case Nil
  show ?case
    by (cases "enforcer_apply E s p t a"; cases "snd (enforcer_apply E s p t a)") auto
next
  case (Cons x xs)
  obtain q u b where "x = (q, u, b)" by (cases x)
  with Cons show ?case by (cases "snd (enforcer_apply E s q u b)") simp_all
qed

text \<open>
  \<open>served s p\<close> says that port \<open>p\<close> was brought into service, \<open>holds s p a\<close> that the
  dataplane is in the posture of \<open>a\<close>.
\<close>

locale enforcer =
  fixes E :: "('s, 'e) Enforcer"
    and served :: "'s \<Rightarrow> string \<Rightarrow> bool"
    and holds :: "'s \<Rightarrow> string \<Rightarrow> PortAuthorization \<Rightarrow> bool"
    and port_ok :: "string \<Rightarrow> bool"
  assumes ensure_confirms:
    "port_ok p \<Longrightarrow> ensure_eapol_trap E s p = (s', Inr ()) \<Longrightarrow> served s' p \<and> holds s' p Unauthorized"
    and apply_confirms:
    "port_ok p \<Longrightarrow> served s p \<Longrightarrow> enforcer_apply E s p t a = (s', Inr ()) \<Longrightarrow> served s' p \<and> holds s' p a"
    and call_frame:
    "port_ok (call_port c) \<Longrightarrow> port_ok q \<Longrightarrow> q \<noteq> call_port c \<Longrightarrow> served s q \<Longrightarrow>
       served (perform E s c) q \<and> (\<forall>b. holds s q b \<longrightarrow> holds (perform E s c) q b)"
begin

lemma apply_frame:
  assumes "port_ok p" "port_ok q" "q \<noteq> p" "served s q" "enforcer_apply E s p t a = (s', r)"
  shows "served s' q \<and> (\<forall>b. holds s q b \<longrightarrow> holds s' q b)"
  using call_frame [of "Apply p t a" q s] assms by simp

text \<open>However many calls for other ports are made, a port keeps its posture.\<close>

lemma calls_frame:
  assumes "\<forall>c \<in> set cs. port_ok (call_port c) \<and> call_port c \<noteq> q" "port_ok q" "served s q"
  shows "served (foldl (perform E) s cs) q \<and> (\<forall>b. holds s q b \<longrightarrow> holds (foldl (perform E) s cs) q b)"
  using assms
proof (induction cs arbitrary: s)
  case (Cons c cs)
  from call_frame [of c q s] Cons.prems have "served (perform E s c) q"
    "\<forall>b. holds s q b \<longrightarrow> holds (perform E s c) q b" by auto
  with Cons.IH [of "perform E s c"] Cons.prems show ?case by simp
qed simp

lemma apply_all_served:
  assumes "apply_all E s xs = Some s'" "\<forall>(p, t, a) \<in> set xs. port_ok p \<and> served s p"
    "port_ok q" "served s q"
  shows "served s' q"
  using assms
proof (induction xs arbitrary: s' q rule: rev_induct)
  case (snoc x xs)
  obtain p t a where x: "x = (p, t, a)" by (cases x)
  from snoc.prems(1) obtain s1 where s1: "apply_all E s xs = Some s1"
    and step: "enforcer_apply E s1 p t a = (s', Inr ())" by (auto simp: x apply_all_snoc)
  from snoc.prems have p: "port_ok p" "served s p" by (auto simp: x)
  have "served s1 p" "served s1 q" using snoc.IH [OF s1] snoc.prems p by auto
  then show ?case
    using apply_confirms [OF p(1) _ step] apply_frame [OF p(1) snoc.prems(3) _ _ step] by blast
qed simp

text \<open>After a sequence of successes each port holds the last authorization applied to it.\<close>

lemma last_apply_holds:
  assumes run: "apply_all E s (xs @ (p, t, a) # ys) = Some s'"
    and ok: "\<forall>(q, u, b) \<in> set (xs @ (p, t, a) # ys). port_ok q \<and> served s q"
    and last: "p \<notin> fst ` set ys"
  shows "holds s' p a"
  using assms
proof (induction ys arbitrary: s' rule: rev_induct)
  case Nil
  then obtain s1 where s1: "apply_all E s xs = Some s1" and step: "enforcer_apply E s1 p t a = (s', Inr ())"
    by (auto simp: apply_all_snoc)
  have p: "port_ok p" "served s p" using Nil by auto
  have "served s1 p" using apply_all_served [OF s1 _ p] Nil by auto
  then show ?case using apply_confirms [OF p(1) _ step] by blast
next
  case (snoc y ys)
  obtain q u b where y: "y = (q, u, b)" by (cases y)
  have assoc: "xs @ (p, t, a) # ys @ [y] = (xs @ (p, t, a) # ys) @ [(q, u, b)]" by (simp add: y)
  from snoc.prems(1) obtain s1 where s1: "apply_all E s (xs @ (p, t, a) # ys) = Some s1"
    and step: "enforcer_apply E s1 q u b = (s', Inr ())" unfolding assoc apply_all_snoc by blast
  have p: "port_ok p" "served s p" "port_ok q" "served s q" "p \<noteq> q" using snoc.prems by (auto simp: y)
  have "holds s1 p a" using snoc.IH [OF s1] snoc.prems by auto
  moreover have "served s1 p" "served s1 q" using apply_all_served [OF s1] snoc.prems p by auto
  ultimately show ?case using apply_frame [OF p(3,1,5) _ step] by blast
qed

end

section \<open>The recording enforcer\<close>

text \<open>\<open>RecordingEnforcer\<close>: the state is the list of calls.\<close>

definition recording_push :: "Call list \<Rightarrow> Call \<Rightarrow> Call list" where
  "recording_push calls c = calls @ [c]"

definition recording_enforcer :: "(Call list, unit) Enforcer" where
  "recording_enforcer =
     \<lparr>ensure_eapol_trap = (\<lambda>calls p. (recording_push calls (EnsureEapolTrap p), Inr ())),
      enforcer_apply = (\<lambda>calls p t a. (recording_push calls (Apply p t a), Inr ()))\<rparr>"

fun call_posture :: "Call \<Rightarrow> PortAuthorization" where
  "call_posture (EnsureEapolTrap _) = Unauthorized"
| "call_posture (Apply _ _ a) = a"

text \<open>The posture that the recorded calls leave a port in.\<close>

definition recorded :: "Call list \<Rightarrow> string \<Rightarrow> PortAuthorization option" where
  "recorded calls p = map_option call_posture (List.find (\<lambda>c. call_port c = p) (rev calls))"

lemma recorded_push:
  "recorded (recording_push calls c) p =
     (if call_port c = p then Some (call_posture c) else recorded calls p)"
  by (simp add: recorded_def recording_push_def)

lemma recording_calls_simps:
  "ensure_eapol_trap recording_enforcer calls p = (recording_push calls (EnsureEapolTrap p), Inr ())"
  "enforcer_apply recording_enforcer calls p t a = (recording_push calls (Apply p t a), Inr ())"
  by (simp_all add: recording_enforcer_def)

lemma perform_recording: "perform recording_enforcer calls c = recording_push calls c"
  by (cases c) (simp_all add: recording_calls_simps)

interpretation recording: enforcer
  recording_enforcer "\<lambda>calls p. recorded calls p \<noteq> None" "\<lambda>calls p a. recorded calls p = Some a" "\<lambda>_. True"
  by unfold_locales (auto simp: recording_calls_simps recorded_push perform_recording)

end
