(* ===== verification/Enforce_Sonic.thy ===== *)
theory Enforce_Sonic
  imports Enforce
begin

text \<open>
  The SONiC backend (\<open>crates/enforce-sonic\<close>): the database operations (\<open>db.rs\<close>), the
  pure mapping from an authorization to CONFIG_DB operations (\<open>schema.rs\<close>) and the
  enforcer that plans, applies and confirms a change (\<open>enforcer.rs\<close>). The \<open>DbConn\<close>
  trait is a record of operations; the locale \<open>db_conn\<close> states what an
  implementation promises, and inside it the enforcer is shown to meet the
  contract of \<open>Enforce\<close>.
\<close>

section \<open>Databases and operations\<close>

datatype Db = Config | Appl | Asic | State

fun db_index :: "Db \<Rightarrow> int" where
  "db_index Appl = 0"
| "db_index Asic = 1"
| "db_index Config = 4"
| "db_index Db.State = 6"

datatype Op =
    HSet string "(string \<times> string) list"
  | Del string
  | ListAdd string string string
  | ListRemove string string string

record DbOp =
  op_db :: Db
  op_op :: Op

text \<open>The \<open>DbConn\<close> trait over a connection state.\<close>

record ('c, 'e) DbConn =
  conn_apply :: "'c \<Rightarrow> DbOp list \<Rightarrow> 'c \<times> ('e + unit)"
  conn_confirm :: "'c \<Rightarrow> Db \<Rightarrow> string \<Rightarrow> 'c \<times> ('e + bool)"

section \<open>The schema\<close>

definition EAPOL_TRAP_KEY :: string where "EAPOL_TRAP_KEY = ''COPP_TRAP|eapol''"
definition EAPOL_ETHERTYPE :: string where "EAPOL_ETHERTYPE = ''0x888E''"

record Desired =
  authorized :: bool
  desired_vlan :: "string option"
  desired_filter :: "string option"

definition desired_default :: Desired where
  "desired_default = \<lparr>authorized = False, desired_vlan = None, desired_filter = None\<rparr>"

fun from_authorization :: "PortAuthorization \<Rightarrow> Desired" where
  "from_authorization (Authorized a) =
     \<lparr>authorized = True, desired_vlan = vlan a, desired_filter = filter_id a\<rparr>"
| "from_authorization (PortAuthorization.Fallback _ v) =
     \<lparr>authorized = True, desired_vlan = v, desired_filter = None\<rparr>"
| "from_authorization Unauthorized = desired_default"

definition vlan_member_key :: "string \<Rightarrow> string \<Rightarrow> string" where
  "vlan_member_key v port = ''VLAN_MEMBER|Vlan'' @ v @ ''|'' @ port"

definition deny_table :: "string \<Rightarrow> string" where
  "deny_table port = ''DOT1X_'' @ port"

definition deny_rule_key :: "string \<Rightarrow> string" where
  "deny_rule_key port = ''ACL_RULE|DOT1X_'' @ port @ ''|DENY_ALL''"

definition eapol_permit_key :: "string \<Rightarrow> string" where
  "eapol_permit_key port = ''ACL_RULE|DOT1X_'' @ port @ ''|ALLOW_EAPOL''"

definition acl_table_key :: "string \<Rightarrow> string" where
  "acl_table_key name = ''ACL_TABLE|'' @ name"

definition plan_eapol_trap :: "DbOp list" where
  "plan_eapol_trap =
     [\<lparr>op_db = Config,
       op_op = HSet EAPOL_TRAP_KEY [(''trap_ids'', ''eapol''), (''trap_group'', ''queue4_group1'')]\<rparr>]"

definition del :: "Db \<Rightarrow> string \<Rightarrow> DbOp" where
  "del d key = \<lparr>op_db = d, op_op = Del key\<rparr>"

definition open_controlled_port :: "string \<Rightarrow> DbOp list" where
  "open_controlled_port port = [del Config (deny_rule_key port), del Config (eapol_permit_key port)]"

definition close_controlled_port :: "string \<Rightarrow> DbOp list" where
  "close_controlled_port port =
     [\<lparr>op_db = Config,
       op_op = HSet (acl_table_key (deny_table port))
         [(''type'', ''L3''), (''stage'', ''ingress''), (''ports'', port)]\<rparr>,
      \<lparr>op_db = Config,
       op_op = HSet (eapol_permit_key port)
         [(''PRIORITY'', ''9999''), (''ETHER_TYPE'', EAPOL_ETHERTYPE), (''PACKET_ACTION'', ''FORWARD'')]\<rparr>,
      \<lparr>op_db = Config,
       op_op = HSet (deny_rule_key port) [(''PRIORITY'', ''1''), (''PACKET_ACTION'', ''DROP'')]\<rparr>]"

definition plan_close :: "string \<Rightarrow> DbOp list" where
  "plan_close port = close_controlled_port port"

text \<open>The three deltas of \<open>transition\<close>: VLAN, named ACL, controlled port.\<close>

definition vlan_delta :: "string \<Rightarrow> Desired \<Rightarrow> Desired \<Rightarrow> DbOp list" where
  "vlan_delta port old new =
     (if desired_vlan old \<noteq> desired_vlan new then
        (case desired_vlan old of Some prev \<Rightarrow> [del Config (vlan_member_key prev port)] | None \<Rightarrow> [])
        @ (case desired_vlan new of
             Some nxt \<Rightarrow>
               [\<lparr>op_db = Config, op_op = HSet (vlan_member_key nxt port) [(''tagging_mode'', ''untagged'')]\<rparr>]
           | None \<Rightarrow> [])
      else [])"

definition filter_delta :: "string \<Rightarrow> Desired \<Rightarrow> Desired \<Rightarrow> DbOp list" where
  "filter_delta port old new =
     (if desired_filter old \<noteq> desired_filter new then
        (case desired_filter old of
           Some prev \<Rightarrow> [\<lparr>op_db = Config, op_op = ListRemove (acl_table_key prev) ''ports'' port\<rparr>]
         | None \<Rightarrow> [])
        @ (case desired_filter new of
             Some nxt \<Rightarrow> [\<lparr>op_db = Config, op_op = ListAdd (acl_table_key nxt) ''ports'' port\<rparr>]
           | None \<Rightarrow> [])
      else [])"

definition transition :: "string \<Rightarrow> Desired \<Rightarrow> Desired \<Rightarrow> DbOp list" where
  "transition port old new =
     vlan_delta port old new @ filter_delta port old new
     @ (if authorized old \<noteq> authorized new then
          (if authorized new then open_controlled_port port else close_controlled_port port)
        else [])"

definition is_valid_vlan :: "string \<Rightarrow> bool" where
  "is_valid_vlan v = (case parse_u16 v of Some n \<Rightarrow> 1 \<le> n \<and> n \<le> 4094 | None \<Rightarrow> False)"

section \<open>The enforcer\<close>

datatype 'e SonicError = Backend 'e | Unconfirmed Db string | InvalidVlan string

record 'c SonicEnforcer =
  conn :: 'c
  applied :: "string \<rightharpoonup> Desired"

definition sonic_new :: "'c \<Rightarrow> 'c SonicEnforcer" where
  "sonic_new c = \<lparr>conn = c, applied = Map.empty\<rparr>"

definition previous :: "'c SonicEnforcer \<Rightarrow> string \<Rightarrow> Desired" where
  "previous s port = (case applied s port of Some d \<Rightarrow> d | None \<Rightarrow> desired_default)"

definition remember :: "string \<Rightarrow> Desired \<Rightarrow> 'c SonicEnforcer \<Rightarrow> 'c SonicEnforcer" where
  "remember port d s = s\<lparr>applied := (applied s)(port \<mapsto> d)\<rparr>"

text \<open>A connection operation with its error wrapped in \<open>Backend\<close>.\<close>

definition on_conn ::
    "('c \<Rightarrow> 'c \<times> ('e + 'a)) \<Rightarrow> 'c SonicEnforcer \<Rightarrow> 'c SonicEnforcer \<times> ('e SonicError + 'a)" where
  "on_conn f s = (let (c, r) = f (conn s) in (s\<lparr>conn := c\<rparr>, map_err Backend r))"

definition require_present ::
    "('c, 'e) DbConn \<Rightarrow> Db \<Rightarrow> string \<Rightarrow> 'c SonicEnforcer \<Rightarrow> 'c SonicEnforcer \<times> ('e SonicError + unit)" where
  "require_present C d key s =
     then_do (on_conn (\<lambda>c. conn_confirm C c d key) s) (\<lambda>found s.
       (s, if found then Inr () else Inl (Unconfirmed d key)))"

definition require_absent ::
    "('c, 'e) DbConn \<Rightarrow> Db \<Rightarrow> string \<Rightarrow> 'c SonicEnforcer \<Rightarrow> 'c SonicEnforcer \<times> ('e SonicError + unit)" where
  "require_absent C d key s =
     then_do (on_conn (\<lambda>c. conn_confirm C c d key) s) (\<lambda>found s.
       (s, if found then Inl (Unconfirmed d key) else Inr ()))"

definition sonic_ensure_eapol_trap ::
    "('c, 'e) DbConn \<Rightarrow> 'c SonicEnforcer \<Rightarrow> string \<Rightarrow> 'c SonicEnforcer \<times> ('e SonicError + unit)" where
  "sonic_ensure_eapol_trap C s port =
     then_do (on_conn (\<lambda>c. conn_apply C c (plan_eapol_trap @ plan_close port)) s) (\<lambda>_ s.
     then_do (require_present C Config EAPOL_TRAP_KEY s) (\<lambda>_ s.
     then_do (require_present C Config (deny_rule_key port) s) (\<lambda>_ s.
     (remember port desired_default s, Inr ()))))"

definition check_vlan :: "Desired \<Rightarrow> 'c SonicEnforcer \<Rightarrow> 'c SonicEnforcer \<times> ('e SonicError + unit)" where
  "check_vlan new s =
     (case desired_vlan new of
        Some v \<Rightarrow> if \<not> is_valid_vlan v then (s, Inl (InvalidVlan v)) else (s, Inr ())
      | None \<Rightarrow> (s, Inr ()))"

definition check_filter ::
    "('c, 'e) DbConn \<Rightarrow> Desired \<Rightarrow> 'c SonicEnforcer \<Rightarrow> 'c SonicEnforcer \<times> ('e SonicError + unit)" where
  "check_filter C new s =
     (case desired_filter new of
        Some f \<Rightarrow> require_present C Config (acl_table_key f) s
      | None \<Rightarrow> (s, Inr ()))"

definition confirm_change ::
    "('c, 'e) DbConn \<Rightarrow> string \<Rightarrow> Desired \<Rightarrow> 'c SonicEnforcer \<Rightarrow> 'c SonicEnforcer \<times> ('e SonicError + unit)" where
  "confirm_change C port new s =
     (if authorized new then
        (case desired_vlan new of
           Some v \<Rightarrow> require_present C Config (vlan_member_key v port) s
         | None \<Rightarrow> require_absent C Config (deny_rule_key port) s)
      else require_present C Config (deny_rule_key port) s)"

definition sonic_apply ::
    "('c, 'e) DbConn \<Rightarrow> 'c SonicEnforcer \<Rightarrow> string \<Rightarrow> Target \<Rightarrow> PortAuthorization
       \<Rightarrow> 'c SonicEnforcer \<times> ('e SonicError + unit)" where
  "sonic_apply C s port t auth =
     (let new = from_authorization auth in
      then_do (check_vlan new s) (\<lambda>_ s.
      then_do (check_filter C new s) (\<lambda>_ s.
      let old = previous s port; ops = transition port old new in
      then_do (on_conn (\<lambda>c. conn_apply C c ops) s) (\<lambda>_ s.
      then_do (confirm_change C port new s) (\<lambda>_ s.
      (remember port new s, Inr ()))))))"

definition sonic_enforcer :: "('c, 'e) DbConn \<Rightarrow> ('c SonicEnforcer, 'e SonicError) Enforcer" where
  "sonic_enforcer C =
     \<lparr>ensure_eapol_trap = sonic_ensure_eapol_trap C, enforcer_apply = sonic_apply C\<rparr>"

section \<open>What the operations mean\<close>

type_synonym store = "string \<rightharpoonup> (string \<rightharpoonup> string)"
type_synonym databases = "Db \<Rightarrow> store"

definition hash_of :: "store \<Rightarrow> string \<Rightarrow> (string \<rightharpoonup> string)" where
  "hash_of st key = (case st key of Some h \<Rightarrow> h | None \<Rightarrow> Map.empty)"

definition put_fields :: "(string \<rightharpoonup> string) \<Rightarrow> (string \<times> string) list \<Rightarrow> (string \<rightharpoonup> string)" where
  "put_fields h fs = foldl (\<lambda>h (f, v). h(f \<mapsto> v)) h fs"

text \<open>The items of a comma-separated field value.\<close>

definition list_items :: "string \<Rightarrow> string list" where
  "list_items value = filter (\<lambda>x. x \<noteq> []) (split_on (CHR '','') value)"

fun store_op :: "Op \<Rightarrow> store \<Rightarrow> store" where
  "store_op (HSet key fs) st = st(key \<mapsto> put_fields (hash_of st key) fs)"
| "store_op (Del key) st = st(key := None)"
| "store_op (ListAdd key field value) st =
     (let items = (case hash_of st key field of Some cur \<Rightarrow> list_items cur | None \<Rightarrow> []);
          items' = (if value \<in> set items then items else items @ [value])
      in st(key \<mapsto> (hash_of st key)(field \<mapsto> join_with (CHR '','') items')))"
| "store_op (ListRemove key field value) st =
     (case hash_of st key field of
        None \<Rightarrow> st
      | Some cur \<Rightarrow>
          st(key \<mapsto> (hash_of st key)(field \<mapsto>
            join_with (CHR '','') (filter (\<lambda>x. x \<noteq> value) (list_items cur)))))"

definition db_op :: "databases \<Rightarrow> DbOp \<Rightarrow> databases" where
  "db_op dbs p = dbs(op_db p := store_op (op_op p) (dbs (op_db p)))"

definition run_ops :: "DbOp list \<Rightarrow> databases \<Rightarrow> databases" where
  "run_ops ops dbs = foldl db_op dbs ops"

text \<open>
  What a \<open>DbConn\<close> promises: a successful \<open>apply\<close> performs the operations in order, a
  failed one a prefix of them, and \<open>confirm\<close> reads the key and changes nothing.
\<close>

locale db_conn =
  fixes C :: "('c, 'e) DbConn"
    and content :: "'c \<Rightarrow> databases"
  assumes apply_ok: "conn_apply C c ops = (c', Inr ()) \<Longrightarrow> content c' = run_ops ops (content c)"
    and apply_err: "conn_apply C c ops = (c', Inl e) \<Longrightarrow>
      \<exists>n \<le> length ops. content c' = run_ops (take n ops) (content c)"
    and confirm_same: "conn_confirm C c d key = (c', r) \<Longrightarrow> content c' = content c"
    and confirm_reads: "conn_confirm C c d key = (c', Inr b) \<Longrightarrow> b = (content c d key \<noteq> None)"


section \<open>Keys\<close>

definition port_name_ok :: "string \<Rightarrow> bool" where
  "port_name_ok port \<longleftrightarrow> port \<noteq> [] \<and> CHR '','' \<notin> set port \<and> CHR ''|'' \<notin> set port"

named_theorems key_simps \<open>the keys of the schema do not collide\<close>

lemma table_keys_differ [key_simps]:
  "deny_rule_key p \<noteq> acl_table_key f" "acl_table_key f \<noteq> deny_rule_key p"
  "eapol_permit_key p \<noteq> acl_table_key f" "acl_table_key f \<noteq> eapol_permit_key p"
  "vlan_member_key v p \<noteq> acl_table_key f" "acl_table_key f \<noteq> vlan_member_key v p"
  "vlan_member_key v p \<noteq> deny_rule_key q" "deny_rule_key q \<noteq> vlan_member_key v p"
  "vlan_member_key v p \<noteq> eapol_permit_key q" "eapol_permit_key q \<noteq> vlan_member_key v p"
  "EAPOL_TRAP_KEY \<noteq> acl_table_key f" "EAPOL_TRAP_KEY \<noteq> deny_rule_key p" "EAPOL_TRAP_KEY \<noteq> eapol_permit_key p"
  "acl_table_key f \<noteq> EAPOL_TRAP_KEY" "deny_rule_key p \<noteq> EAPOL_TRAP_KEY" "eapol_permit_key p \<noteq> EAPOL_TRAP_KEY"
  "vlan_member_key v p \<noteq> EAPOL_TRAP_KEY"
  by (simp_all add: deny_rule_key_def eapol_permit_key_def vlan_member_key_def acl_table_key_def
      EAPOL_TRAP_KEY_def)

lemma rule_keys_differ [key_simps]:
  "deny_rule_key p \<noteq> eapol_permit_key q" "eapol_permit_key q \<noteq> deny_rule_key p"
proof -
  have "rev (deny_rule_key p) \<noteq> rev (eapol_permit_key q)"
    by (simp add: deny_rule_key_def eapol_permit_key_def)
  then show "deny_rule_key p \<noteq> eapol_permit_key q" by metis
  then show "eapol_permit_key q \<noteq> deny_rule_key p" by metis
qed

lemma keys_inject [key_simps]:
  "deny_rule_key p = deny_rule_key q \<longleftrightarrow> p = q"
  "eapol_permit_key p = eapol_permit_key q \<longleftrightarrow> p = q"
  "acl_table_key f = acl_table_key g \<longleftrightarrow> f = g"
  "deny_table p = deny_table q \<longleftrightarrow> p = q"
  by (simp_all add: deny_rule_key_def eapol_permit_key_def acl_table_key_def deny_table_def)

lemma vlan_member_key_inject [key_simps]:
  "vlan_member_key v p = vlan_member_key w p \<longleftrightarrow> v = w"
  by (simp add: vlan_member_key_def)

lemma append_sep_inject:
  assumes "c \<notin> set p" "c \<notin> set q"
  shows "v @ c # p = w @ c # q \<longleftrightarrow> v = w \<and> p = q"
proof
  assume e: "v @ c # p = w @ c # q"
  then have "rev (v @ c # p) = rev (w @ c # q)" by (simp only: e)
  then have r: "rev p @ c # rev v = rev q @ c # rev w" by simp
  have "takeWhile (\<lambda>x. x \<noteq> c) (rev x @ c # y) = rev x" if "c \<notin> set x" for x y
    using that by (subst takeWhile_append2) auto
  with assms r have "rev p = rev q" by metis
  with r show "v = w \<and> p = q" by simp
qed simp

lemma vlan_member_key_ports:
  assumes "port_name_ok p" "port_name_ok q"
  shows "vlan_member_key v p = vlan_member_key w q \<longleftrightarrow> v = w \<and> p = q"
  using append_sep_inject [of "CHR ''|''" p q v w] assms
  by (simp add: vlan_member_key_def port_name_ok_def)

section \<open>Bindings\<close>

definition bound :: "store \<Rightarrow> string \<Rightarrow> string \<Rightarrow> bool" where
  "bound st name port \<longleftrightarrow>
     (\<exists>v. hash_of st (acl_table_key name) ''ports'' = Some v \<and> port \<in> set (list_items v))"

lemma list_items_join:
  assumes "\<forall>x \<in> set items. x \<noteq> [] \<and> CHR '','' \<notin> set x"
  shows "list_items (join_with (CHR '','') items) = items"
proof (cases "items = []")
  case True
  then show ?thesis by (simp add: list_items_def)
next
  case False
  with assms show ?thesis by (simp add: list_items_def split_join filter_id_conv)
qed

lemma list_items_pieces: "x \<in> set (list_items v) \<Longrightarrow> x \<noteq> [] \<and> CHR '','' \<notin> set x"
  using split_on_pieces by (auto simp: list_items_def)

lemma list_items_single: "port_name_ok p \<Longrightarrow> list_items p = [p]"
  by (simp add: list_items_def port_name_ok_def split_on_no_sep)

lemma bound_add:
  assumes "port_name_ok p"
  shows "bound (store_op (ListAdd (acl_table_key f) ''ports'' p) st) g q \<longleftrightarrow>
    bound st g q \<or> (g = f \<and> q = p)"
proof -
  define items where "items = (case hash_of st (acl_table_key f) ''ports'' of
    Some cur \<Rightarrow> list_items cur | None \<Rightarrow> [])"
  have "\<forall>x \<in> set (if p \<in> set items then items else items @ [p]). x \<noteq> [] \<and> CHR '','' \<notin> set x"
    using assms list_items_pieces by (auto simp: items_def port_name_ok_def split: option.splits)
  from list_items_join [OF this] show ?thesis
    by (auto simp: bound_def hash_of_def [of "_(_ \<mapsto> _)"] key_simps items_def [symmetric] Let_def)
      (auto simp: hash_of_def items_def split: option.splits)
qed

lemma bound_remove:
  "bound (store_op (ListRemove (acl_table_key f) ''ports'' p) st) g q \<longleftrightarrow>
     bound st g q \<and> \<not> (g = f \<and> q = p)"
proof (cases "hash_of st (acl_table_key f) ''ports''")
  case None
  then show ?thesis by (auto simp: bound_def)
next
  case (Some cur)
  have "\<forall>x \<in> set (filter (\<lambda>x. x \<noteq> p) (list_items cur)). x \<noteq> [] \<and> CHR '','' \<notin> set x"
    using list_items_pieces by auto
  from list_items_join [OF this] Some show ?thesis
    by (auto simp: bound_def hash_of_def [of "_(_ \<mapsto> _)"] key_simps) (auto simp: hash_of_def)
qed

lemma bound_other_key:
  "key \<noteq> acl_table_key g \<Longrightarrow> bound (st(key := h)) g q \<longleftrightarrow> bound st g q"
  by (simp add: bound_def hash_of_def)

lemma bound_deny_table:
  assumes "port_name_ok p"
  shows "bound (store_op (HSet (acl_table_key (deny_table p))
      [(''type'', ''L3''), (''stage'', ''ingress''), (''ports'', p)]) st) g q \<longleftrightarrow>
    (if g = deny_table p then q = p else bound st g q)"
  using list_items_single [OF assms]
  by (simp add: bound_def put_fields_def hash_of_def key_simps)

lemma list_op_other_key:
  "key \<noteq> acl_table_key f \<Longrightarrow> store_op (ListAdd (acl_table_key f) fld p) st key = st key"
  "key \<noteq> acl_table_key f \<Longrightarrow> store_op (ListRemove (acl_table_key f) fld p) st key = st key"
  by (auto simp: Let_def split: option.splits)

section \<open>Postures\<close>

text \<open>
  The CONFIG_DB content that a posture of a port calls for. A \<open>Filter-Id\<close> that names a
  default-deny table is left out: closing the table's own port rewrites its \<open>ports\<close>.
\<close>

definition is_deny_table :: "string \<Rightarrow> bool" where
  "is_deny_table f \<longleftrightarrow> take 6 f = ''DOT1X_''"

definition posture :: "store \<Rightarrow> string \<Rightarrow> Desired \<Rightarrow> bool" where
  "posture st port d \<longleftrightarrow>
     (if authorized d then st (deny_rule_key port) = None
      else st (deny_rule_key port) \<noteq> None \<and> st (eapol_permit_key port) \<noteq> None \<and>
        bound st (deny_table port) port) \<and>
     (\<forall>v. desired_vlan d = Some v \<longrightarrow> st (vlan_member_key v port) \<noteq> None) \<and>
     (\<forall>f. desired_filter d = Some f \<and> \<not> is_deny_table f \<longrightarrow> bound st f port)"

definition desired_wf :: "Desired \<Rightarrow> bool" where
  "desired_wf d \<longleftrightarrow> authorized d \<or> d = desired_default"

lemma is_deny_table_deny [simp]: "is_deny_table (deny_table p)"
  by (simp add: is_deny_table_def deny_table_def)

lemma from_authorization_wf [simp]: "desired_wf (from_authorization a)"
  by (cases a) (simp_all add: desired_wf_def)

definition run_store :: "DbOp list \<Rightarrow> store \<Rightarrow> store" where
  "run_store ops st = foldl (\<lambda>st p. store_op (op_op p) st) st ops"

lemma run_store_simps [simp]:
  "run_store [] st = st"
  "run_store (p # ops) st = run_store ops (store_op (op_op p) st)"
  "run_store (xs @ ys) st = run_store ys (run_store xs st)"
  by (simp_all add: run_store_def)

lemma run_ops_config:
  "list_all (\<lambda>p. op_db p = Config) ops \<Longrightarrow> run_ops ops dbs Config = run_store ops (dbs Config)"
  by (induction ops arbitrary: dbs) (simp_all add: run_ops_def db_op_def)

lemma config_only:
  "list_all (\<lambda>p. op_db p = Config) (transition port old new)"
  "list_all (\<lambda>p. op_db p = Config) (plan_eapol_trap @ plan_close port)"
  by (simp_all add: transition_def vlan_delta_def filter_delta_def del_def open_controlled_port_def
      close_controlled_port_def plan_close_def plan_eapol_trap_def split: option.splits)

text \<open>How the deltas act on the three things a posture reads.\<close>

lemma vlan_delta_frame:
  "(\<And>v. key \<noteq> vlan_member_key v port) \<Longrightarrow> run_store (vlan_delta port old new) st key = st key"
  by (auto simp: vlan_delta_def del_def split: option.splits)

lemma vlan_delta_members:
  "run_store (vlan_delta port old new) st (vlan_member_key w port) \<noteq> None \<longleftrightarrow>
     (if desired_vlan old = desired_vlan new then st (vlan_member_key w port) \<noteq> None
      else desired_vlan new = Some w \<or> (st (vlan_member_key w port) \<noteq> None \<and> desired_vlan old \<noteq> Some w))"
  by (auto simp: vlan_delta_def del_def key_simps split: option.splits)

lemma vlan_delta_bound: "bound (run_store (vlan_delta port old new) st) g q \<longleftrightarrow> bound st g q"
  by (simp add: vlan_delta_def del_def bound_other_key key_simps split: option.splits)

lemma filter_delta_frame:
  "(\<And>f. key \<noteq> acl_table_key f) \<Longrightarrow> run_store (filter_delta port old new) st key = st key"
  by (simp add: filter_delta_def list_op_other_key del: store_op.simps split: option.splits)

lemma filter_delta_bound:
  assumes "port_name_ok port"
  shows "bound (run_store (filter_delta port old new) st) g q \<longleftrightarrow>
    (if desired_filter old = desired_filter new \<or> q \<noteq> port then bound st g q
     else desired_filter new = Some g \<or> (bound st g q \<and> desired_filter old \<noteq> Some g))"
  by (auto simp: filter_delta_def bound_add [OF assms] bound_remove simp del: store_op.simps
      split: option.splits)

lemma open_frame:
  "key \<noteq> deny_rule_key port \<Longrightarrow> key \<noteq> eapol_permit_key port \<Longrightarrow>
     run_store (open_controlled_port port) st key = st key"
  "run_store (open_controlled_port port) st (deny_rule_key port) = None"
  "bound (run_store (open_controlled_port port) st) g q \<longleftrightarrow> bound st g q"
  by (simp_all add: open_controlled_port_def del_def bound_other_key key_simps)

lemma close_frame:
  assumes "port_name_ok port"
  shows "key \<noteq> deny_rule_key port \<Longrightarrow> key \<noteq> eapol_permit_key port \<Longrightarrow> key \<noteq> acl_table_key (deny_table port) \<Longrightarrow>
     run_store (close_controlled_port port) st key = st key"
    and "run_store (close_controlled_port port) st (deny_rule_key port) \<noteq> None"
    and "run_store (close_controlled_port port) st (eapol_permit_key port) \<noteq> None"
    and "bound (run_store (close_controlled_port port) st) g q \<longleftrightarrow>
      (if g = deny_table port then q = port else bound st g q)"
  using bound_deny_table [OF assms, of st g q]
  by (simp_all add: close_controlled_port_def key_simps bound_other_key)


lemma transition_members:
  assumes "port_name_ok port"
  shows "run_store (transition port old new) st (vlan_member_key w port) \<noteq> None \<longleftrightarrow>
    (if desired_vlan old = desired_vlan new then st (vlan_member_key w port) \<noteq> None
     else desired_vlan new = Some w \<or> (st (vlan_member_key w port) \<noteq> None \<and> desired_vlan old \<noteq> Some w))"
  using vlan_delta_members [of port old new st w]
  by (simp add: transition_def filter_delta_frame open_frame close_frame [OF assms] key_simps)

lemma transition_posture:
  assumes ok: "port_name_ok port" and wf: "desired_wf old" "desired_wf new" and p: "posture st port old"
  shows "posture (run_store (transition port old new) st) port new"
proof -
  let ?st = "run_store (transition port old new) st"
  have "\<forall>v. desired_vlan new = Some v \<longrightarrow> ?st (vlan_member_key v port) \<noteq> None"
    using p transition_members [OF ok, of old new st] by (auto simp: posture_def split: if_splits)
  moreover have "\<forall>f. desired_filter new = Some f \<and> \<not> is_deny_table f \<longrightarrow> bound ?st f port"
    using p wf
    by (auto simp: transition_def open_frame close_frame [OF ok] filter_delta_bound [OF ok]
        vlan_delta_bound posture_def desired_wf_def desired_default_def)
  moreover have "if authorized new then ?st (deny_rule_key port) = None
      else ?st (deny_rule_key port) \<noteq> None \<and> ?st (eapol_permit_key port) \<noteq> None \<and>
        bound ?st (deny_table port) port"
  proof (cases "authorized old = authorized new")
    case True
    then have "\<not> authorized new \<Longrightarrow> old = new" using wf by (simp add: desired_wf_def)
    then have "\<not> authorized new \<Longrightarrow> ?st = st"
      by (simp add: transition_def vlan_delta_def filter_delta_def)
    then show ?thesis
      using True p by (auto simp: posture_def transition_def filter_delta_frame vlan_delta_frame key_simps)
  next
    case False
    then show ?thesis by (simp add: transition_def open_frame close_frame [OF ok])
  qed
  ultimately show ?thesis by (simp add: posture_def)
qed

text \<open>The operations of a port, and that none of them touches what another port's posture reads.\<close>

definition own_op :: "string \<Rightarrow> Op \<Rightarrow> bool" where
  "own_op p x \<longleftrightarrow>
     (\<exists>key \<in> {EAPOL_TRAP_KEY, deny_rule_key p, eapol_permit_key p} \<union> range (\<lambda>v. vlan_member_key v p).
        (\<exists>fs. x = HSet key fs) \<or> x = Del key) \<or>
     (\<exists>f. x = ListAdd (acl_table_key f) ''ports'' p \<or> x = ListRemove (acl_table_key f) ''ports'' p) \<or>
     x = HSet (acl_table_key (deny_table p)) [(''type'', ''L3''), (''stage'', ''ingress''), (''ports'', p)]"

lemma own_ops:
  "\<forall>x \<in> set (transition p old new). own_op p (op_op x)"
  "\<forall>x \<in> set (plan_eapol_trap @ plan_close p). own_op p (op_op x)"
  by (auto simp: transition_def vlan_delta_def filter_delta_def del_def open_controlled_port_def
      close_controlled_port_def plan_close_def plan_eapol_trap_def own_op_def split: option.splits if_splits)

lemma own_op_frame:
  assumes ok: "port_name_ok p" "port_name_ok q" "q \<noteq> p" and x: "own_op p x" and post: "posture st q d"
  shows "posture (store_op x st) q d"
proof -
  let ?keys = "{EAPOL_TRAP_KEY, deny_rule_key p, eapol_permit_key p} \<union> range (\<lambda>v. vlan_member_key v p)"
  have other: "vlan_member_key v q \<noteq> vlan_member_key w p" for v w
    using vlan_member_key_ports [OF ok(2,1), of v w] ok(3) by simp
  have keep: "posture (st(key := h)) q d" if "key \<in> ?keys" for key h
    using that post ok(3) other by (auto simp: posture_def bound_other_key key_simps)
  have list: "posture st' q d" if "\<And>key. (\<And>f. key \<noteq> acl_table_key f) \<Longrightarrow> st' key = st key"
    "\<And>f. f = deny_table q \<or> \<not> is_deny_table f \<Longrightarrow> bound st' f q = bound st f q" for st'
    using that(1) [of "deny_rule_key q"] that(1) [of "eapol_permit_key q"] that(1) [of "vlan_member_key _ q"] that(2) post
    by (simp add: posture_def key_simps)
  from x show ?thesis
    unfolding own_op_def
  proof (elim disjE bexE exE)
    fix f
    assume "x = ListAdd (acl_table_key f) ''ports'' p"
    then show ?thesis
      by (intro list) (use ok(3) in \<open>simp_all add: bound_add [OF ok(1)] list_op_other_key del: store_op.simps\<close>)
  next
    fix f
    assume "x = ListRemove (acl_table_key f) ''ports'' p"
    then show ?thesis
      by (intro list) (use ok(3) in \<open>simp_all add: bound_remove list_op_other_key del: store_op.simps\<close>)
  next
    assume "x = HSet (acl_table_key (deny_table p)) [(''type'', ''L3''), (''stage'', ''ingress''), (''ports'', p)]"
    then have "posture (store_op (HSet (acl_table_key (deny_table p))
        [(''type'', ''L3''), (''stage'', ''ingress''), (''ports'', p)]) st) q d"
      using ok(3) is_deny_table_deny [of p]
      by (intro list) (auto simp: bound_deny_table [OF ok(1)] key_simps simp del: store_op.simps, simp)
    then show ?thesis by (simp only: \<open>x = _\<close>)
  qed (use keep in auto)
qed

lemma own_ops_frame:
  assumes "port_name_ok p" "port_name_ok q" "q \<noteq> p" "\<forall>x \<in> set ops. own_op p (op_op x)" "posture st q d"
  shows "posture (run_store ops st) q d"
  using assms(4,5) by (induction ops arbitrary: st) (auto intro: own_op_frame [OF assms(1-3)] simp del: store_op.simps)

section \<open>The contract of the enforcer\<close>

definition sonic_served :: "('c \<Rightarrow> databases) \<Rightarrow> 'c SonicEnforcer \<Rightarrow> string \<Rightarrow> bool" where
  "sonic_served content s p \<longleftrightarrow>
     (\<exists>d. applied s p = Some d \<and> desired_wf d \<and> posture (content (conn s) Config) p d)"

definition sonic_holds :: "('c \<Rightarrow> databases) \<Rightarrow> 'c SonicEnforcer \<Rightarrow> string \<Rightarrow> PortAuthorization \<Rightarrow> bool" where
  "sonic_holds content s p a \<longleftrightarrow> posture (content (conn s) Config) p (from_authorization a)"

definition port_kept :: "('c \<Rightarrow> databases) \<Rightarrow> string \<Rightarrow> 'c SonicEnforcer \<Rightarrow> 'c SonicEnforcer \<Rightarrow> bool" where
  "port_kept content q s s' \<longleftrightarrow>
     (\<forall>d. posture (content (conn s) Config) q d \<longrightarrow> posture (content (conn s') Config) q d) \<and>
     applied s' q = applied s q"

lemma then_do_kept:
  assumes "port_kept content q s (fst r)" "\<And>x s1. port_kept content q s1 (fst (f x s1))"
  shows "port_kept content q s (fst (then_do r f))"
  using assms by (cases r; cases "snd r") (auto simp: port_kept_def)

lemma remember_kept: "q \<noteq> p \<Longrightarrow> port_kept content q s (remember p d s)"
  by (simp add: port_kept_def remember_def)

context db_conn
begin

lemma on_confirm:
  assumes "on_conn (\<lambda>c. conn_confirm C c d key) s = (s', r)"
  shows "content (conn s') = content (conn s) \<and> applied s' = applied s \<and>
    (\<forall>b. r = Inr b \<longrightarrow> b = (content (conn s) d key \<noteq> None))"
  using assms confirm_same [of "conn s" d key] confirm_reads [of "conn s" d key]
  by (auto simp: on_conn_def Let_def split: prod.splits)

lemma require_present_spec:
  assumes "require_present C d key s = (s', r)"
  shows "content (conn s') = content (conn s) \<and> applied s' = applied s \<and>
    (r = Inr () \<longrightarrow> content (conn s) d key \<noteq> None)"
proof -
  obtain s1 x where x: "on_conn (\<lambda>c. conn_confirm C c d key) s = (s1, x)" by fastforce
  from on_confirm [OF x] assms show ?thesis
    by (cases x) (auto simp: require_present_def x split: if_splits)
qed

lemma require_absent_spec:
  assumes "require_absent C d key s = (s', r)"
  shows "content (conn s') = content (conn s) \<and> applied s' = applied s \<and>
    (r = Inr () \<longrightarrow> content (conn s) d key = None)"
proof -
  obtain s1 x where x: "on_conn (\<lambda>c. conn_confirm C c d key) s = (s1, x)" by fastforce
  from on_confirm [OF x] assms show ?thesis
    by (cases x) (auto simp: require_absent_def x split: if_splits)
qed

lemma on_apply:
  assumes "on_conn (\<lambda>c. conn_apply C c ops) s = (s', Inr ())"
  shows "content (conn s') = run_ops ops (content (conn s)) \<and> applied s' = applied s"
  using assms apply_ok [of "conn s" ops]
  by (auto simp: on_conn_def Let_def split: prod.splits)

lemma checks_change_nothing:
  "check_vlan new s = (s', r) \<Longrightarrow> s' = s"
  "check_filter C new s = (s', r) \<Longrightarrow> content (conn s') = content (conn s) \<and> applied s' = applied s"
  "confirm_change C port new s = (s', r) \<Longrightarrow> content (conn s') = content (conn s) \<and> applied s' = applied s"
  using require_present_spec require_absent_spec
  by (auto simp: check_vlan_def check_filter_def confirm_change_def split: option.splits if_splits)

lemma sonic_apply_ok:
  assumes "sonic_apply C s port t a = (s', Inr ())"
  shows "content (conn s') Config =
      run_store (transition port (previous s port) (from_authorization a)) (content (conn s) Config) \<and>
    applied s' = (applied s)(port \<mapsto> from_authorization a)"
proof -
  let ?new = "from_authorization a"
  from assms obtain s1 s2 s3 s4 where "check_vlan ?new s = (s1, Inr () :: 'e SonicError + unit)"
    "check_filter C ?new s1 = (s2, Inr ())"
    "on_conn (\<lambda>c. conn_apply C c (transition port (previous s2 port) ?new)) s2 = (s3, Inr ())"
    "confirm_change C port ?new s3 = (s4, Inr ())" "s' = remember port ?new s4"
    by (auto simp: sonic_apply_def Let_def then_do_ok_iff)
  moreover from this have "previous s2 port = previous s port"
    using checks_change_nothing(1,2) by (fastforce simp: previous_def)
  ultimately show ?thesis
    using checks_change_nothing on_apply
    by (fastforce simp: remember_def run_ops_config config_only)
qed

lemma sonic_ensure_ok:
  assumes "sonic_ensure_eapol_trap C s port = (s', Inr ())"
  shows "content (conn s') Config = run_store (plan_eapol_trap @ plan_close port) (content (conn s) Config) \<and>
    applied s' = (applied s)(port \<mapsto> desired_default)"
proof -
  from assms obtain s1 s2 s3 where
    "on_conn (\<lambda>c. conn_apply C c (plan_eapol_trap @ plan_close port)) s = (s1, Inr ())"
    "require_present C Config EAPOL_TRAP_KEY s1 = (s2, Inr ())"
    "require_present C Config (deny_rule_key port) s2 = (s3, Inr ())"
    "s' = remember port desired_default s3"
    by (auto simp: sonic_ensure_eapol_trap_def then_do_ok_iff)
  then show ?thesis
    using require_present_spec on_apply run_ops_config [OF config_only(2)]
    by (fastforce simp: remember_def)
qed

lemma close_posture:
  "port_name_ok port \<Longrightarrow>
     posture (run_store (plan_eapol_trap @ plan_close port) st) port desired_default"
  by (simp add: posture_def desired_default_def plan_close_def close_frame)

text \<open>
  A call for one port, successful or not, keeps the posture of every other port and what
  is remembered of it.
\<close>

lemma on_apply_kept:
  assumes ok: "port_name_ok p" "port_name_ok q" "q \<noteq> p"
    and ops: "\<forall>x \<in> set ops. own_op p (op_op x)" "list_all (\<lambda>x. op_db x = Config) ops"
  shows "port_kept content q s (fst (on_conn (\<lambda>c. conn_apply C c ops) s))"
proof -
  obtain c' x where x: "conn_apply C (conn s) ops = (c', x)" by fastforce
  have "\<exists>n. content c' = run_ops (take n ops) (content (conn s))"
  proof (cases x)
    case (Inr u)
    with apply_ok [of "conn s" ops c'] x have "content c' = run_ops (take (length ops) ops) (content (conn s))" by simp
    then show ?thesis by blast
  qed (use apply_err [of "conn s" ops c'] x in blast)
  then obtain n where n: "content c' = run_ops (take n ops) (content (conn s))" by blast
  have "list_all (\<lambda>x. op_db x = Config) (take n ops)" using ops(2) by (auto simp: list_all_iff dest: in_set_takeD)
  then have "content c' Config = run_store (take n ops) (content (conn s) Config)"
    by (simp add: n run_ops_config)
  moreover have "\<forall>x \<in> set (take n ops). own_op p (op_op x)" using ops(1) by (auto dest: in_set_takeD)
  ultimately show ?thesis
    using own_ops_frame [OF ok] x by (simp add: on_conn_def port_kept_def)
qed

lemma reads_kept:
  "port_kept content q s (fst (require_present C d key s))"
  "port_kept content q s (fst (check_vlan new s :: 'c SonicEnforcer \<times> ('e SonicError + unit)))"
  "port_kept content q s (fst (check_filter C new s))"
  "port_kept content q s (fst (confirm_change C port new s))"
proof -
  have kept: "port_kept content q s (fst out)"
    if "content (conn (fst out)) = content (conn s) \<and> applied (fst out) = applied s"
    for out :: "'c SonicEnforcer \<times> ('e SonicError + unit)"
    using that by (simp add: port_kept_def)
  show "port_kept content q s (fst (require_present C d key s))"
    using require_present_spec [of d key s] by (intro kept) (metis prod.collapse)
  show "port_kept content q s (fst (check_vlan new s :: 'c SonicEnforcer \<times> ('e SonicError + unit)))"
    by (intro kept) (simp add: check_vlan_def split: option.split)
  show "port_kept content q s (fst (check_filter C new s))"
    using checks_change_nothing(2) [of new s] by (intro kept) (metis prod.collapse)
  show "port_kept content q s (fst (confirm_change C port new s))"
    using checks_change_nothing(3) [of port new s] by (intro kept) (metis prod.collapse)
qed

lemma sonic_call_kept:
  assumes "port_name_ok (call_port c)" "port_name_ok q" "q \<noteq> call_port c"
  shows "port_kept content q s (perform (sonic_enforcer C) s c)"
proof (cases c)
  case (EnsureEapolTrap p)
  with assms show ?thesis
    by (auto simp: sonic_enforcer_def sonic_ensure_eapol_trap_def
        intro!: then_do_kept on_apply_kept [OF _ _ _ own_ops(2) config_only(2)] reads_kept remember_kept)
next
  case (Apply p t a)
  with assms show ?thesis
    by (auto simp: sonic_enforcer_def sonic_apply_def Let_def
        intro!: then_do_kept on_apply_kept [OF _ _ _ own_ops(1) config_only(1)] reads_kept remember_kept)
qed

text \<open>A port that is open but remembered as closed is never closed again.\<close>

lemma forgotten_open_port:
  assumes "applied s port = Some desired_default" "content (conn s) Config (deny_rule_key port) = None"
    and "sonic_apply C s port t Unauthorized = (s', r)"
  shows "isl r \<and> content (conn s') Config (deny_rule_key port) = None"
proof -
  have trans: "transition port desired_default desired_default = []"
    by (simp add: transition_def vlan_delta_def filter_delta_def)
  obtain s1 x where x: "on_conn (\<lambda>c. conn_apply C c []) s = (s1, x)" by fastforce
  have same: "content (conn s1) = content (conn s)"
    using x apply_ok [of "conn s" "[]"] apply_err [of "conn s" "[]"]
    by (cases "snd (conn_apply C (conn s) [])")
      (auto simp: on_conn_def run_ops_def Let_def split: prod.splits)
  have split: "sonic_apply C s port t Unauthorized =
      then_do (s1, x) (\<lambda>_ s. then_do (require_present C Config (deny_rule_key port) s)
        (\<lambda>_ s. (remember port desired_default s, Inr ())))"
    using assms(1) x
    by (simp add: sonic_apply_def check_vlan_def check_filter_def desired_default_def previous_def
        confirm_change_def Let_def trans [unfolded desired_default_def])
  show ?thesis
  proof (cases x)
    case (Inl e)
    with split assms same show ?thesis by simp
  next
    case (Inr u)
    obtain s2 y where y: "require_present C Config (deny_rule_key port) s1 = (s2, y)" by fastforce
    with require_present_spec [OF y] same assms(2) have "isl y"
      "content (conn s2) Config (deny_rule_key port) = None" by (cases y; simp)+
    then show ?thesis using split assms(3) Inr y by (cases y) auto
  qed
qed

text \<open>A failed application does not change what is remembered.\<close>

lemma failed_apply_remembers:
  assumes "sonic_apply C s port t a = (s', Inl e)"
  shows "applied s' = applied s"
proof -
  have "applied s1 = applied s" if "on_conn f s = (s1, r)" for f :: "'c \<Rightarrow> 'c \<times> ('e + unit)" and s s1 r
    using that by (auto simp: on_conn_def Let_def split: prod.splits)
  then show ?thesis
    using assms checks_change_nothing
    by (fastforce simp: sonic_apply_def Let_def then_do_err_iff)
qed

end

sublocale db_conn \<subseteq> sonic: enforcer
  "sonic_enforcer C" "sonic_served content" "sonic_holds content" port_name_ok
proof unfold_locales
  fix p s s'
  assume ok: "port_name_ok p" and e: "ensure_eapol_trap (sonic_enforcer C) s p = (s', Inr ())"
  then have "posture (content (conn s') Config) p desired_default \<and> applied s' p = Some desired_default"
    using sonic_ensure_ok [of s p s'] close_posture [OF ok] by (simp add: sonic_enforcer_def)
  then show "sonic_served content s' p \<and> sonic_holds content s' p Unauthorized"
    by (auto simp: sonic_served_def sonic_holds_def desired_wf_def)
next
  fix p s t a s'
  assume ok: "port_name_ok p" and sv: "sonic_served content s p"
    and e: "enforcer_apply (sonic_enforcer C) s p t a = (s', Inr ())"
  from sv have "posture (content (conn s) Config) p (previous s p) \<and> desired_wf (previous s p)"
    by (auto simp: sonic_served_def previous_def)
  then have "posture (content (conn s') Config) p (from_authorization a) \<and> applied s' p = Some (from_authorization a)"
    using sonic_apply_ok [of s p t a s'] transition_posture [OF ok] e by (simp add: sonic_enforcer_def)
  then show "sonic_served content s' p \<and> sonic_holds content s' p a"
    by (auto simp: sonic_served_def sonic_holds_def)
next
  fix c q s
  assume "port_name_ok (call_port c)" "port_name_ok q" "q \<noteq> call_port c" "sonic_served content s q"
  then show "sonic_served content (perform (sonic_enforcer C) s c) q \<and>
      (\<forall>b. sonic_holds content s q b \<longrightarrow> sonic_holds content (perform (sonic_enforcer C) s c) q b)"
    using sonic_call_kept [of c q s] by (auto simp: port_kept_def sonic_served_def sonic_holds_def)
qed

context db_conn
begin

lemma sonic_is_enforcer:
  "enforcer (sonic_enforcer C) (sonic_served content) (sonic_holds content) port_name_ok"
  by (rule sonic.enforcer_axioms)

end

end
