(* ===== verification/Rust_Fmt.thy ===== *)
theory Rust_Fmt
  imports Rust_Strings
begin

text \<open>
  The parts of \<open>core::fmt\<close> that the texts of errors use: \<open>Debug\<close> of \<open>str\<close> and
  \<open>char\<close> with their escapes, \<open>{:#06x}\<close>, signed decimals, and \<open>Display\<close> of
  \<open>std::io::Error\<close>. The Unicode tables behind \<open>is_printable\<close> and the C library's
  \<open>strerror\<close> are the record \<open>Renderings\<close>.
\<close>

section \<open>Numbers\<close>

fun hex_text :: "nat \<Rightarrow> string" where
  "hex_text n = (if n < 16 then [hex_lower n] else hex_text (n div 16) @ [hex_lower (n mod 16)])"

declare hex_text.simps [simp del]

text \<open>\<open>{:#06x}\<close> of a \<open>u16\<close>: \<open>0x\<close> and four digits.\<close>

definition fmt_06x :: "u16 \<Rightarrow> string" where
  "fmt_06x w =
     (let n = unat w
      in ''0x'' @ [hex_lower (n div 4096), hex_lower (n div 256 mod 16), hex_lower (n div 16 mod 16), hex_lower (n mod 16)])"

definition int_text :: "int \<Rightarrow> string" where
  "int_text n = (if n < 0 then ''-'' @ to_decimal (nat (- n)) else to_decimal (nat n))"

section \<open>Escapes\<close>

text \<open>
  \<open>uni_plain c\<close>: the tables print the code point \<open>c \<ge> 128\<close> as it is (printable, and
  not a grapheme extender). \<open>strerror\<close> is the C library's text of an error number.
\<close>

record Renderings =
  uni_plain :: "nat \<Rightarrow> bool"
  strerror :: "int \<Rightarrow> string"

definition plain_char :: "Renderings \<Rightarrow> nat \<Rightarrow> bool" where
  "plain_char R c \<longleftrightarrow> (if c < 128 then 32 \<le> c \<and> c < 127 else uni_plain R c)"

definition escape_unicode :: "nat \<Rightarrow> string" where
  "escape_unicode c = [CHR 0x5C, CHR ''u'', CHR 0x7B] @ hex_text c @ [CHR 0x7D]"

text \<open>
  \<open>char::escape_debug_ext\<close> of the code point \<open>c\<close>, whose UTF-8 octets are \<open>raw\<close>; \<open>quote\<close> is
  the quotation mark that is escaped.
\<close>

definition escape_debug :: "Renderings \<Rightarrow> char \<Rightarrow> nat \<Rightarrow> string \<Rightarrow> string" where
  "escape_debug R quote c raw =
     (if c = 0 then [CHR 0x5C, CHR ''0'']
      else if c = 9 then [CHR 0x5C, CHR ''t'']
      else if c = 13 then [CHR 0x5C, CHR ''r'']
      else if c = 10 then [CHR 0x5C, CHR ''n'']
      else if c = 0x5C then [CHR 0x5C, CHR 0x5C]
      else if c = of_char quote then [CHR 0x5C, quote]
      else if plain_char R c then raw
      else escape_unicode c)"

text \<open>
  The octets of a \<open>str\<close> are UTF-8, so that the second case does not occur on one.
\<close>

function debug_body :: "Renderings \<Rightarrow> bytes \<Rightarrow> string" where
  "debug_body R bs =
     (if bs = [] then []
      else (case utf8_next bs of
              (Some c, n) \<Rightarrow> escape_debug R (CHR 0x22) c (string_of_bytes (take n bs)) @ debug_body R (drop n bs)
            | (None, n) \<Rightarrow> string_of_bytes (take n bs) @ debug_body R (drop n bs)))"
  by pat_completeness auto
termination
  by (relation "measure (length \<circ> snd)") (auto dest: utf8_next_drop [OF sym])

declare debug_body.simps [simp del]

definition debug_str :: "Renderings \<Rightarrow> string \<Rightarrow> string" where
  "debug_str R s = [CHR 0x22] @ debug_body R (bytes_of_string s) @ [CHR 0x22]"

text \<open>\<open>char::encode_utf8\<close>.\<close>

definition encode_utf8 :: "nat \<Rightarrow> bytes" where
  "encode_utf8 c =
     (if c < 0x80 then [word_of_nat c]
      else if c < 0x800 then [word_of_nat (0xC0 + c div 64), word_of_nat (0x80 + c mod 64)]
      else if c < 0x10000 then
        [word_of_nat (0xE0 + c div 4096), word_of_nat (0x80 + c div 64 mod 64), word_of_nat (0x80 + c mod 64)]
      else
        [word_of_nat (0xF0 + c div 262144), word_of_nat (0x80 + c div 4096 mod 64),
         word_of_nat (0x80 + c div 64 mod 64), word_of_nat (0x80 + c mod 64)])"

definition debug_char :: "Renderings \<Rightarrow> nat \<Rightarrow> string" where
  "debug_char R c =
     [CHR 0x27] @ escape_debug R (CHR 0x27) c (string_of_bytes (encode_utf8 c)) @ [CHR 0x27]"

section \<open>\<open>std::io::Error\<close>\<close>

fun io_error_text :: "Renderings \<Rightarrow> IoError \<Rightarrow> string" where
  "io_error_text R (OsError code) = strerror R code @ '' (os error '' @ int_text code @ '')''"
| "io_error_text R (OtherError msg) = msg"

section \<open>Texts without control characters\<close>

text \<open>No ASCII control character: the text stays on one line of a log.\<close>

definition log_safe :: "string \<Rightarrow> bool" where
  "log_safe s \<longleftrightarrow> (\<forall>c \<in> set s. 32 \<le> (of_char c :: nat) \<and> (of_char c :: nat) \<noteq> 127)"

named_theorems safe_texts \<open>formats whose output has no control characters\<close>

lemma log_safe_simps [simp]:
  "log_safe []"
  "log_safe (c # s) \<longleftrightarrow> 32 \<le> (of_char c :: nat) \<and> (of_char c :: nat) \<noteq> 127 \<and> log_safe s"
  "log_safe (s @ t) \<longleftrightarrow> log_safe s \<and> log_safe t"
  by (auto simp: log_safe_def)

lemma to_decimal_safe [safe_texts, simp]: "log_safe (to_decimal n)"
  by (auto simp: log_safe_def of_char_digit dest!: to_decimal_set)

lemma hex_lower_safe: "n < 16 \<Longrightarrow> 32 \<le> (of_char (hex_lower n) :: nat) \<and> (of_char (hex_lower n) :: nat) \<noteq> 127"
  by (simp add: hex_lower_def of_char_of)

lemma hex_text_safe [safe_texts, simp]: "log_safe (hex_text n)"
proof (induction n rule: hex_text.induct)
  case (1 n)
  then show ?case
    using hex_lower_safe [of n] hex_lower_safe [of "n mod 16"] by (simp add: hex_text.simps [of n])
qed

lemma fmt_06x_safe [safe_texts, simp]: "log_safe (fmt_06x w)"
proof -
  have "unat w div 4096 < 16" using unat_u16_less [of w] by linarith
  then show ?thesis by (simp add: fmt_06x_def hex_lower_safe Let_def)
qed

lemma int_text_safe [safe_texts, simp]: "log_safe (int_text n)"
  by (simp add: int_text_def)

text \<open>The octets of a sequence that does not begin with an ASCII character are not ASCII.\<close>

lemma cont_high:
  "is_cont c \<Longrightarrow> 0x80 \<le> c" "second3 b c \<Longrightarrow> 0x80 \<le> c" "second4 b c \<Longrightarrow> 0x80 \<le> c"
proof -
  show cont: "is_cont c \<Longrightarrow> 0x80 \<le> c" by (simp add: is_cont_def)
  have "0x80 \<le> c" if "k \<le> c" "k = 0xA0 \<or> k = 0x90" for k
    using that by (auto intro: order_trans [of _ k])
  then show "second3 b c \<Longrightarrow> 0x80 \<le> c" "second4 b c \<Longrightarrow> 0x80 \<le> c"
    using cont by (auto simp: second3_def second4_def)
qed

lemma utf8_next_high:
  assumes "utf8_next (b # bs) = (r, n)" "0x80 \<le> b" "x \<in> set (take n (b # bs))"
  shows "0x80 \<le> x"
proof -
  have "x = b \<or> x \<in> set (take (n - 1) bs)" using assms(3) by (cases n) auto
  moreover have "0x80 \<le> x" if "x \<in> set (take (n - 1) bs)"
    using assms(1,2) that
    by (auto simp: utf8_next.simps numeral_2_eq_2 numeral_3_eq_3 split: if_splits list.splits dest: cont_high)
  ultimately show ?thesis using assms(2) by blast
qed

lemma raw_piece_safe:
  assumes "utf8_next bs = (r, n)" "bs \<noteq> []" "\<And>c. r = Some c \<Longrightarrow> c < 128 \<Longrightarrow> 32 \<le> c \<and> c < 127"
  shows "log_safe (string_of_bytes (take n bs))"
proof -
  obtain b rest where bs: "bs = b # rest" using assms(2) by (cases bs) auto
  show ?thesis
  proof (cases "b < 0x80")
    case True
    then have "r = Some (unat b)" "n = 1" using assms(1) utf8_next_ascii [of b rest] by (simp_all add: bs)
    moreover have "unat b < 128" using True by (simp add: word_less_nat_alt)
    ultimately show ?thesis
      using assms(3) by (simp add: bs string_of_bytes_def char_of_byte_def of_char_of)
  next
    case False
    have "128 \<le> unat x" if "x \<in> set (take n bs)" for x
      using utf8_next_high [OF assms(1) [unfolded bs]] False that by (simp add: bs not_less word_le_nat_alt)
    then show ?thesis
      by (fastforce simp: log_safe_def string_of_bytes_def char_of_byte_def of_char_of)
  qed
qed

lemma escape_debug_safe:
  assumes "plain_char R c \<Longrightarrow> log_safe raw" "32 \<le> (of_char quote :: nat)" "(of_char quote :: nat) \<noteq> 127"
  shows "log_safe (escape_debug R quote c raw)"
  using assms by (simp add: escape_debug_def escape_unicode_def)

lemma debug_body_safe: "log_safe (debug_body R bs)"
proof (induction R bs rule: debug_body.induct)
  case (1 R bs)
  show ?case
  proof (cases "bs = []")
    case False
    obtain r n where r: "utf8_next bs = (r, n)" by fastforce
    show ?thesis
    proof (cases r)
      case None
      with r False 1 show ?thesis
        using raw_piece_safe [OF r False] by (simp add: debug_body.simps [of R bs])
    next
      case (Some c)
      have "plain_char R c \<Longrightarrow> log_safe (string_of_bytes (take n bs))"
        using raw_piece_safe [OF r False] Some by (auto simp: plain_char_def)
      then have "log_safe (escape_debug R (CHR 0x22) c (string_of_bytes (take n bs)))"
        by (rule escape_debug_safe) simp_all
      with r Some False 1 show ?thesis by (simp add: debug_body.simps [of R bs])
    qed
  qed (simp add: debug_body.simps)
qed

lemma debug_str_safe [safe_texts, simp]: "log_safe (debug_str R s)"
  by (simp add: debug_str_def debug_body_safe)

lemma encode_utf8_high:
  assumes "0x80 \<le> c" "c < 0x110000" "x \<in> set (encode_utf8 c)"
  shows "0x80 \<le> unat x"
proof -
  have *: "unat (word_of_nat k :: u8) = k" if "k < 256" for k using that by (simp add: unat_of_nat)
  have "c mod 64 < 64" "c div 64 mod 64 < 64" "c div 4096 mod 64 < 64" by simp_all
  moreover have "c < 0x800 \<Longrightarrow> c div 64 < 32" "c < 0x10000 \<Longrightarrow> c div 4096 < 16" "c div 262144 < 8" using assms(2) by simp_all
  ultimately show ?thesis
    using assms(1,3) by (auto simp: encode_utf8_def * simp del: of_nat_add split: if_splits)
qed

lemma debug_char_safe:
  assumes "c < 0x110000"
  shows "log_safe (debug_char R c)"
proof -
  have "log_safe (string_of_bytes (encode_utf8 c))" if "plain_char R c"
  proof (cases "c < 0x80")
    case True
    with that show ?thesis
      by (simp add: plain_char_def encode_utf8_def string_of_bytes_def char_of_byte_def of_char_of unat_of_nat)
  next
    case False
    with encode_utf8_high [of c] assms show ?thesis
      by (fastforce simp: log_safe_def string_of_bytes_def char_of_byte_def of_char_of)
  qed
  then have "log_safe (escape_debug R (CHR 0x27) c (string_of_bytes (encode_utf8 c)))"
    by (rule escape_debug_safe) simp_all
  then show ?thesis by (simp add: debug_char_def)
qed

end
