(* ===== verification/Redis_Conn.thy ===== *)
theory Redis_Conn
  imports Enforce_Sonic Rust_Fmt
begin

text \<open>
  The production database connection (\<open>crates/enforce-sonic/src/redis_conn.rs\<close>): each
  declarative operation as Redis commands on the connection of its database. The
  Redis client is not part of the repository: its commands are the fields of the
  record \<open>Redis\<close> and the locale \<open>redis_server\<close> their documented meaning. Under it the connection
  meets the contract \<open>db_conn\<close>, hence the enforcer on top of it the contract of
  \<open>Enforce\<close>. \<open>mem_redis\<close> is an in-memory server, with a switch that makes reads fail.
\<close>

section \<open>The client\<close>

record ('r, 're) Redis =
  redis_open :: "'r \<Rightarrow> string \<Rightarrow> 'r \<times> ('re + unit)"
  redis_hset_multiple :: "'r \<Rightarrow> int \<Rightarrow> string \<Rightarrow> (string \<times> string) list \<Rightarrow> 'r \<times> ('re + unit)"
  redis_del :: "'r \<Rightarrow> int \<Rightarrow> string \<Rightarrow> 'r \<times> ('re + unit)"
  redis_hget :: "'r \<Rightarrow> int \<Rightarrow> string \<Rightarrow> string \<Rightarrow> 'r \<times> ('re + string option)"
  redis_hset :: "'r \<Rightarrow> int \<Rightarrow> string \<Rightarrow> string \<Rightarrow> string \<Rightarrow> 'r \<times> ('re + unit)"
  redis_exists :: "'r \<Rightarrow> int \<Rightarrow> string \<Rightarrow> 'r \<times> ('re + bool)"

datatype 're RedisError = NotConnected | Server 're

record 'r RedisDbConn =
  server :: 'r
  conns :: "int set"

definition CONNECTED_DBS :: "Db list" where
  "CONNECTED_DBS = [Config, Appl, Asic, Db.State]"

text \<open>A command on the server, its error wrapped.\<close>

definition command ::
    "('r \<Rightarrow> 'r \<times> ('re + 'a)) \<Rightarrow> 'r RedisDbConn \<Rightarrow> 'r RedisDbConn \<times> ('re RedisError + 'a)" where
  "command f c = (let (r, x) = f (server c) in (c\<lparr>server := r\<rparr>, map_err Server x))"

fun connect_loop ::
    "('r, 're) Redis \<Rightarrow> string \<Rightarrow> Db list \<Rightarrow> 'r RedisDbConn \<Rightarrow> 'r RedisDbConn \<times> ('re RedisError + unit)" where
  "connect_loop R base_url [] c = (c, Inr ())"
| "connect_loop R base_url (d # ds) c =
     then_do (command (\<lambda>r. redis_open R r (base_url @ ''/'' @ int_text (db_index d))) c) (\<lambda>_ c.
       connect_loop R base_url ds (c\<lparr>conns := insert (db_index d) (conns c)\<rparr>))"

definition redis_connect ::
    "('r, 're) Redis \<Rightarrow> string \<Rightarrow> 'r \<Rightarrow> 'r RedisDbConn \<times> ('re RedisError + unit)" where
  "redis_connect R base_url r = connect_loop R base_url CONNECTED_DBS \<lparr>server = r, conns = {}\<rparr>"

definition redis_db :: "Db \<Rightarrow> 'r RedisDbConn \<Rightarrow> 'r RedisDbConn \<times> ('re RedisError + int)" where
  "redis_db d c = (c, if db_index d \<in> conns c then Inr (db_index d) else Inl NotConnected)"

fun redis_op ::
    "('r, 're) Redis \<Rightarrow> int \<Rightarrow> Op \<Rightarrow> 'r RedisDbConn \<Rightarrow> 'r RedisDbConn \<times> ('re RedisError + unit)" where
  "redis_op R i (HSet key fs) c = command (\<lambda>r. redis_hset_multiple R r i key fs) c"
| "redis_op R i (Del key) c = command (\<lambda>r. redis_del R r i key) c"
| "redis_op R i (ListAdd key field value) c =
     then_do (command (\<lambda>r. redis_hget R r i key field) c) (\<lambda>current c.
       let items = (case current of
             Some s \<Rightarrow> filter (\<lambda>x. x \<noteq> []) (split_on (CHR '','') s) | None \<Rightarrow> []);
           items' = (if value \<notin> set items then items @ [value] else items)
       in command (\<lambda>r. redis_hset R r i key field (join_with (CHR '','') items')) c)"
| "redis_op R i (ListRemove key field value) c =
     then_do (command (\<lambda>r. redis_hget R r i key field) c) (\<lambda>current c.
       case current of
         None \<Rightarrow> (c, Inr ())
       | Some s \<Rightarrow>
           let items = filter (\<lambda>x. x \<noteq> [] \<and> x \<noteq> value) (split_on (CHR '','') s)
           in command (\<lambda>r. redis_hset R r i key field (join_with (CHR '','') items)) c)"

fun redis_apply ::
    "('r, 're) Redis \<Rightarrow> 'r RedisDbConn \<Rightarrow> DbOp list \<Rightarrow> 'r RedisDbConn \<times> ('re RedisError + unit)" where
  "redis_apply R c [] = (c, Inr ())"
| "redis_apply R c (p # ops) =
     then_do (redis_db (op_db p) c) (\<lambda>i c.
     then_do (redis_op R i (op_op p) c) (\<lambda>_ c. redis_apply R c ops))"

definition redis_confirm ::
    "('r, 're) Redis \<Rightarrow> 'r RedisDbConn \<Rightarrow> Db \<Rightarrow> string \<Rightarrow> 'r RedisDbConn \<times> ('re RedisError + bool)" where
  "redis_confirm R c d key =
     then_do (redis_db d c) (\<lambda>i c. command (\<lambda>r. redis_exists R r i key) c)"

definition redis_conn :: "('r, 're) Redis \<Rightarrow> ('r RedisDbConn, 're RedisError) DbConn" where
  "redis_conn R = \<lparr>conn_apply = redis_apply R, conn_confirm = redis_confirm R\<rparr>"

section \<open>What the commands promise\<close>

text \<open>
  \<open>rv r i\<close> is the content of logical database \<open>i\<close>. A write that fails may or may not
  have been executed.
\<close>

definition writes :: "('r \<Rightarrow> int \<Rightarrow> store) \<Rightarrow> 'r \<Rightarrow> int \<Rightarrow> (store \<Rightarrow> store) \<Rightarrow> 'r \<times> ('re + unit) \<Rightarrow> bool" where
  "writes rv r i f out \<longleftrightarrow>
     (case snd out of
        Inr _ \<Rightarrow> rv (fst out) = (rv r)(i := f (rv r i))
      | Inl _ \<Rightarrow> rv (fst out) = rv r \<or> rv (fst out) = (rv r)(i := f (rv r i)))"

definition redis_content :: "('r \<Rightarrow> int \<Rightarrow> store) \<Rightarrow> 'r RedisDbConn \<Rightarrow> databases" where
  "redis_content rv c d = rv (server c) (db_index d)"

lemma db_index_inject: "db_index d = db_index e \<longleftrightarrow> d = e"
  by (cases d; cases e) simp_all

lemma redis_content_write:
  assumes "rv (server c') = (rv (server c))(db_index d := f (rv (server c) (db_index d)))"
  shows "redis_content rv c' = (redis_content rv c)(d := f (redis_content rv c d))"
  using assms by (auto simp: fun_eq_iff redis_content_def db_index_inject)

lemma command_write:
  assumes "writes rv (server c) (db_index d) f (g (server c))" "command g c = (c', x)"
  shows "conns c' = conns c \<and>
    (isl x \<and> redis_content rv c' = redis_content rv c \<or>
     redis_content rv c' = (redis_content rv c)(d := f (redis_content rv c d)))"
proof -
  obtain r y where y: "g (server c) = (r, y)" by fastforce
  with assms have c': "c' = c\<lparr>server := r\<rparr>" and x: "x = map_err Server y"
    by (auto simp: command_def)
  from assms(1) have "isl y \<and> rv r = rv (server c) \<or>
      rv r = (rv (server c))(db_index d := f (rv (server c) (db_index d)))"
    by (cases y) (auto simp: writes_def y)
  then show ?thesis
    using redis_content_write [of rv c' c d f] c' x
    by (cases y) (auto simp: redis_content_def fun_eq_iff)
qed

locale redis_server =
  fixes R :: "('r, 're) Redis"
    and rv :: "'r \<Rightarrow> int \<Rightarrow> store"
  assumes law_hset_multiple: "writes rv r i (store_op (HSet key fs)) (redis_hset_multiple R r i key fs)"
    and law_del: "writes rv r i (store_op (Del key)) (redis_del R r i key)"
    and law_hset: "writes rv r i (\<lambda>st. st(key \<mapsto> (hash_of st key)(fld \<mapsto> v))) (redis_hset R r i key fld v)"
    and law_hget: "redis_hget R r i key fld = (r', x) \<Longrightarrow>
      rv r' = rv r \<and> (\<forall>v. x = Inr v \<longrightarrow> v = hash_of (rv r i) key fld)"
    and law_exists: "redis_exists R r i key = (r', y) \<Longrightarrow>
      rv r' = rv r \<and> (\<forall>b. y = Inr b \<longrightarrow> b = (rv r i key \<noteq> None))"
begin

lemma read_commands:
  "command (\<lambda>r. redis_hget R r (db_index d) key fld) c = (c', x) \<Longrightarrow>
     conns c' = conns c \<and> redis_content rv c' = redis_content rv c \<and>
     (\<forall>v. x = Inr v \<longrightarrow> v = hash_of (redis_content rv c d) key fld)"
  "command (\<lambda>r. redis_exists R r (db_index d) key) c = (c', y) \<Longrightarrow>
     conns c' = conns c \<and> redis_content rv c' = redis_content rv c \<and>
     (\<forall>b. y = Inr b \<longrightarrow> b = (redis_content rv c d key \<noteq> None))"
proof -
  assume a: "command (\<lambda>r. redis_hget R r (db_index d) key fld) c = (c', x)"
  obtain r z where z: "redis_hget R (server c) (db_index d) key fld = (r, z)" by fastforce
  from law_hget [OF z] a show "conns c' = conns c \<and> redis_content rv c' = redis_content rv c \<and>
     (\<forall>v. x = Inr v \<longrightarrow> v = hash_of (redis_content rv c d) key fld)"
    by (cases z) (auto simp: command_def z redis_content_def fun_eq_iff)
next
  assume a: "command (\<lambda>r. redis_exists R r (db_index d) key) c = (c', y)"
  obtain r z where z: "redis_exists R (server c) (db_index d) key = (r, z)" by fastforce
  from law_exists [OF z] a show "conns c' = conns c \<and> redis_content rv c' = redis_content rv c \<and>
     (\<forall>b. y = Inr b \<longrightarrow> b = (redis_content rv c d key \<noteq> None))"
    by (cases z) (auto simp: command_def z redis_content_def fun_eq_iff)
qed

lemma redis_op_spec:
  assumes "redis_op R (db_index d) p c = (c', x)"
  shows "conns c' = conns c \<and>
    (isl x \<and> redis_content rv c' = redis_content rv c \<or>
     redis_content rv c' = (redis_content rv c)(d := store_op p (redis_content rv c d)))"
proof (cases p)
  case (HSet key fs)
  with assms have "command (\<lambda>r. redis_hset_multiple R r (db_index d) key fs) c = (c', x)" by simp
  from command_write [OF law_hset_multiple this] show ?thesis by (simp only: HSet)
next
  case (Del key)
  with assms have "command (\<lambda>r. redis_del R r (db_index d) key) c = (c', x)" by simp
  from command_write [OF law_del this] show ?thesis by (simp only: Del)
next
  case (ListAdd key fld v)
  obtain c1 y where y: "command (\<lambda>r. redis_hget R r (db_index d) key fld) c = (c1, y)" by fastforce
  note r = read_commands(1) [OF y]
  show ?thesis
  proof (cases y)
    case (Inl e)
    with assms y r show ?thesis by (auto simp: ListAdd)
  next
    case (Inr cur)
    with r have cur: "cur = hash_of (redis_content rv c d) key fld" by simp
    let ?w = "join_with (CHR '','') (let items = (case cur of Some s \<Rightarrow> list_items s | None \<Rightarrow> [])
      in if v \<in> set items then items else items @ [v])"
    have "command (\<lambda>r. redis_hset R r (db_index d) key fld ?w) c1 = (c', x)"
      using assms y Inr by (cases cur) (auto simp: ListAdd Let_def list_items_def split: if_splits)
    from command_write [OF law_hset this] r show ?thesis
      by (simp add: ListAdd cur Let_def)
  qed
next
  case (ListRemove key fld v)
  obtain c1 y where y: "command (\<lambda>r. redis_hget R r (db_index d) key fld) c = (c1, y)" by fastforce
  note r = read_commands(1) [OF y]
  show ?thesis
  proof (cases y)
    case (Inl e)
    with assms y r show ?thesis by (auto simp: ListRemove)
  next
    case (Inr cur)
    with r have cur: "cur = hash_of (redis_content rv c d) key fld" by simp
    show ?thesis
    proof (cases cur)
      case None
      with assms y Inr have "c' = c1" by (simp add: ListRemove)
      moreover have "store_op p (redis_content rv c d) = redis_content rv c d"
        using None cur by (simp add: ListRemove)
      ultimately show ?thesis using r by simp
    next
      case (Some s)
      let ?w = "join_with (CHR '','') (filter (\<lambda>x. x \<noteq> v) (list_items s))"
      have "command (\<lambda>r. redis_hset R r (db_index d) key fld ?w) c1 = (c', x)"
        using assms y Inr Some by (simp add: ListRemove Let_def list_items_def conj_commute)
      note command_write [OF law_hset this]
      moreover have "hash_of (redis_content rv c d) key fld = Some s" using cur Some by simp
      ultimately show ?thesis using r by (simp add: ListRemove)
    qed
  qed
qed

lemma redis_apply_spec:
  assumes "redis_apply R c ops = (c', x)"
  shows "\<exists>n \<le> length ops. redis_content rv c' = run_ops (take n ops) (redis_content rv c) \<and>
    (x = Inr () \<longrightarrow> n = length ops)"
  using assms
proof (induction ops arbitrary: c)
  case Nil
  then show ?case by (simp add: run_ops_def)
next
  case (Cons p ops)
  show ?case
  proof (cases "db_index (op_db p) \<in> conns c")
    case False
    with Cons.prems show ?thesis by (auto simp: redis_db_def run_ops_def intro: exI [of _ 0])
  next
    case True
    obtain c1 y where y: "redis_op R (db_index (op_db p)) (op_op p) c = (c1, y)" by fastforce
    note spec = redis_op_spec [OF y]
    show ?thesis
    proof (cases y)
      case (Inl e)
      with Cons.prems True y have "c' = c1" "x = Inl e" by (auto simp: redis_db_def)
      with spec show ?thesis
        by (auto simp: run_ops_def db_op_def intro: exI [of _ 0] exI [of _ 1])
    next
      case (Inr u)
      with Cons.prems True y have "redis_apply R c1 ops = (c', x)" by (simp add: redis_db_def)
      from Cons.IH [OF this] obtain n where n: "n \<le> length ops"
        "redis_content rv c' = run_ops (take n ops) (redis_content rv c1)" "x = Inr () \<longrightarrow> n = length ops"
        by blast
      with spec Inr show ?thesis
        by (intro exI [of _ "Suc n"]) (simp add: run_ops_def db_op_def)
    qed
  qed
qed

end

sublocale redis_server \<subseteq> db: db_conn "redis_conn R" "redis_content rv"
proof unfold_locales
  fix c c' ops
  assume "conn_apply (redis_conn R) c ops = (c', Inr ())"
  then show "redis_content rv c' = run_ops ops (redis_content rv c)"
    using redis_apply_spec [of c ops c' "Inr ()"] by (auto simp: redis_conn_def)
next
  fix c c' ops e
  assume "conn_apply (redis_conn R) c ops = (c', Inl e)"
  then show "\<exists>n \<le> length ops. redis_content rv c' = run_ops (take n ops) (redis_content rv c)"
    using redis_apply_spec [of c ops c' "Inl e"] by (auto simp: redis_conn_def)
next
  fix c c' d key r
  assume "conn_confirm (redis_conn R) c d key = (c', r)"
  then show "redis_content rv c' = redis_content rv c"
    using read_commands(2) [of d key c]
    by (auto simp: redis_conn_def redis_confirm_def redis_db_def split: if_splits)
next
  fix c c' d key b
  assume "conn_confirm (redis_conn R) c d key = (c', Inr b)"
  then show "b = (redis_content rv c d key \<noteq> None)"
    using read_commands(2) [of d key c]
    by (auto simp: redis_conn_def redis_confirm_def redis_db_def split: if_splits)
qed

context redis_server
begin

lemma redis_db_conn: "db_conn (redis_conn R) (redis_content rv)"
  by (rule db.db_conn_axioms)

end

section \<open>An in-memory server\<close>

record MemServer =
  mem_data :: "int \<Rightarrow> store"
  reads_fail :: bool

definition mem_write :: "int \<Rightarrow> (store \<Rightarrow> store) \<Rightarrow> MemServer \<Rightarrow> MemServer \<times> (unit + unit)" where
  "mem_write i f r = (r\<lparr>mem_data := (mem_data r)(i := f (mem_data r i))\<rparr>, Inr ())"

definition mem_read :: "MemServer \<Rightarrow> 'a \<Rightarrow> MemServer \<times> (unit + 'a)" where
  "mem_read r x = (r, if reads_fail r then Inl () else Inr x)"

definition mem_redis :: "(MemServer, unit) Redis" where
  "mem_redis =
     \<lparr>redis_open = (\<lambda>r url. (r, Inr ())),
      redis_hset_multiple = (\<lambda>r i key fs. mem_write i (\<lambda>st. st(key \<mapsto> put_fields (hash_of st key) fs)) r),
      redis_del = (\<lambda>r i key. mem_write i (\<lambda>st. st(key := None)) r),
      redis_hget = (\<lambda>r i key fld. mem_read r (hash_of (mem_data r i) key fld)),
      redis_hset = (\<lambda>r i key fld v. mem_write i (\<lambda>st. st(key \<mapsto> (hash_of st key)(fld \<mapsto> v))) r),
      redis_exists = (\<lambda>r i key. mem_read r (mem_data r i key \<noteq> None))\<rparr>"

interpretation mem: redis_server mem_redis mem_data
  by unfold_locales (auto simp: mem_redis_def writes_def mem_write_def mem_read_def split: if_splits)


section \<open>Properties\<close>

text \<open>
  C11. The Redis connection implements the database contract: a successful \<open>apply\<close>
  leaves exactly the effect of the declarative operations, a failed one the effect
  of a prefix of them, and \<open>confirm\<close> tells whether the key exists.
\<close>

theorem redis_refines_operations:
  assumes "redis_server R rv"
  shows "(\<forall>c ops c'. redis_apply R c ops = (c', Inr ()) \<longrightarrow>
      redis_content rv c' = run_ops ops (redis_content rv c)) \<and>
    (\<forall>c ops c' e. redis_apply R c ops = (c', Inl e) \<longrightarrow>
      (\<exists>n \<le> length ops. redis_content rv c' = run_ops (take n ops) (redis_content rv c))) \<and>
    (\<forall>c d key c' b. redis_confirm R c d key = (c', Inr b) \<longrightarrow>
      redis_content rv c' = redis_content rv c \<and> b = (redis_content rv c d key \<noteq> None))"
proof -
  note db = redis_server.redis_db_conn [OF assms]
  show ?thesis
    using db_conn.apply_ok [OF db] db_conn.apply_err [OF db] db_conn.confirm_same [OF db]
      db_conn.confirm_reads [OF db]
    by (auto simp: redis_conn_def)
qed


definition sample_conn :: "MemServer RedisDbConn" where
  "sample_conn = fst (redis_connect mem_redis ''redis://127.0.0.1:6379''
     \<lparr>mem_data = (\<lambda>_. Map.empty), reads_fail = False\<rparr>)"

lemma sample_conn_simps:
  "conns sample_conn = {0, 1, 4, 6}"
  "server sample_conn = \<lparr>mem_data = (\<lambda>_. Map.empty), reads_fail = False\<rparr>"
  by (auto simp: sample_conn_def redis_connect_def CONNECTED_DBS_def command_def mem_redis_def)

theorem redis_refines_operations_witness:
  "redis_content mem_data (fst (redis_apply mem_redis sample_conn (plan_close ''Ethernet0''))) =
     run_ops (plan_close ''Ethernet0'') (redis_content mem_data sample_conn)"
proof -
  have "redis_apply mem_redis sample_conn (plan_close ''Ethernet0'') =
      (fst (redis_apply mem_redis sample_conn (plan_close ''Ethernet0'')), Inr ())"
    by (simp add: plan_close_def close_controlled_port_def redis_db_def sample_conn_simps command_def)
      (simp add: mem_redis_def mem_write_def sample_conn_simps)
  then show ?thesis
    using redis_refines_operations [OF mem.redis_server_axioms] by blast
qed



abbreviation sample_sonic :: "MemServer RedisDbConn SonicEnforcer" where
  "sample_sonic \<equiv> fst (sonic_ensure_eapol_trap (redis_conn mem_redis) (sonic_new sample_conn) ''Ethernet0'')"

lemmas sonic_eval =
  sonic_ensure_eapol_trap_def sonic_apply_def check_vlan_def check_filter_def confirm_change_def
  require_present_def require_absent_def on_conn_def remember_def previous_def sonic_new_def
  redis_conn_def redis_confirm_def redis_db_def command_def mem_redis_def mem_write_def mem_read_def
  plan_eapol_trap_def plan_close_def close_controlled_port_def open_controlled_port_def transition_def
  vlan_delta_def filter_delta_def del_def desired_default_def

lemma sample_sonic_run:
  "sonic_ensure_eapol_trap (redis_conn mem_redis) (sonic_new sample_conn) ''Ethernet0'' = (sample_sonic, Inr ())"
  by (simp add: sonic_eval sample_conn_simps key_simps)

lemma sample_sonic_served: "sonic_served (redis_content mem_data) sample_sonic ''Ethernet0''"
  using enforcer.ensure_confirms [OF db_conn.sonic_is_enforcer [OF mem.redis_db_conn], of "''Ethernet0''"
      "sonic_new sample_conn" sample_sonic] sample_sonic_run
  by (simp add: sonic_enforcer_def port_name_ok_def)

lemma sample_sonic_open:
  "\<exists>s'. sonic_apply (redis_conn mem_redis) sample_sonic ''Ethernet0'' Port (Authorized authorization_default)
     = (s', Inr ())"
  by (simp add: sonic_eval sample_conn_simps key_simps authorization_default_def)


text \<open>
  A VLAN move is complete: the operations of a transition make the port a member
  of the new VLAN, end its membership of the old one, and leave every other
  membership of the port as it was.
\<close>

theorem vlan_move_complete:
  assumes "port_name_ok port"
  shows "run_store (transition port old new) st (vlan_member_key w port) \<noteq> None \<longleftrightarrow>
    (if desired_vlan old = desired_vlan new then st (vlan_member_key w port) \<noteq> None
     else desired_vlan new = Some w \<or> (st (vlan_member_key w port) \<noteq> None \<and> desired_vlan old \<noteq> Some w))"
  by (rule transition_members [OF assms])

theorem vlan_move_complete_witness:
  "run_store (transition ''Ethernet0'' (desired_default\<lparr>desired_vlan := Some ''10''\<rparr>)
     (desired_default\<lparr>desired_vlan := Some ''20''\<rparr>)) Map.empty (vlan_member_key ''20'' ''Ethernet0'') \<noteq> None"
  using vlan_move_complete [of "''Ethernet0''" "desired_default\<lparr>desired_vlan := Some ''10''\<rparr>"
      "desired_default\<lparr>desired_vlan := Some ''20''\<rparr>" Map.empty "''20''"]
  by (simp add: port_name_ok_def)

text \<open>
  C30. What cannot be programmed changes nothing: an authorization with an unusable
  VLAN id or with a \<open>Filter-Id\<close> table that is not provisioned is refused with an error
  before any write, and the remembered posture stays.
\<close>

theorem unprogrammable_refused:
  assumes "db_conn C content"
    and "(\<exists>v. desired_vlan (from_authorization a) = Some v \<and> \<not> is_valid_vlan v) \<or>
      (\<exists>f. desired_filter (from_authorization a) = Some f \<and> content (conn s) Config (acl_table_key f) = None)"
  shows "isl (snd (sonic_apply C s p t a)) \<and>
    content (conn (fst (sonic_apply C s p t a))) = content (conn s) \<and>
    applied (fst (sonic_apply C s p t a)) = applied s"
proof (cases "\<exists>v. desired_vlan (from_authorization a) = Some v \<and> \<not> is_valid_vlan v")
  case True
  then show ?thesis by (auto simp: sonic_apply_def check_vlan_def Let_def)
next
  case False
  then have v: "check_vlan (from_authorization a) s = (s, Inr ())"
    by (auto simp: check_vlan_def split: option.splits)
  from False assms(2) obtain f where f: "desired_filter (from_authorization a) = Some f"
    "content (conn s) Config (acl_table_key f) = None" by blast
  obtain s1 r where r: "require_present C Config (acl_table_key f) s = (s1, r)" by fastforce
  from db_conn.require_present_spec [OF assms(1) r] f(2) have "isl r" by (cases r) auto
  then obtain e where "r = Inl e" by (cases r) auto
  then have "sonic_apply C s p t a = (s1, Inl e)"
    by (simp add: sonic_apply_def v check_filter_def f r Let_def)
  with db_conn.require_present_spec [OF assms(1) r] show ?thesis by simp
qed

theorem unprogrammable_refused_witness:
  "isl (snd (sonic_apply (redis_conn mem_redis) sample_sonic ''Ethernet0'' Port
     (Authorized (authorization_default\<lparr>filter_id := Some ''staff''\<rparr>))))"
proof -
  have "acl_table_key ''staff'' \<noteq> acl_table_key (deny_table ''Ethernet0'')"
    by (simp add: acl_table_key_def deny_table_def)
  then have "redis_content mem_data (conn sample_sonic) Config (acl_table_key ''staff'') = None"
    using db_conn.sonic_ensure_ok [OF mem.redis_db_conn sample_sonic_run]
    by (simp add: plan_eapol_trap_def plan_close_def close_controlled_port_def key_simps sonic_new_def
        redis_content_def sample_conn_simps)
  then show ?thesis
    using unprogrammable_refused [OF mem.redis_db_conn, where s = sample_sonic
      and a = "Authorized (authorization_default\<lparr>filter_id := Some ''staff''\<rparr>)"] by simp
qed


text \<open>The server as it is after reads started to fail.\<close>

definition deaf_sonic :: "MemServer RedisDbConn SonicEnforcer" where
  "deaf_sonic = sample_sonic\<lparr>conn := (conn sample_sonic)\<lparr>server := (server (conn sample_sonic))\<lparr>reads_fail := True\<rparr>\<rparr>\<rparr>"

lemma deaf_sonic_open:
  "\<exists>s1 e. sonic_apply (redis_conn mem_redis) deaf_sonic ''Ethernet0'' Port (Authorized authorization_default)
     = (s1, Inl e) \<and> redis_content mem_data (conn s1) Config (deny_rule_key ''Ethernet0'') = None"
  by (simp add: deaf_sonic_def sonic_eval sample_conn_simps key_simps authorization_default_def redis_content_def)


text \<open>
  VLAN ids are not canonical: the validation accepts spellings with a plus sign or
  leading zeros, which name CONFIG_DB entries other than the VLAN's own.
\<close>

theorem vlan_spelling_not_canonical:
  "is_valid_vlan ''42'' \<and> is_valid_vlan ''+42'' \<and> is_valid_vlan ''0042'' \<and>
   vlan_member_key ''+42'' p \<noteq> vlan_member_key ''42'' p \<and>
   vlan_member_key ''0042'' p \<noteq> vlan_member_key ''42'' p"
  by (simp add: is_valid_vlan_def parse_u16_def digit_val_def vlan_member_key_def)

end
