(* ===== verification/Redis_Race.thy ===== *)
theory Redis_Race
  imports Redis_Conn
begin

text \<open>
  The \<open>apply\<close> calls of several ports on one Redis server, interleaved command by command
  (\<open>crates/enforce-sonic/src/redis_conn.rs\<close>). Each command is awaited, so that between two
  commands of a call, also between the \<open>HGET\<close> and the \<open>HSET\<close> of one list operation, the tasks of
  other ports run. Alone, the commands of a call are those of \<open>redis_apply\<close>. Calls that work on
  different keys may be interleaved in any way; two list operations on one key may not.
\<close>

section \<open>The commands of an operation\<close>

datatype progress = Begun | Read "string option" | Ended

text \<open>The next command of an operation, and how far the operation is after it.\<close>

fun op_command ::
    "('r, 're) Redis \<Rightarrow> int \<Rightarrow> Op \<Rightarrow> progress \<Rightarrow> 'r RedisDbConn \<Rightarrow> 'r RedisDbConn \<times> ('re RedisError + progress)" where
  "op_command R i op Ended c = (c, Inr Ended)"
| "op_command R i (HSet key fs) p c =
     then_do (command (\<lambda>r. redis_hset_multiple R r i key fs) c) (\<lambda>_ c. (c, Inr Ended))"
| "op_command R i (Del key) p c = then_do (command (\<lambda>r. redis_del R r i key) c) (\<lambda>_ c. (c, Inr Ended))"
| "op_command R i (ListAdd key field value) Begun c =
     then_do (command (\<lambda>r. redis_hget R r i key field) c) (\<lambda>current c. (c, Inr (Read current)))"
| "op_command R i (ListAdd key field value) (Read current) c =
     (let items = (case current of
           Some s \<Rightarrow> filter (\<lambda>x. x \<noteq> []) (split_on (CHR '','') s) | None \<Rightarrow> []);
         items' = (if value \<notin> set items then items @ [value] else items)
      in then_do (command (\<lambda>r. redis_hset R r i key field (join_with (CHR '','') items')) c) (\<lambda>_ c. (c, Inr Ended)))"
| "op_command R i (ListRemove key field value) Begun c =
     then_do (command (\<lambda>r. redis_hget R r i key field) c) (\<lambda>current c.
       (c, Inr (if current = None then Ended else Read current)))"
| "op_command R i (ListRemove key field value) (Read current) c =
     (let items = filter (\<lambda>x. x \<noteq> [] \<and> x \<noteq> value) (split_on (CHR '','') (the current))
      in then_do (command (\<lambda>r. redis_hset R r i key field (join_with (CHR '','') items)) c) (\<lambda>_ c. (c, Inr Ended)))"

lemma then_do_assoc: "then_do (then_do r f) g = then_do r (\<lambda>x s. then_do (f x s) g)"
  by (simp add: then_do_def split: sum.splits)

lemma then_do_unit: "then_do r (\<lambda>_ s. (s, Inr ())) = r"
  by (cases r) (simp add: then_do_def split: sum.splits)

lemma op_command_alone:
  "redis_op R i op c =
     then_do (op_command R i op Begun c) (\<lambda>p c. then_do (op_command R i op p c) (\<lambda>_ c. (c, Inr ())))"
  by (cases op) (auto simp: then_do_assoc then_do_unit Let_def intro!: arg_cong [where f = "then_do _"] ext
      split: option.splits)

text \<open>The next command of an \<open>apply\<close> call that has the operations \<open>x # ops\<close> to go.\<close>

type_synonym task = "DbOp list \<times> progress"

fun task_command ::
    "('r, 're) Redis \<Rightarrow> task \<Rightarrow> 'r RedisDbConn \<Rightarrow> 'r RedisDbConn \<times> ('re RedisError + task)" where
  "task_command R ([], p) c = (c, Inr ([], p))"
| "task_command R (x # ops, p) c =
     then_do (redis_db (op_db x) c) (\<lambda>i c.
     then_do (op_command R i (op_op x) p c) (\<lambda>p' c.
       (c, Inr (if p' = Ended then (ops, Begun) else (x # ops, p')))))"

text \<open>
  A run of several calls: the schedule names the task whose next command is issued. There is no
  result when a command fails or when the task has none left.
\<close>

fun run_schedule ::
    "('r, 're) Redis \<Rightarrow> nat list \<Rightarrow> 'r RedisDbConn \<times> task list \<Rightarrow> ('r RedisDbConn \<times> task list) option" where
  "run_schedule R [] s = Some s"
| "run_schedule R (j # js) (c, ts) =
     (if j < length ts \<and> fst (ts ! j) \<noteq> [] then
        (case task_command R (ts ! j) c of
           (c', Inl e) \<Rightarrow> None
         | (c', Inr t) \<Rightarrow> run_schedule R js (c', ts[j := t]))
      else None)"

abbreviation begin_all :: "DbOp list list \<Rightarrow> task list" where
  "begin_all \<equiv> map (\<lambda>ops. (ops, Begun))"

abbreviation all_done :: "task list \<Rightarrow> bool" where
  "all_done ts \<equiv> \<forall>t \<in> set ts. fst t = []"

section \<open>Footprints\<close>

fun op_key :: "Op \<Rightarrow> string" where
  "op_key (HSet key _) = key"
| "op_key (Del key) = key"
| "op_key (ListAdd key _ _) = key"
| "op_key (ListRemove key _ _) = key"

definition keys_of :: "DbOp list \<Rightarrow> (Db \<times> string) set" where
  "keys_of ops = (\<lambda>x. (op_db x, op_key (op_op x))) ` set ops"

lemma keys_of_simps [simp]:
  "keys_of [] = {}"
  "keys_of (x # ops) = insert (op_db x, op_key (op_op x)) (keys_of ops)"
  "keys_of (xs @ ys) = keys_of xs \<union> keys_of ys"
  by (auto simp: keys_of_def)

definition same_on :: "(Db \<times> string) set \<Rightarrow> databases \<Rightarrow> databases \<Rightarrow> bool" where
  "same_on K a b \<longleftrightarrow> (\<forall>d k. (d, k) \<in> K \<longrightarrow> a d k = b d k)"

lemma store_op_other: "k \<noteq> op_key op \<Longrightarrow> store_op op st k = st k"
  by (cases op) (auto simp: Let_def split: option.splits)

lemma store_op_cong:
  assumes "a (op_key op) = b (op_key op)"
  shows "store_op op a (op_key op) = store_op op b (op_key op)"
  using assms by (cases op) (auto simp: hash_of_def Let_def split: option.splits)

lemma db_op_other: "(d, k) \<noteq> (op_db x, op_key (op_op x)) \<Longrightarrow> db_op dbs x d k = dbs d k"
  by (auto simp: db_op_def store_op_other simp del: store_op.simps)

lemma db_op_same:
  assumes "same_on K a b" "(op_db x, op_key (op_op x)) \<in> K"
  shows "same_on K (db_op a x) (db_op b x)"
proof -
  have "store_op (op_op x) (a (op_db x)) (op_key (op_op x)) = store_op (op_op x) (b (op_db x)) (op_key (op_op x))"
    using assms by (intro store_op_cong) (simp add: same_on_def)
  moreover have "db_op a x d k = db_op b x d k" if "(d, k) \<noteq> (op_db x, op_key (op_op x))" "(d, k) \<in> K" for d k
    using db_op_other [OF that(1)] that(2) assms(1) by (simp add: same_on_def)
  ultimately show ?thesis unfolding same_on_def by (metis db_op_def fun_upd_same prod.inject)
qed

lemma run_ops_simps:
  "run_ops [] dbs = dbs"
  "run_ops (x # ops) dbs = run_ops ops (db_op dbs x)"
  "run_ops (xs @ ys) dbs = run_ops ys (run_ops xs dbs)"
  by (simp_all add: run_ops_def)

lemma run_ops_other: "(d, k) \<notin> keys_of ops \<Longrightarrow> run_ops ops dbs d k = dbs d k"
  by (induction ops arbitrary: dbs) (simp_all add: run_ops_simps db_op_other)

lemma run_ops_same: "same_on K a b \<Longrightarrow> keys_of ops \<subseteq> K \<Longrightarrow> same_on K (run_ops ops a) (run_ops ops b)"
  by (induction ops arbitrary: a b) (simp_all add: run_ops_simps db_op_same)

text \<open>Calls no two of which share a key.\<close>

definition disjoint_calls :: "DbOp list list \<Rightarrow> bool" where
  "disjoint_calls calls \<longleftrightarrow>
     (\<forall>i < length calls. \<forall>j < length calls. i \<noteq> j \<longrightarrow> keys_of (calls ! i) \<inter> keys_of (calls ! j) = {})"

lemma disjoint_calls_Cons:
  assumes "disjoint_calls (x # calls)"
  shows "disjoint_calls calls" "keys_of x \<inter> keys_of (concat calls) = {}"
proof -
  from assms have "keys_of ((x # calls) ! Suc i) \<inter> keys_of ((x # calls) ! Suc j) = {}"
    if "i < length calls" "j < length calls" "i \<noteq> j" for i j
    using that unfolding disjoint_calls_def by (metis Suc_less_eq length_Cons nat.inject)
  then show "disjoint_calls calls" by (simp add: disjoint_calls_def)
  have "keys_of x \<inter> keys_of y = {}" if "y \<in> set calls" for y
  proof -
    from that obtain j where "j < length calls" "y = calls ! j" by (metis in_set_conv_nth)
    with assms show ?thesis
      unfolding disjoint_calls_def by (metis Suc_less_eq length_Cons nat.distinct(1) nth_Cons_0 nth_Cons_Suc zero_less_Suc)
  qed
  then show "keys_of x \<inter> keys_of (concat calls) = {}" by (auto simp: keys_of_def)
qed

lemma keys_of_concat: "keys_of (concat calls) = (\<Union>ops \<in> set calls. keys_of ops)"
  by (auto simp: keys_of_def)

lemma keys_of_nth: "j < length calls \<Longrightarrow> keys_of (calls ! j) \<subseteq> keys_of (concat calls)"
  using nth_mem by (auto simp: keys_of_concat)

text \<open>One after the other, each of them has the effect on its keys that it has alone.\<close>

lemma run_concat_own:
  assumes "disjoint_calls calls" "j < length calls"
  shows "same_on (keys_of (calls ! j)) (run_ops (concat calls) dbs) (run_ops (calls ! j) dbs)"
  using assms
proof (induction calls arbitrary: j dbs)
  case Nil
  then show ?case by simp
next
  case (Cons x calls)
  note dis = disjoint_calls_Cons [OF Cons.prems(1)]
  show ?case
  proof (cases j)
    case 0
    then show ?thesis using dis(2) by (auto simp: same_on_def run_ops_simps intro!: run_ops_other)
  next
    case (Suc i)
    with Cons.prems(2) have i: "i < length calls" by simp
    have "same_on (keys_of (calls ! i)) (run_ops x dbs) dbs"
      using dis(2) keys_of_nth [OF i] by (auto simp: same_on_def intro!: run_ops_other)
    from run_ops_same [OF this order.refl] Cons.IH [OF dis(1) i, of "run_ops x dbs"] show ?thesis
      by (simp add: Suc run_ops_simps same_on_def)
  qed
qed

section \<open>Runs of disjoint calls\<close>

text \<open>What a task has read is still what is there.\<close>

fun up_to_date :: "store \<Rightarrow> Op \<Rightarrow> progress \<Rightarrow> bool" where
  "up_to_date st (ListAdd key field value) (Read current) \<longleftrightarrow> current = hash_of st key field"
| "up_to_date st (ListRemove key field value) (Read current) \<longleftrightarrow>
     current = hash_of st key field \<and> current \<noteq> None"
| "up_to_date st op p \<longleftrightarrow> True"

lemma up_to_date_cong: "a (op_key op) = b (op_key op) \<Longrightarrow> up_to_date a op p = up_to_date b op p"
  by (cases op; cases p) (simp_all add: hash_of_def)

text \<open>
  \<open>in_step ops dbs now t\<close>: the task \<open>t\<close> has done a prefix of its call \<open>ops\<close>, on its keys the database
  \<open>now\<close> is what this prefix makes of \<open>dbs\<close>, and what the task has read is up to date.
\<close>

definition ready :: "databases \<Rightarrow> task \<Rightarrow> bool" where
  "ready now t \<longleftrightarrow> snd t \<noteq> Ended \<and>
     (case fst t of [] \<Rightarrow> True | x # _ \<Rightarrow> up_to_date (now (op_db x)) (op_op x) (snd t))"

definition in_step :: "DbOp list \<Rightarrow> databases \<Rightarrow> databases \<Rightarrow> task \<Rightarrow> bool" where
  "in_step ops dbs now t \<longleftrightarrow> ready now t \<and>
     (\<exists>past. ops = past @ fst t \<and> same_on (keys_of ops) now (run_ops past dbs))"

definition on_track :: "DbOp list list \<Rightarrow> databases \<Rightarrow> databases \<Rightarrow> task list \<Rightarrow> bool" where
  "on_track calls dbs now ts \<longleftrightarrow> length ts = length calls \<and>
     (\<forall>j < length calls. in_step (calls ! j) dbs now (ts ! j)) \<and>
     (\<forall>d k. (d, k) \<notin> keys_of (concat calls) \<longrightarrow> now d k = dbs d k)"

lemma ready_cong:
  assumes "ready a t" "same_on (keys_of (fst t)) a b"
  shows "ready b t"
  using assms up_to_date_cong [of "a (op_db x)" "op_op x" "b (op_db x)" for x]
  by (auto simp: ready_def same_on_def split: list.splits)

lemma in_step_other:
  assumes "in_step ops dbs now t" "same_on (keys_of ops) now now'"
  shows "in_step ops dbs now' t"
proof -
  from assms(1) obtain past where past: "ready now t" "ops = past @ fst t"
    "same_on (keys_of ops) now (run_ops past dbs)" by (auto simp: in_step_def)
  from past(2) assms(2) have "same_on (keys_of (fst t)) now now'" by (simp add: same_on_def)
  from ready_cong [OF past(1) this] past(2,3) assms(2) show ?thesis
    unfolding in_step_def same_on_def by metis
qed

lemma in_step_write:
  assumes "in_step ops dbs now (x # rest, p)"
  shows "in_step ops dbs (db_op now x) (rest, Begun)"
proof -
  from assms obtain past where past: "ops = past @ x # rest" "same_on (keys_of ops) now (run_ops past dbs)"
    by (auto simp: in_step_def)
  have "same_on (keys_of ops) (db_op now x) (run_ops (past @ [x]) dbs)"
    using db_op_same [OF past(2)] past(1) by (simp add: run_ops_simps)
  with past(1) show ?thesis
    by (auto simp: in_step_def ready_def intro!: exI [of _ "past @ [x]"] split: list.split)
qed

lemma on_track_write:
  assumes dis: "disjoint_calls calls" and tr: "on_track calls dbs now ts"
    and j: "j < length ts" "ts ! j = (x # rest, p)"
  shows "on_track calls dbs (db_op now x) (ts[j := (rest, Begun)])"
proof -
  let ?k = "(op_db x, op_key (op_op x))"
  from tr have len: "length ts = length calls" by (simp add: on_track_def)
  with tr j have mine: "in_step (calls ! j) dbs now (x # rest, p)" by (metis on_track_def)
  then have own: "?k \<in> keys_of (calls ! j)" by (auto simp: in_step_def)
  have "in_step (calls ! i) dbs (db_op now x) (ts ! i)" if i: "i < length calls" "i \<noteq> j" for i
  proof (rule in_step_other)
    show "in_step (calls ! i) dbs now (ts ! i)" using tr i(1) by (simp add: on_track_def)
    have "?k \<notin> keys_of (calls ! i)" using dis i own j(1) len by (auto simp: disjoint_calls_def)
    then show "same_on (keys_of (calls ! i)) now (db_op now x)"
      unfolding same_on_def by (metis db_op_other)
  qed
  moreover have "db_op now x d k = dbs d k" if "(d, k) \<notin> keys_of (concat calls)" for d k
    using that own keys_of_nth [of j calls] tr j(1) len db_op_other [of d k x now] by (auto simp: on_track_def)
  ultimately show ?thesis
    using in_step_write [OF mine] len j(1) by (auto simp: on_track_def nth_list_update)
qed

context redis_server
begin

lemma write_command:
  assumes "writes rv (server c) (db_index d) f (g (server c))"
    and "then_do (command g c) (\<lambda>_ c. (c, Inr Ended)) = (c', Inr p')"
  shows "p' = Ended \<and> redis_content rv c' = (redis_content rv c)(d := f (redis_content rv c d))"
proof -
  from assms(2) have "command g c = (c', Inr ())" and p': "p' = Ended" by (auto simp: then_do_ok_iff)
  from command_write [OF assms(1) this(1)] p' show ?thesis by simp
qed

lemma op_command_spec:
  assumes "op_command R (db_index d) op p c = (c', Inr p')" "p \<noteq> Ended"
    and "up_to_date (redis_content rv c d) op p"
  shows "if p' = Ended then redis_content rv c' = (redis_content rv c)(d := store_op op (redis_content rv c d))
    else redis_content rv c' = redis_content rv c \<and> up_to_date (redis_content rv c d) op p'"
proof (cases op)
  case (HSet key fs)
  with assms(1,2) have "then_do (command (\<lambda>r. redis_hset_multiple R r (db_index d) key fs) c)
      (\<lambda>_ c. (c, Inr Ended)) = (c', Inr p')" by (cases p) simp_all
  from write_command [OF law_hset_multiple this] show ?thesis by (simp only: HSet) simp
next
  case (Del key)
  with assms(1,2) have "then_do (command (\<lambda>r. redis_del R r (db_index d) key) c)
      (\<lambda>_ c. (c, Inr Ended)) = (c', Inr p')" by (cases p) simp_all
  from write_command [OF law_del this] show ?thesis by (simp only: Del) simp
next
  case (ListAdd key fld v)
  show ?thesis
  proof (cases p)
    case Begun
    with assms(1) ListAdd show ?thesis
      using read_commands(1) [of d key fld c] by (fastforce simp: then_do_ok_iff)
  next
    case (Read cur)
    let ?w = "join_with (CHR '','') (let items = (case cur of Some s \<Rightarrow> list_items s | None \<Rightarrow> [])
      in if v \<in> set items then items else items @ [v])"
    have w: "then_do (command (\<lambda>r. redis_hset R r (db_index d) key fld ?w) c) (\<lambda>_ c. (c, Inr Ended)) = (c', Inr p')"
      using assms(1) by (cases cur) (auto simp: ListAdd Read Let_def list_items_def split: if_splits)
    have "cur = hash_of (redis_content rv c d) key fld" using assms(3) by (simp add: ListAdd Read)
    with write_command [OF law_hset w] show ?thesis by (simp add: ListAdd Let_def)
  qed (use assms(2) in simp)
next
  case (ListRemove key fld v)
  show ?thesis
  proof (cases p)
    case Begun
    with assms(1) ListRemove show ?thesis
      using read_commands(1) [of d key fld c] by (fastforce simp: then_do_ok_iff split: if_splits)
  next
    case (Read cur)
    with assms(3) ListRemove obtain s where s: "cur = Some s" "hash_of (redis_content rv c d) key fld = Some s" by auto
    let ?w = "join_with (CHR '','') (filter (\<lambda>x. x \<noteq> v) (list_items s))"
    have "then_do (command (\<lambda>r. redis_hset R r (db_index d) key fld ?w) c) (\<lambda>_ c. (c, Inr Ended)) = (c', Inr p')"
      using assms(1) by (simp add: ListRemove Read s Let_def list_items_def conj_commute)
    from write_command [OF law_hset this] show ?thesis by (simp add: ListRemove s)
  qed (use assms(2) in simp)
qed

lemma task_command_spec:
  assumes "task_command R (x # ops, p) c = (c', Inr t)" "ready (redis_content rv c) (x # ops, p)"
  shows "(\<exists>p'. t = (x # ops, p') \<and> redis_content rv c' = redis_content rv c \<and> ready (redis_content rv c) t) \<or>
    t = (ops, Begun) \<and> redis_content rv c' = db_op (redis_content rv c) x"
proof -
  from assms(1) obtain p' where p': "op_command R (db_index (op_db x)) (op_op x) p c = (c', Inr p')"
    "t = (if p' = Ended then (ops, Begun) else (x # ops, p'))"
    by (auto simp: then_do_ok_iff redis_db_def split: if_splits)
  with op_command_spec [OF p'(1)] assms(2) show ?thesis
    by (simp add: ready_def db_op_def split: if_splits)
qed

lemma on_track_step:
  assumes dis: "disjoint_calls calls" and tr: "on_track calls dbs (redis_content rv c) ts"
    and j: "j < length ts" and step: "task_command R (ts ! j) c = (c', Inr t)" and ne: "fst (ts ! j) \<noteq> []"
  shows "on_track calls dbs (redis_content rv c') (ts[j := t])"
proof -
  from ne obtain x ops p where t0: "ts ! j = (x # ops, p)" by (cases "ts ! j"; cases "fst (ts ! j)") auto
  from tr j have "in_step (calls ! j) dbs (redis_content rv c) (x # ops, p)" by (metis on_track_def t0)
  then have rdy: "ready (redis_content rv c) (x # ops, p)"
    and same: "ready (redis_content rv c) (x # ops, p') \<Longrightarrow>
      in_step (calls ! j) dbs (redis_content rv c) (x # ops, p')" for p'
    by (simp_all add: in_step_def)
  from task_command_spec [OF step [unfolded t0] rdy] consider
      p' where "t = (x # ops, p')" "redis_content rv c' = redis_content rv c" "ready (redis_content rv c) t"
    | "t = (ops, Begun)" "redis_content rv c' = db_op (redis_content rv c) x" by blast
  then show ?thesis
  proof cases
    case 1
    with same tr j show ?thesis by (simp add: on_track_def nth_list_update)
  next
    case 2
    with on_track_write [OF dis tr j t0] show ?thesis by simp
  qed
qed

lemma on_track_schedule:
  assumes "disjoint_calls calls" "on_track calls dbs (redis_content rv c) ts"
    and "run_schedule R js (c, ts) = Some (c', ts')"
  shows "on_track calls dbs (redis_content rv c') ts'"
  using assms(2,3)
proof (induction js arbitrary: c ts)
  case Nil
  then show ?case by simp
next
  case (Cons j js)
  obtain c1 y where y: "task_command R (ts ! j) c = (c1, y)" by fastforce
  with Cons.prems(2) obtain t where t: "y = Inr t" "j < length ts" "fst (ts ! j) \<noteq> []"
    "run_schedule R js (c1, ts[j := t]) = Some (c', ts')" by (cases y) (auto split: if_splits)
  from on_track_step [OF assms(1) Cons.prems(1) t(2) y [unfolded t(1)] t(3)] t(4) show ?case
    by (rule Cons.IH)
qed

lemma disjoint_serial:
  assumes dis: "disjoint_calls calls" and run: "run_schedule R js (c, begin_all calls) = Some (c', ts')"
    and fin: "all_done ts'"
  shows "redis_content rv c' = run_ops (concat calls) (redis_content rv c)"
proof (intro ext)
  fix d k
  let ?dbs = "redis_content rv c"
  have "in_step ops ?dbs ?dbs (ops, Begun)" for ops
    by (auto simp: in_step_def ready_def same_on_def run_ops_simps split: list.split)
  then have "on_track calls ?dbs ?dbs (begin_all calls)" by (simp add: on_track_def)
  from on_track_schedule [OF dis this run] have tr: "on_track calls ?dbs (redis_content rv c') ts'" .
  show "redis_content rv c' d k = run_ops (concat calls) ?dbs d k"
  proof (cases "(d, k) \<in> keys_of (concat calls)")
    case False
    with tr show ?thesis by (simp add: on_track_def run_ops_other)
  next
    case True
    then obtain j where j: "j < length calls" "(d, k) \<in> keys_of (calls ! j)"
      by (auto simp: keys_of_concat in_set_conv_nth)
    from tr j(1) have "in_step (calls ! j) ?dbs (redis_content rv c') (ts' ! j)" "length ts' = length calls"
      by (simp_all add: on_track_def)
    with fin j(1) have "same_on (keys_of (calls ! j)) (redis_content rv c') (run_ops (calls ! j) ?dbs)"
      by (auto simp: in_step_def)
    with run_concat_own [OF dis j(1), of ?dbs] j(2) show ?thesis by (simp add: same_on_def)
  qed
qed

end

section \<open>Ports that are moved at the same time\<close>

text \<open>The \<open>Filter-Id\<close> tables whose binding list a transition rewrites.\<close>

definition rebound :: "Desired \<Rightarrow> Desired \<Rightarrow> string set" where
  "rebound old new =
     (if desired_filter old = desired_filter new then {}
      else set_option (desired_filter old) \<union> set_option (desired_filter new))"

definition port_keys :: "string \<Rightarrow> string set" where
  "port_keys p = {deny_rule_key p, eapol_permit_key p, acl_table_key (deny_table p)} \<union>
     range (\<lambda>v. vlan_member_key v p)"

lemma transition_keys:
  "keys_of (transition p old new) \<subseteq> {Config} \<times> (port_keys p \<union> acl_table_key ` rebound old new)"
  by (auto simp: transition_def vlan_delta_def filter_delta_def del_def open_controlled_port_def
      close_controlled_port_def rebound_def port_keys_def split: option.splits)

lemma port_keys_disjoint:
  assumes "port_name_ok p" "port_name_ok q" "p \<noteq> q"
  shows "port_keys p \<inter> port_keys q = {}"
  using vlan_member_key_ports [OF assms(1,2)] assms(3) by (auto simp: port_keys_def key_simps)

lemma transitions_disjoint:
  assumes "port_name_ok p" "port_name_ok q" "p \<noteq> q"
    and "rebound old new \<inter> rebound old' new' = {}"
    and "\<forall>f \<in> rebound old new \<union> rebound old' new'. \<not> is_deny_table f"
  shows "keys_of (transition p old new) \<inter> keys_of (transition q old' new') = {}"
proof -
  have "acl_table_key f \<notin> port_keys r" if "f \<in> rebound old new \<union> rebound old' new'" for f r
    using that bspec [OF assms(5), of "deny_table r"] by (auto simp: port_keys_def key_simps)
  with assms(4) port_keys_disjoint [OF assms(1-3)]
  have "(port_keys p \<union> acl_table_key ` rebound old new) \<inter> (port_keys q \<union> acl_table_key ` rebound old' new') = {}"
    by (auto simp: key_simps)
  then show ?thesis using transition_keys [of p old new] transition_keys [of q old' new'] by blast
qed

text \<open>One after the other, transitions of different ports give each port its new posture.\<close>

type_synonym move = "string \<times> Desired \<times> Desired"

definition move_calls :: "move list \<Rightarrow> DbOp list list" where
  "move_calls = map (\<lambda>(p, old, new). transition p old new)"

lemma move_calls_simps [simp]:
  "move_calls [] = []"
  "move_calls ((p, old, new) # moves) = transition p old new # move_calls moves"
  by (simp_all add: move_calls_def)

definition move_ok :: "store \<Rightarrow> move \<Rightarrow> bool" where
  "move_ok st = (\<lambda>(p, old, new). port_name_ok p \<and> desired_wf old \<and> desired_wf new \<and> posture st p old)"

lemma serial_frame:
  assumes "port_name_ok q" "\<forall>r \<in> fst ` set moves. port_name_ok r \<and> r \<noteq> q" "posture st q d"
  shows "posture (run_store (concat (move_calls moves)) st) q d"
  using assms(2,3)
proof (induction moves arbitrary: st)
  case (Cons m moves)
  obtain r a b where m: "m = (r, a, b)" by (cases m)
  from Cons.prems have "posture (run_store (transition r a b) st) q d"
    by (intro own_ops_frame [OF _ assms(1) _ own_ops(1)]) (auto simp: m)
  from Cons.IH [OF _ this] Cons.prems(1) show ?case by (simp add: m)
qed simp

lemma serial_postures:
  assumes "distinct (map fst moves)" "\<forall>m \<in> set moves. move_ok st m" "(p, old, new) \<in> set moves"
  shows "posture (run_store (concat (move_calls moves)) st) p new"
  using assms
proof (induction moves arbitrary: st)
  case (Cons m moves)
  obtain q a b where m: "m = (q, a, b)" by (cases m)
  let ?st = "run_store (transition q a b) st"
  from Cons.prems(2) have q: "port_name_ok q" "desired_wf a" "desired_wf b" "posture st q a"
    by (auto simp: m move_ok_def)
  from Cons.prems(1,2) have others: "\<forall>r \<in> fst ` set moves. port_name_ok r \<and> r \<noteq> q"
    by (auto simp: m move_ok_def rev_image_eqI)
  show ?case
  proof (cases "(p, old, new) = m")
    case True
    with serial_frame [OF q(1) others transition_posture [OF q]] show ?thesis by (simp add: m)
  next
    case False
    have "move_ok ?st x" if x: "x \<in> set moves" for x
    proof -
      obtain r c d where r: "x = (r, c, d)" by (cases x)
      with x others have "port_name_ok r" "r \<noteq> q" by force+
      then have "posture ?st r c" if "posture st r c"
        using own_ops_frame [OF q(1) _ _ own_ops(1) that] by blast
      with Cons.prems(2) x r show ?thesis by (fastforce simp: move_ok_def)
    qed
    with False Cons.prems show ?thesis using Cons.IH [of ?st] by (auto simp: m)
  qed
qed simp

lemma move_calls_disjoint:
  assumes "distinct (map fst moves)" "\<forall>m \<in> set moves. move_ok st m"
    and "\<forall>(p, old, new) \<in> set moves. \<forall>f \<in> rebound old new. \<not> is_deny_table f \<and>
      (\<forall>(q, old', new') \<in> set moves. f \<in> rebound old' new' \<longrightarrow> q = p)"
  shows "disjoint_calls (move_calls moves)"
proof -
  have "keys_of (move_calls moves ! i) \<inter> keys_of (move_calls moves ! j) = {}"
    if ij: "i < length moves" "j < length moves" "i \<noteq> j" for i j
  proof -
    obtain p a b where p: "moves ! i = (p, a, b)" by (cases "moves ! i")
    obtain q c d where q: "moves ! j = (q, c, d)" by (cases "moves ! j")
    have mem: "(p, a, b) \<in> set moves" "(q, c, d) \<in> set moves" using nth_mem ij p q by metis+
    have "map fst moves ! i \<noteq> map fst moves ! j" 
      using assms(1) ij nth_eq_iff_index_eq [of "map fst moves" i j] by simp
    with ij p q have "p \<noteq> q" by simp
    moreover have "port_name_ok p" "port_name_ok q" using assms(2) mem by (auto simp: move_ok_def)
    moreover have "rebound a b \<inter> rebound c d = {}" using assms(3) mem \<open>p \<noteq> q\<close> by fast
    moreover have "\<forall>f \<in> rebound a b \<union> rebound c d. \<not> is_deny_table f" using assms(3) mem by fast
    ultimately show ?thesis
      using transitions_disjoint ij p q by (simp add: move_calls_def)
  qed
  then show ?thesis by (simp add: disjoint_calls_def move_calls_def)
qed

section \<open>Two list operations on one key\<close>

definition bind_port :: "string \<Rightarrow> string \<Rightarrow> DbOp" where
  "bind_port f p = \<lparr>op_db = Config, op_op = ListAdd (acl_table_key f) ''ports'' p\<rparr>"

abbreviation open_with :: "string \<Rightarrow> Desired" where
  "open_with f \<equiv> desired_default\<lparr>authorized := True, desired_filter := Some f\<rparr>"

lemma transition_open_with:
  "transition p desired_default (open_with f) = bind_port f p # open_controlled_port p"
  by (simp add: transition_def vlan_delta_def filter_delta_def desired_default_def bind_port_def)

lemma run_schedule_Cons:
  "run_schedule R (j # js) (c, ts) = Some s \<longleftrightarrow>
     j < length ts \<and> fst (ts ! j) \<noteq> [] \<and>
     (\<exists>c' t. task_command R (ts ! j) c = (c', Inr t) \<and> run_schedule R js (c', ts[j := t]) = Some s)"
  by (auto split: prod.splits sum.splits)

context redis_server
begin

lemma bind_reads:
  assumes "task_command R (bind_port f p # ops, Begun) c = (c', Inr t)"
  shows "t = (bind_port f p # ops, Read (hash_of (redis_content rv c Config) (acl_table_key f) ''ports'')) \<and>
    redis_content rv c' = redis_content rv c"
proof -
  from assms obtain v where
    "command (\<lambda>r. redis_hget R r (db_index Config) (acl_table_key f) ''ports'') c = (c', Inr v)"
    "t = (bind_port f p # ops, Read v)"
    by (auto simp: bind_port_def then_do_ok_iff redis_db_def simp del: db_index.simps split: if_splits)
  with read_commands(1) show ?thesis by blast
qed

text \<open>The write replaces the list by what was read and the port, whatever the list is by then.\<close>

lemma bind_writes:
  assumes "task_command R (bind_port f p # ops, Read (hash_of st (acl_table_key f) ''ports'')) c = (c', Inr t)"
    and "(redis_content rv c Config)(acl_table_key f := None) = st(acl_table_key f := None)"
    and "\<And>fld. fld \<noteq> ''ports'' \<Longrightarrow>
      hash_of (redis_content rv c Config) (acl_table_key f) fld = hash_of st (acl_table_key f) fld"
  shows "t = (ops, Begun) \<and> redis_content rv c' =
    (redis_content rv c)(Config := store_op (ListAdd (acl_table_key f) ''ports'' p) st)"
proof -
  let ?k = "acl_table_key f" and ?now = "redis_content rv c Config"
  define w where "w = join_with (CHR '','') (let items = (case hash_of st ?k ''ports'' of
    Some s \<Rightarrow> list_items s | None \<Rightarrow> []) in if p \<in> set items then items else items @ [p])"
  obtain p' where p': "op_command R (db_index Config) (ListAdd ?k ''ports'' p) (Read (hash_of st ?k ''ports'')) c
      = (c', Inr p')" "t = (if p' = Ended then (ops, Begun) else (bind_port f p # ops, p'))"
    using assms(1) by (auto simp: bind_port_def then_do_ok_iff redis_db_def
        simp del: db_index.simps op_command.simps split: if_splits)
  have "then_do (command (\<lambda>r. redis_hset R r (db_index Config) ?k ''ports'' w) c) (\<lambda>_ c. (c, Inr Ended)) = (c', Inr p')"
    using p'(1) by (auto simp: w_def Let_def list_items_def simp del: db_index.simps split: option.splits if_splits)
  from write_command [OF law_hset this] p'(2)
  have "t = (ops, Begun) \<and> redis_content rv c' =
      (redis_content rv c)(Config := ?now(?k \<mapsto> (hash_of ?now ?k)(''ports'' \<mapsto> w)))" by simp
  moreover have "?now(?k \<mapsto> h) = st(?k \<mapsto> h)" for h using assms(2) by (metis fun_upd_upd)
  moreover have "(hash_of ?now ?k)(''ports'' \<mapsto> w) = (hash_of st ?k)(''ports'' \<mapsto> w)"
    using assms(3) by (simp add: fun_eq_iff)
  ultimately show ?thesis by (simp add: w_def Let_def)
qed

text \<open>Both calls read before either writes: the first write is overwritten.\<close>

lemma first_write_lost:
  assumes "run_schedule R (0 # 1 # 0 # 1 # js) (c, [(bind_port f p # xs, Begun), (bind_port f q # ys, Begun)]) = Some s"
  shows "\<exists>c'. redis_content rv c' = db_op (redis_content rv c) (bind_port f q) \<and>
    run_schedule R js (c', [(xs, Begun), (ys, Begun)]) = Some s"
proof -
  let ?k = "acl_table_key f" and ?st = "redis_content rv c Config"
  let ?read = "Read (hash_of ?st ?k ''ports'')"
  from assms obtain c1 t1 c2 t2 where
    c1: "task_command R (bind_port f p # xs, Begun) c = (c1, Inr t1)"
    and c2: "task_command R (bind_port f q # ys, Begun) c1 = (c2, Inr t2)"
    and s2: "run_schedule R (0 # 1 # js) (c2, [t1, t2]) = Some s"
    by (auto simp: run_schedule_Cons simp del: run_schedule.simps task_command.simps)
  from bind_reads [OF c1] have t1: "t1 = (bind_port f p # xs, ?read)" "redis_content rv c1 = redis_content rv c"
    by simp_all
  from bind_reads [OF c2] t1(2) have t2: "t2 = (bind_port f q # ys, ?read)" "redis_content rv c2 = redis_content rv c"
    by simp_all
  from s2 obtain c3 t3 c4 t4 where c3: "task_command R (bind_port f p # xs, ?read) c2 = (c3, Inr t3)"
    and c4: "task_command R (bind_port f q # ys, ?read) c3 = (c4, Inr t4)"
    and s4: "run_schedule R js (c4, [t3, t4]) = Some s"
    unfolding t1(1) t2(1)
    by (auto simp: run_schedule_Cons simp del: run_schedule.simps task_command.simps)
  from bind_writes [OF c3] t2(2) have t3: "t3 = (xs, Begun)"
    "redis_content rv c3 = (redis_content rv c)(Config := store_op (ListAdd ?k ''ports'' p) ?st)" by simp_all
  have "t4 = (ys, Begun) \<and> redis_content rv c4 =
      (redis_content rv c3)(Config := store_op (ListAdd ?k ''ports'' q) ?st)"
    by (rule bind_writes [OF c4]) (auto simp: t3(2) Let_def hash_of_def)
  with s4 t3 show ?thesis by (auto simp: db_op_def bind_port_def simp del: store_op.simps)
qed

end

section \<open>Properties\<close>

text \<open>
  C12. Ports may be moved at the same time: when the \<open>apply\<close> calls of transitions of different ports
  are interleaved command by command in any order and all succeed, every port has its new posture
  as if they had run one after the other, provided that no two of them rewrite the binding list of
  the same \<open>Filter-Id\<close> table (and none that of a default-deny table).
\<close>

theorem concurrent_transitions_hold:
  assumes "redis_server R rv"
    and "distinct (map fst moves)" "\<forall>m \<in> set moves. move_ok (redis_content rv c Config) m"
    and "\<forall>(p, old, new) \<in> set moves. \<forall>f \<in> rebound old new. \<not> is_deny_table f \<and>
      (\<forall>(q, old', new') \<in> set moves. f \<in> rebound old' new' \<longrightarrow> q = p)"
    and "run_schedule R js (c, begin_all (move_calls moves)) = Some (c', ts)" "all_done ts"
  shows "redis_content rv c' = run_ops (concat (move_calls moves)) (redis_content rv c) \<and>
    (\<forall>(p, old, new) \<in> set moves. posture (redis_content rv c' Config) p new)"
proof -
  have same: "redis_content rv c' = run_ops (concat (move_calls moves)) (redis_content rv c)"
    by (rule redis_server.disjoint_serial [OF assms(1) move_calls_disjoint [OF assms(2-4)] assms(5,6)])
  have "list_all (\<lambda>p. op_db p = Config) (concat (move_calls moves))"
    using config_only(1) by (auto simp: move_calls_def list_all_iff)
  from run_ops_config [OF this] same serial_postures [OF assms(2,3)] show ?thesis by auto
qed

text \<open>Two closed ports on the in-memory server.\<close>

definition closed_pair :: "MemServer RedisDbConn" where
  "closed_pair = fst (redis_apply mem_redis sample_conn (plan_close ''Ethernet0'' @ plan_close ''Ethernet1''))"

lemma closed_pair_run:
  "redis_apply mem_redis sample_conn (plan_close ''Ethernet0'' @ plan_close ''Ethernet1'') = (closed_pair, Inr ())"
  by (simp add: closed_pair_def plan_close_def close_controlled_port_def redis_db_def sample_conn_simps command_def
      mem_redis_def mem_write_def)

lemma closed_pair_conns: "conns closed_pair = {0, 1, 4, 6}" "\<not> reads_fail (server closed_pair)"
  by (simp_all add: closed_pair_def plan_close_def close_controlled_port_def redis_db_def sample_conn_simps
      command_def mem_redis_def mem_write_def)

lemma closed_pair_content:
  "redis_content mem_data closed_pair Config =
     run_store (close_controlled_port ''Ethernet1'') (run_store (close_controlled_port ''Ethernet0'') Map.empty)"
proof -
  have "redis_content mem_data closed_pair =
      run_ops (plan_close ''Ethernet0'' @ plan_close ''Ethernet1'') (redis_content mem_data sample_conn)"
    using mem.redis_apply_spec [OF closed_pair_run] by auto
  moreover have "list_all (\<lambda>x. op_db x = Config) (plan_close ''Ethernet0'' @ plan_close ''Ethernet1'')"
    using config_only(2) by simp
  moreover have "redis_content mem_data sample_conn Config = Map.empty"
    by (simp add: redis_content_def sample_conn_simps)
  ultimately show ?thesis using run_ops_config by (simp add: plan_close_def)
qed

lemma closed_pair_postures:
  "posture (redis_content mem_data closed_pair Config) ''Ethernet0'' desired_default"
  "posture (redis_content mem_data closed_pair Config) ''Ethernet1'' desired_default"
  unfolding closed_pair_content
  by (simp_all add: posture_def desired_default_def close_frame port_name_ok_def key_simps)

lemma mem_redis_simps:
  "redis_del mem_redis r i key = mem_write i (\<lambda>st. st(key := None)) r"
  "redis_hget mem_redis r i key fld = mem_read r (hash_of (mem_data r i) key fld)"
  "redis_hset mem_redis r i key fld v = mem_write i (\<lambda>st. st(key \<mapsto> (hash_of st key)(fld \<mapsto> v))) r"
  by (simp_all add: mem_redis_def)

lemma transition_open:
  "transition p desired_default (desired_default\<lparr>authorized := True\<rparr>) = open_controlled_port p"
  by (simp add: transition_def vlan_delta_def filter_delta_def desired_default_def)

lemmas schedule_eval =
  transition_open transition_open_with open_controlled_port_def del_def bind_port_def redis_db_def command_def
  closed_pair_conns mem_redis_simps mem_write_def mem_read_def Let_def

lemma pair_moves:
  "\<exists>c'. run_schedule mem_redis [0, 1, 0, 1, 1, 1]
     (closed_pair, begin_all (move_calls [(''Ethernet0'', desired_default, desired_default\<lparr>authorized := True\<rparr>),
        (''Ethernet1'', desired_default, open_with ''staff'')])) = Some (c', [([], Begun), ([], Begun)])"
  by (simp add: schedule_eval)

lemma pair_race:
  "\<exists>c'. run_schedule mem_redis (0 # 1 # 0 # 1 # [0, 1, 1, 0])
     (closed_pair, begin_all (move_calls [(''Ethernet0'', desired_default, open_with ''staff''),
        (''Ethernet1'', desired_default, open_with ''staff'')])) = Some (c', [([], Begun), ([], Begun)])"
  by (simp add: schedule_eval)

theorem concurrent_transitions_hold_witness:
  "\<exists>c' ts. run_schedule mem_redis [0, 1, 0, 1, 1, 1]
       (closed_pair, begin_all (move_calls [(''Ethernet0'', desired_default, desired_default\<lparr>authorized := True\<rparr>),
          (''Ethernet1'', desired_default, open_with ''staff'')])) = Some (c', ts) \<and>
     posture (redis_content mem_data c' Config) ''Ethernet1'' (open_with ''staff'')"
proof -
  obtain c' where c': "run_schedule mem_redis [0, 1, 0, 1, 1, 1]
      (closed_pair, begin_all (move_calls [(''Ethernet0'', desired_default, desired_default\<lparr>authorized := True\<rparr>),
        (''Ethernet1'', desired_default, open_with ''staff'')])) = Some (c', [([], Begun), ([], Begun)])"
    using pair_moves by blast
  let ?moves = "[(''Ethernet0'', desired_default, desired_default\<lparr>authorized := True\<rparr>),
    (''Ethernet1'', desired_default, open_with ''staff'')]"
  have ports: "distinct (map fst ?moves)" by simp
  have ok: "\<forall>m \<in> set ?moves. move_ok (redis_content mem_data closed_pair Config) m"
    by (simp add: move_ok_def port_name_ok_def desired_wf_def closed_pair_postures)
  have filters: "\<forall>(p, old, new) \<in> set ?moves. \<forall>f \<in> rebound old new. \<not> is_deny_table f \<and>
      (\<forall>(q, old', new') \<in> set ?moves. f \<in> rebound old' new' \<longrightarrow> q = p)"
    by (simp add: rebound_def is_deny_table_def desired_default_def)
  from concurrent_transitions_hold [OF mem.redis_server_axioms ports ok filters c', THEN conjunct2]
  have "posture (redis_content mem_data c' Config) ''Ethernet1'' (open_with ''staff'')" by simp
  with c' show ?thesis by blast
qed

text \<open>
  C38. A binding is lost when two ports are bound to one \<open>Filter-Id\<close> table at the same time: when the
  authorizations of two closed ports under the same filter both read the table's list before
  either writes it, then, however the remaining commands are ordered and although every command
  succeeds, the database is as if the first port had never been bound: it is open, which is all that
  the enforcer confirms, and outside the filter unless it was in the list before.
\<close>

theorem filter_binding_race:
  assumes "redis_server R rv" "port_name_ok p" "port_name_ok q" "p \<noteq> q"
    and "run_schedule R (0 # 1 # 0 # 1 # js)
      (c, begin_all (move_calls [(p, desired_default, open_with f), (q, desired_default, open_with f)])) = Some (c', ts)"
    and "all_done ts"
  shows "redis_content rv c' =
      run_ops (bind_port f q # open_controlled_port p @ open_controlled_port q) (redis_content rv c) \<and>
    redis_content rv c' Config (deny_rule_key p) = None \<and>
    bound (redis_content rv c' Config) f p = bound (redis_content rv c Config) f p"
proof -
  from redis_server.first_write_lost [OF assms(1)] assms(5) obtain c4 where
    c4: "redis_content rv c4 = db_op (redis_content rv c) (bind_port f q)"
    "run_schedule R js (c4, begin_all [open_controlled_port p, open_controlled_port q]) = Some (c', ts)"
    by (fastforce simp: transition_open_with)
  have "disjoint_calls [open_controlled_port p, open_controlled_port q]"
    using assms(4) by (auto simp: disjoint_calls_def open_controlled_port_def del_def key_simps less_Suc_eq)
  from redis_server.disjoint_serial [OF assms(1) this c4(2) assms(6)] c4(1)
  have all: "redis_content rv c' =
      run_ops (bind_port f q # open_controlled_port p @ open_controlled_port q) (redis_content rv c)"
    by (simp add: run_ops_simps)
  have "list_all (\<lambda>x. op_db x = Config) (bind_port f q # open_controlled_port p @ open_controlled_port q)"
    by (simp add: bind_port_def open_controlled_port_def del_def)
  from run_ops_config [OF this] all have "redis_content rv c' Config = run_store (open_controlled_port q)
      (run_store (open_controlled_port p) (store_op (ListAdd (acl_table_key f) ''ports'' q) (redis_content rv c Config)))"
    by (simp add: bind_port_def)
  then show ?thesis
    using all assms(4) by (simp add: open_frame key_simps bound_add [OF assms(3)] del: store_op.simps)
qed

theorem filter_binding_race_witness:
  "\<exists>c' ts. run_schedule mem_redis (0 # 1 # 0 # 1 # [0, 1, 1, 0])
       (closed_pair, begin_all (move_calls [(''Ethernet0'', desired_default, open_with ''staff''),
          (''Ethernet1'', desired_default, open_with ''staff'')])) = Some (c', ts) \<and>
     redis_content mem_data c' Config (deny_rule_key ''Ethernet0'') = None \<and>
     \<not> bound (redis_content mem_data c' Config) ''staff'' ''Ethernet0''"
proof -
  obtain c' where c': "run_schedule mem_redis (0 # 1 # 0 # 1 # [0, 1, 1, 0])
      (closed_pair, begin_all (move_calls [(''Ethernet0'', desired_default, open_with ''staff''),
        (''Ethernet1'', desired_default, open_with ''staff'')])) = Some (c', [([], Begun), ([], Begun)])"
    using pair_race by blast
  have "\<not> bound (redis_content mem_data closed_pair Config) ''staff'' ''Ethernet0''"
    unfolding closed_pair_content
    by (simp add: close_frame port_name_ok_def deny_table_def) (simp add: bound_def hash_of_def)
  with filter_binding_race [OF mem.redis_server_axioms _ _ _ c'] c' show ?thesis
    by (auto simp: port_name_ok_def)
qed

end
