(* ===== verification/Authd_Config.thy ===== *)
theory Authd_Config
  imports Pae_Types
begin

text \<open>
  The daemon configuration and its validation (\<open>crates/authd/src/config.rs\<close>), and the
  timer durations (\<open>timers.rs\<close>).
\<close>

section \<open>Configuration\<close>

record RadiusConfig =
  server_addr :: string
  server_name :: string
  ca_pem :: bytes
  client_cert_pem :: bytes
  client_key_pem :: bytes

record PortConfig =
  port_name :: string
  port_pae :: PaeConfig

record AuthdConfig =
  radius :: RadiusConfig
  ports :: "PortConfig list"
  io_timeout_secs :: u64

datatype ConfigError =
    NoPorts
  | DuplicatePort string
  | EmptyField string
  | BadTimeout
  | BadServerAddr string

definition MAX_IO_TIMEOUT_SECS :: u64 where "MAX_IO_TIMEOUT_SECS = 120"

text \<open>The loop over the ports with the set of names seen so far.\<close>

fun check_ports :: "string set \<Rightarrow> PortConfig list \<Rightarrow> ConfigError + unit" where
  "check_ports seen [] = Inr ()"
| "check_ports seen (p # ps) =
     (if port_name p = [] then Inl (EmptyField ''port.name'')
      else if port_name p \<in> seen then Inl (DuplicatePort (port_name p))
      else check_ports (insert (port_name p) seen) ps)"

definition host_port_ok :: "string \<Rightarrow> bool" where
  "host_port_ok addr =
     (case rsplit_once (CHR '':'') addr of
        Some (host, port) \<Rightarrow> host \<noteq> [] \<and> (case parse_u16 port of Some p \<Rightarrow> p \<noteq> 0 | None \<Rightarrow> False)
      | None \<Rightarrow> False)"

definition validate :: "AuthdConfig \<Rightarrow> ConfigError + unit" where
  "validate c =
     (if io_timeout_secs c = 0 \<or> io_timeout_secs c > MAX_IO_TIMEOUT_SECS then Inl BadTimeout
      else if server_addr (radius c) = [] then Inl (EmptyField ''radius.server_addr'')
      else if \<not> host_port_ok (server_addr (radius c)) then Inl (BadServerAddr (server_addr (radius c)))
      else if server_name (radius c) = [] then Inl (EmptyField ''radius.server_name'')
      else if ca_pem (radius c) = [] then Inl (EmptyField ''radius.ca_pem'')
      else if client_cert_pem (radius c) = [] then Inl (EmptyField ''radius.client_cert_pem'')
      else if client_key_pem (radius c) = [] then Inl (EmptyField ''radius.client_key_pem'')
      else if ports c = [] then Inl NoPorts
      else check_ports {} (ports c))"

section \<open>Timers\<close>

text \<open>\<open>timers::duration\<close>, in seconds.\<close>

fun duration :: "Timers \<Rightarrow> TimerKind \<Rightarrow> u64 option" where
  "duration t TxPeriod = Some (ucast (tx_period t))"
| "duration t TimerKind.Held = Some (ucast (held_period t))"
| "duration t Reauth = Some (ucast (reauth_period t))"
| "duration t ServerTimeout = Some (ucast (server_timeout t))"
| "duration t SuppTimeout = Some (ucast (supp_timeout t))"
| "duration t TimerKind.SessionTimeout = None"

section \<open>Lemmas\<close>

lemma check_ports_iff:
  "check_ports seen ps = Inr () \<longleftrightarrow>
     (\<forall>p \<in> set ps. port_name p \<noteq> [] \<and> port_name p \<notin> seen) \<and> distinct (map port_name ps)"
proof (induction seen ps rule: check_ports.induct)
  case (2 seen p ps)
  then show ?case
    by (cases "port_name p = []"; cases "port_name p \<in> seen") (auto simp: image_iff)
qed simp

lemma host_port_ok_iff:
  "host_port_ok addr \<longleftrightarrow>
     (\<exists>host port n. addr = host @ CHR '':'' # port \<and> CHR '':'' \<notin> set port \<and> host \<noteq> [] \<and>
        parse_u16 port = Some n \<and> n \<noteq> 0)"
proof
  assume "host_port_ok addr"
  then show "\<exists>host port n. addr = host @ CHR '':'' # port \<and> CHR '':'' \<notin> set port \<and> host \<noteq> [] \<and>
        parse_u16 port = Some n \<and> n \<noteq> 0"
    by (auto simp: host_port_ok_def dest: rsplit_once_Some split: option.splits)
next
  assume "\<exists>host port n. addr = host @ CHR '':'' # port \<and> CHR '':'' \<notin> set port \<and> host \<noteq> [] \<and>
        parse_u16 port = Some n \<and> n \<noteq> 0"
  then obtain host port n where a: "addr = host @ CHR '':'' # port" "CHR '':'' \<notin> set port"
    and n: "host \<noteq> []" "parse_u16 port = Some n" "n \<noteq> 0" by blast
  have "takeWhile (\<lambda>c. c \<noteq> CHR '':'') (rev port @ CHR '':'' # rev host) = rev port"
    "dropWhile (\<lambda>c. c \<noteq> CHR '':'') (rev port @ CHR '':'' # rev host) = CHR '':'' # rev host"
    using a(2) by (subst takeWhile_append2, auto) (subst dropWhile_append2, auto)
  then have "rsplit_once (CHR '':'') addr = Some (host, port)"
    by (simp add: rsplit_once_def a(1))
  with n show "host_port_ok addr" by (simp add: host_port_ok_def)
qed

section \<open>Properties\<close>

text \<open>
  C31. Validation accepts exactly the serviceable configurations: a time limit from 1 to
  120 seconds, a server address \<open>host:port\<close> with a non-zero port after the last colon,
  no empty credential, and at least one port, all with distinct non-empty names.
\<close>

theorem validate_exact:
  "validate c = Inr () \<longleftrightarrow>
     1 \<le> io_timeout_secs c \<and> io_timeout_secs c \<le> 120 \<and>
     (\<exists>host port n. server_addr (radius c) = host @ CHR '':'' # port \<and> CHR '':'' \<notin> set port \<and> host \<noteq> [] \<and>
        parse_u16 port = Some n \<and> n \<noteq> 0) \<and>
     server_name (radius c) \<noteq> [] \<and> ca_pem (radius c) \<noteq> [] \<and> client_cert_pem (radius c) \<noteq> [] \<and>
     client_key_pem (radius c) \<noteq> [] \<and> ports c \<noteq> [] \<and>
     list_all (\<lambda>p. port_name p \<noteq> []) (ports c) \<and> distinct (map port_name (ports c))"
proof -
  have "1 \<le> io_timeout_secs c \<longleftrightarrow> io_timeout_secs c \<noteq> 0"
    using word_gt_0 [of "io_timeout_secs c"] by (simp add: word_le_nat_alt word_less_nat_alt) linarith
  moreover have "\<not> host_port_ok []" by (simp add: host_port_ok_def rsplit_once_def)
  ultimately show ?thesis
    unfolding host_port_ok_iff [symmetric]
    by (auto simp: validate_def MAX_IO_TIMEOUT_SECS_def check_ports_iff list_all_iff not_less)
qed

end
