(* ===== verification/Radius_Proto.thy ===== *)
theory Radius_Proto
  imports Pae_Types
begin

text \<open>
  The boundary to the \<open>radius-proto\<close> crate, which is not part of this repository.
  Its packet and attribute structures are the public fields the sources read and
  write; its functions are the fields of the record \<open>RadiusProto\<close>, an argument of
  every definition that calls them. \<open>radius_laws\<close> is the documented behaviour the
  sources rely on: attributes are kept in order, a value fits in 253 octets, lookups
  search by type, and the keyed digests have 16 octets. \<open>rfc_proto\<close> is one
  implementation of that behaviour (RFC 2865 layout, a checksum for the digests),
  used to evaluate concrete packets.
\<close>

section \<open>Packets\<close>

datatype Code =
    AccessRequest | AccessAccept | AccessReject | AccountingRequest | AccountingResponse
  | AccessChallenge | OtherCode u8

record Attribute =
  attr_type :: u8
  attr_value :: bytes

record Packet =
  pkt_code :: Code
  pkt_identifier :: u8
  authenticator :: bytes
  attributes :: "Attribute list"

text \<open>The crate's error, which the sources only wrap and print.\<close>

datatype PacketError = PacketError string

text \<open>The named attribute types and enumerations of the crate that the sources use.\<close>

datatype AttributeType =
    UserName | NasIpAddress | NasPort | ServiceType | FilterId | ClassAttr | SessionTimeoutAttr
  | CalledStationId | CallingStationId | NasIdentifier | NasPortType
  | AcctStatusType | AcctSessionId | AcctTerminateCauseAttr

datatype AcctStatus = StatusStart | StatusStop

datatype AcctTerminateCause = UserRequest | LostCarrier | CauseSessionTimeout | CauseAdminReset | NasRequest

record RadiusProto =
  packet_new :: "Code \<Rightarrow> u8 \<Rightarrow> bytes \<Rightarrow> Packet"
  add_attribute :: "Packet \<Rightarrow> Attribute \<Rightarrow> Packet"
  find_attribute :: "Packet \<Rightarrow> u8 \<Rightarrow> Attribute option"
  find_all_attributes :: "Packet \<Rightarrow> u8 \<Rightarrow> Attribute list"
  attribute_new :: "u8 \<Rightarrow> bytes \<Rightarrow> PacketError + Attribute"
  attribute_string :: "u8 \<Rightarrow> string \<Rightarrow> PacketError + Attribute"
  attribute_integer :: "u8 \<Rightarrow> u32 \<Rightarrow> PacketError + Attribute"
  attribute_ipv4 :: "u8 \<Rightarrow> u8 \<times> u8 \<times> u8 \<times> u8 \<Rightarrow> PacketError + Attribute"
  packet_encode :: "Packet \<Rightarrow> PacketError + bytes"
  packet_decode :: "bytes \<Rightarrow> PacketError + Packet"
  calculate_message_authenticator :: "bytes \<Rightarrow> bytes \<Rightarrow> bytes"
  verify_response_authenticator :: "Packet \<Rightarrow> bytes \<Rightarrow> bytes \<Rightarrow> bool"
  calculate_accounting_request_authenticator :: "Packet \<Rightarrow> bytes \<Rightarrow> bytes"
  min_packet_size :: nat
  max_packet_size :: nat
  attribute_type_as_u8 :: "AttributeType \<Rightarrow> u8"
  code_as_u8 :: "Code \<Rightarrow> u8"
  acct_status_as_u32 :: "AcctStatus \<Rightarrow> u32"
  acct_cause_as_u32 :: "AcctTerminateCause \<Rightarrow> u32"

section \<open>The behaviour relied on\<close>

definition attribute_laws :: "RadiusProto \<Rightarrow> bool" where
  "attribute_laws rp \<longleftrightarrow>
     (\<forall>t v. length v \<le> 253 \<longrightarrow> attribute_new rp t v = Inr \<lparr>attr_type = t, attr_value = v\<rparr>) \<and>
     (\<forall>t v. 253 < length v \<longrightarrow> isl (attribute_new rp t v)) \<and>
     (\<forall>t s. attribute_string rp t s = attribute_new rp t (bytes_of_string s)) \<and>
     (\<forall>t n. attribute_integer rp t n = attribute_new rp t (u32_to_be n)) \<and>
     (\<forall>t a b c d. attribute_ipv4 rp t (a, b, c, d) = attribute_new rp t [a, b, c, d])"

definition packet_laws :: "RadiusProto \<Rightarrow> bool" where
  "packet_laws rp \<longleftrightarrow>
     (\<forall>c i a. packet_new rp c i a = \<lparr>pkt_code = c, pkt_identifier = i, authenticator = a, attributes = []\<rparr>) \<and>
     (\<forall>p a. add_attribute rp p a = p\<lparr>attributes := attributes p @ [a]\<rparr>) \<and>
     (\<forall>p t. find_attribute rp p t = List.find (\<lambda>a. attr_type a = t) (attributes p)) \<and>
     (\<forall>p t. find_all_attributes rp p t = filter (\<lambda>a. attr_type a = t) (attributes p))"

text \<open>
  The numbers of the named types: distinct, and none of the RFC 2869/3579 numbers
  that the client names itself (24, 64, 65, 79, 80, 81, 87).
\<close>

definition numbering_laws :: "RadiusProto \<Rightarrow> bool" where
  "numbering_laws rp \<longleftrightarrow>
     inj (attribute_type_as_u8 rp) \<and> inj (acct_status_as_u32 rp) \<and> inj (acct_cause_as_u32 rp) \<and>
     (\<forall>t. attribute_type_as_u8 rp t \<notin> {24, 64, 65, 79, 80, 81, 87})"

definition digest_laws :: "RadiusProto \<Rightarrow> bool" where
  "digest_laws rp \<longleftrightarrow>
     (\<forall>bs k. length (calculate_message_authenticator rp bs k) = 16) \<and>
     (\<forall>p k. length (calculate_accounting_request_authenticator rp p k) = 16)"

text \<open>
  The wire layout of an encoded packet (RFC 2865 section 3): the third and fourth
  octets hold its length, which is within the bounds, and decoding gives it back.
\<close>

definition codec_laws :: "RadiusProto \<Rightarrow> bool" where
  "codec_laws rp \<longleftrightarrow>
     4 \<le> min_packet_size rp \<and>
     (\<forall>p bs. packet_encode rp p = Inr bs \<longrightarrow>
        min_packet_size rp \<le> length bs \<and> length bs \<le> max_packet_size rp \<and>
        unat (u16_from_be (bs ! 2) (bs ! 3)) = length bs)"

definition decodes_back :: "RadiusProto \<Rightarrow> Packet \<Rightarrow> bool" where
  "decodes_back rp p \<longleftrightarrow> and_then (packet_encode rp p) (packet_decode rp) = Inr p"

definition radius_laws :: "RadiusProto \<Rightarrow> bool" where
  "radius_laws rp \<longleftrightarrow> attribute_laws rp \<and> packet_laws rp \<and> numbering_laws rp \<and> digest_laws rp"

lemma attribute_lawsD:
  assumes "radius_laws rp"
  shows "attribute_new rp t v = Inr a \<longleftrightarrow> length v \<le> 253 \<and> a = \<lparr>attr_type = t, attr_value = v\<rparr>"
    and "attribute_string rp t s = attribute_new rp t (bytes_of_string s)"
    and "attribute_integer rp t n = Inr \<lparr>attr_type = t, attr_value = u32_to_be n\<rparr>"
    and "attribute_ipv4 rp t (b0, b1, b2, b3) = Inr \<lparr>attr_type = t, attr_value = [b0, b1, b2, b3]\<rparr>"
proof -
  have laws: "attribute_laws rp" using assms by (simp add: radius_laws_def)
  then show "attribute_new rp t v = Inr a \<longleftrightarrow> length v \<le> 253 \<and> a = \<lparr>attr_type = t, attr_value = v\<rparr>"
    unfolding attribute_laws_def by (metis Inr_inject not_le sum.disc(2))
  show "attribute_string rp t s = attribute_new rp t (bytes_of_string s)"
    "attribute_integer rp t n = Inr \<lparr>attr_type = t, attr_value = u32_to_be n\<rparr>"
    "attribute_ipv4 rp t (b0, b1, b2, b3) = Inr \<lparr>attr_type = t, attr_value = [b0, b1, b2, b3]\<rparr>"
    using laws by (simp_all add: attribute_laws_def)
qed

lemma packet_lawsD:
  assumes "radius_laws rp"
  shows "packet_new rp c i a = \<lparr>pkt_code = c, pkt_identifier = i, authenticator = a, attributes = []\<rparr>"
    and "add_attribute rp p x = p\<lparr>attributes := attributes p @ [x]\<rparr>"
    and "find_attribute rp p t = List.find (\<lambda>a. attr_type a = t) (attributes p)"
    and "find_all_attributes rp p t = filter (\<lambda>a. attr_type a = t) (attributes p)"
  using assms by (simp_all add: radius_laws_def packet_laws_def)

lemma numbering_lawsD:
  assumes "radius_laws rp"
  shows "inj (attribute_type_as_u8 rp)" "inj (acct_status_as_u32 rp)" "inj (acct_cause_as_u32 rp)"
    and "attribute_type_as_u8 rp t \<notin> {24, 64, 65, 79, 80, 81, 87}"
  using assms unfolding radius_laws_def numbering_laws_def by blast+

lemma digest_lawsD:
  assumes "radius_laws rp"
  shows "length (calculate_message_authenticator rp bs k) = 16"
    and "length (calculate_accounting_request_authenticator rp p k) = 16"
  using assms by (simp_all add: radius_laws_def digest_laws_def)

section \<open>An implementation\<close>

fun rfc_code :: "Code \<Rightarrow> u8" where
  "rfc_code AccessRequest = 1"
| "rfc_code AccessAccept = 2"
| "rfc_code AccessReject = 3"
| "rfc_code AccountingRequest = 4"
| "rfc_code AccountingResponse = 5"
| "rfc_code AccessChallenge = 11"
| "rfc_code (OtherCode c) = c"

fun rfc_attribute_type :: "AttributeType \<Rightarrow> u8" where
  "rfc_attribute_type UserName = 1"
| "rfc_attribute_type NasIpAddress = 4"
| "rfc_attribute_type NasPort = 5"
| "rfc_attribute_type ServiceType = 6"
| "rfc_attribute_type FilterId = 11"
| "rfc_attribute_type ClassAttr = 25"
| "rfc_attribute_type SessionTimeoutAttr = 27"
| "rfc_attribute_type CalledStationId = 30"
| "rfc_attribute_type CallingStationId = 31"
| "rfc_attribute_type NasIdentifier = 32"
| "rfc_attribute_type NasPortType = 61"
| "rfc_attribute_type AcctStatusType = 40"
| "rfc_attribute_type AcctSessionId = 44"
| "rfc_attribute_type AcctTerminateCauseAttr = 49"

fun rfc_acct_status :: "AcctStatus \<Rightarrow> u32" where
  "rfc_acct_status StatusStart = 1"
| "rfc_acct_status StatusStop = 2"

fun rfc_acct_cause :: "AcctTerminateCause \<Rightarrow> u32" where
  "rfc_acct_cause UserRequest = 1"
| "rfc_acct_cause LostCarrier = 2"
| "rfc_acct_cause CauseSessionTimeout = 5"
| "rfc_acct_cause CauseAdminReset = 6"
| "rfc_acct_cause NasRequest = 10"

definition rfc_code_of :: "u8 \<Rightarrow> Code" where
  "rfc_code_of c =
     (if c = 1 then AccessRequest else if c = 2 then AccessAccept else if c = 3 then AccessReject
      else if c = 4 then AccountingRequest else if c = 5 then AccountingResponse
      else if c = 11 then AccessChallenge else OtherCode c)"

definition rfc_attribute_new :: "u8 \<Rightarrow> bytes \<Rightarrow> PacketError + Attribute" where
  "rfc_attribute_new t v =
     (if length v \<le> 253 then Inr \<lparr>attr_type = t, attr_value = v\<rparr> else Inl (PacketError ''attribute too long''))"

definition rfc_encode :: "Packet \<Rightarrow> PacketError + bytes" where
  "rfc_encode p =
     (let body = concat (map (\<lambda>a. [attr_type a, word_of_nat (length (attr_value a) + 2)] @ attr_value a)
            (attributes p));
          n = 20 + length body
      in if n > 4096 then Inl (PacketError ''packet too long'')
         else if length (authenticator p) \<noteq> 16 then Inl (PacketError ''bad authenticator'')
         else Inr ([rfc_code (pkt_code p), pkt_identifier p] @ u16_to_be (word_of_nat n) @ authenticator p @ body))"

fun rfc_decode_attributes :: "nat \<Rightarrow> bytes \<Rightarrow> Attribute list option" where
  "rfc_decode_attributes _ [] = Some []"
| "rfc_decode_attributes (Suc fuel) (t # l # rest) =
     (if unat l < 2 \<or> length rest < unat l - 2 then None
      else map_option (\<lambda>as. \<lparr>attr_type = t, attr_value = take (unat l - 2) rest\<rparr> # as)
        (rfc_decode_attributes fuel (drop (unat l - 2) rest)))"
| "rfc_decode_attributes _ _ = None"

definition rfc_decode :: "bytes \<Rightarrow> PacketError + Packet" where
  "rfc_decode bs =
     (case get_upto 4 bs of
        Some [c, i, hi, lo] \<Rightarrow>
          if unat (u16_from_be hi lo) \<noteq> length bs \<or> length bs < 20 then Inl (PacketError ''malformed'')
          else (case rfc_decode_attributes (length bs) (drop 20 bs) of
                  None \<Rightarrow> Inl (PacketError ''malformed'')
                | Some as \<Rightarrow> Inr \<lparr>pkt_code = rfc_code_of c, pkt_identifier = i,
                    authenticator = take 16 (drop 4 bs), attributes = as\<rparr>)
      | _ \<Rightarrow> Inl (PacketError ''malformed''))"

text \<open>A 16-octet checksum in the place of the keyed digests.\<close>

definition checksum :: "bytes \<Rightarrow> bytes \<Rightarrow> bytes" where
  "checksum k bs = replicate 16 (sum_list k + sum_list bs)"

definition rfc_response_ok :: "Packet \<Rightarrow> bytes \<Rightarrow> bytes \<Rightarrow> bool" where
  "rfc_response_ok p ra k \<longleftrightarrow> authenticator p = checksum k ra"

definition rfc_proto :: RadiusProto where
  "rfc_proto =
     \<lparr>packet_new = (\<lambda>c i a. \<lparr>pkt_code = c, pkt_identifier = i, authenticator = a, attributes = []\<rparr>),
      add_attribute = (\<lambda>p a. p\<lparr>attributes := attributes p @ [a]\<rparr>),
      find_attribute = (\<lambda>p t. List.find (\<lambda>a. attr_type a = t) (attributes p)),
      find_all_attributes = (\<lambda>p t. filter (\<lambda>a. attr_type a = t) (attributes p)),
      attribute_new = rfc_attribute_new,
      attribute_string = (\<lambda>t s. rfc_attribute_new t (bytes_of_string s)),
      attribute_integer = (\<lambda>t n. rfc_attribute_new t (u32_to_be n)),
      attribute_ipv4 = (\<lambda>t (a, b, c, d). rfc_attribute_new t [a, b, c, d]),
      packet_encode = rfc_encode,
      packet_decode = rfc_decode,
      calculate_message_authenticator = (\<lambda>bs k. checksum k bs),
      verify_response_authenticator = rfc_response_ok,
      calculate_accounting_request_authenticator = (\<lambda>p k. checksum k [pkt_identifier p]),
      min_packet_size = 20,
      max_packet_size = 4096,
      attribute_type_as_u8 = rfc_attribute_type,
      code_as_u8 = rfc_code,
      acct_status_as_u32 = rfc_acct_status,
      acct_cause_as_u32 = rfc_acct_cause\<rparr>"

lemma rfc_numbers:
  "inj rfc_attribute_type" "inj rfc_acct_status" "inj rfc_acct_cause"
  "rfc_attribute_type t \<notin> {24, 64, 65, 79, 80, 81, 87}"
proof -
  show "inj rfc_attribute_type"
  proof (rule injI)
    show "s = t" if "rfc_attribute_type s = rfc_attribute_type t" for s t
      using that by (cases s; cases t; simp)
  qed
  show "inj rfc_acct_status"
  proof (rule injI)
    show "s = t" if "rfc_acct_status s = rfc_acct_status t" for s t
      using that by (cases s; cases t; simp)
  qed
  show "inj rfc_acct_cause"
  proof (rule injI)
    show "s = t" if "rfc_acct_cause s = rfc_acct_cause t" for s t
      using that by (cases s; cases t; simp)
  qed
  show "rfc_attribute_type t \<notin> {24, 64, 65, 79, 80, 81, 87}" by (cases t) simp_all
qed

lemma rfc_proto_laws: "radius_laws rfc_proto"
proof -
  have "numbering_laws rfc_proto"
    unfolding numbering_laws_def using rfc_numbers by (simp add: rfc_proto_def)
  then show ?thesis
    by (simp add: radius_laws_def attribute_laws_def packet_laws_def digest_laws_def)
      (simp add: rfc_proto_def rfc_attribute_new_def checksum_def)
qed


lemma rfc_encode_layout:
  assumes "rfc_encode p = Inr bs"
  shows "20 \<le> length bs \<and> length bs \<le> 4096 \<and> unat (u16_from_be (bs ! 2) (bs ! 3)) = length bs"
proof -
  define n where "n = 20 + length (concat (map (\<lambda>a. [attr_type a, word_of_nat (length (attr_value a) + 2)]
    @ attr_value a) (attributes p)))"
  from assms have n: "n \<le> 4096" "length bs = n"
    and bs: "\<exists>c i rest. bs = [c, i] @ u16_to_be (word_of_nat n) @ rest"
    by (auto simp: rfc_encode_def n_def Let_def split: if_splits)
  from bs have "u16_from_be (bs ! 2) (bs ! 3) = word_of_nat n"
    using u16_be_roundtrip [of "word_of_nat n"] by (auto simp: u16_to_be_def simp del: unat_of_nat_u16)
  then have "unat (u16_from_be (bs ! 2) (bs ! 3)) = n" using n(1) by (simp del: unat_u16_from_be)
  moreover have "20 \<le> n" by (simp add: n_def)
  ultimately show ?thesis using n by simp
qed

lemma rfc_codec_laws: "codec_laws rfc_proto"
  using rfc_encode_layout by (simp add: codec_laws_def rfc_proto_def)

end
