(* ===== verification/Radius_Client.thy ===== *)
theory Radius_Client
  imports Radius_Proto
begin

text \<open>
  The RADIUS client (\<open>crates/radius-client\<close>): \<open>User-Name\<close> sanitization,
  \<open>EAP-Message\<close> fragmentation, the NAS attributes, the Access-Request and
  Accounting-Request builders with their authenticators, and the verification and
  parsing of replies. \<open>rp\<close> is the \<open>radius-proto\<close> crate.
\<close>

section \<open>Errors and constants\<close>

datatype RadiusClientError =
    Proto PacketError
  | InvalidUserName
  | UnexpectedReplyCode u8
  | MissingEapMessage
  | EmptyEapRelay
  | MalformedVlanAssignment

definition EAP_MESSAGE :: u8 where "EAP_MESSAGE = 79"
definition MESSAGE_AUTHENTICATOR :: u8 where "MESSAGE_AUTHENTICATOR = 80"
definition NAS_PORT_ID :: u8 where "NAS_PORT_ID = 87"
definition STATE :: u8 where "STATE = 24"
definition TUNNEL_TYPE :: u8 where "TUNNEL_TYPE = 64"
definition TUNNEL_MEDIUM_TYPE :: u8 where "TUNNEL_MEDIUM_TYPE = 65"
definition TUNNEL_TYPE_VLAN :: u32 where "TUNNEL_TYPE_VLAN = 13"
definition TUNNEL_MEDIUM_802 :: u32 where "TUNNEL_MEDIUM_802 = 6"
definition TUNNEL_PRIVATE_GROUP_ID :: u8 where "TUNNEL_PRIVATE_GROUP_ID = 81"
definition MAX_ATTR_VALUE :: nat where "MAX_ATTR_VALUE = 253"
definition SERVICE_TYPE_FRAMED :: u32 where "SERVICE_TYPE_FRAMED = 2"
definition SERVICE_TYPE_CALL_CHECK :: u32 where "SERVICE_TYPE_CALL_CHECK = 10"
definition NAS_PORT_TYPE_ETHERNET :: u32 where "NAS_PORT_TYPE_ETHERNET = 15"
definition MAX_TAG_OCTET :: u8 where "MAX_TAG_OCTET = 0x1F"

named_theorems radius_consts \<open>the attribute numbers of the client\<close>

lemmas [radius_consts] =
  EAP_MESSAGE_def MESSAGE_AUTHENTICATOR_def NAS_PORT_ID_def STATE_def TUNNEL_TYPE_def
  TUNNEL_MEDIUM_TYPE_def TUNNEL_TYPE_VLAN_def TUNNEL_MEDIUM_802_def TUNNEL_PRIVATE_GROUP_ID_def

section \<open>User-Name sanitization\<close>

definition user_name :: "bytes \<Rightarrow> RadiusClientError + string" where
  "user_name ident =
     (if ident = [] \<or> length ident > MAX_ATTR_VALUE then Inl InvalidUserName
      else
        (case utf8_chars ident of
           None \<Rightarrow> Inl InvalidUserName
         | Some chars \<Rightarrow>
             if list_ex (\<lambda>c. is_control c \<or> c = 0x2028 \<or> c = 0x2029) chars
             then Inl InvalidUserName
             else Inr (string_of_bytes ident)))"

section \<open>Building packets\<close>

text \<open>\<open>packet.add_attribute(attribute?)\<close>.\<close>

definition push_attribute ::
    "RadiusProto \<Rightarrow> PacketError + Attribute \<Rightarrow> Packet \<Rightarrow> RadiusClientError + Packet" where
  "push_attribute rp a p = and_then (map_err Proto a) (\<lambda>x. Inr (add_attribute rp p x))"

text \<open>The builders thread the packet through fallible steps; \<open>when_some\<close> is \<open>if let Some(x)\<close>.\<close>

definition when_some :: "'a option \<Rightarrow> ('a \<Rightarrow> 'p \<Rightarrow> 'e + 'p) \<Rightarrow> 'p \<Rightarrow> 'e + 'p" where
  "when_some m f p = (case m of None \<Rightarrow> Inr p | Some x \<Rightarrow> f x p)"

fun fragment_loop :: "RadiusProto \<Rightarrow> bytes list \<Rightarrow> Packet \<Rightarrow> RadiusClientError + Packet" where
  "fragment_loop rp [] p = Inr p"
| "fragment_loop rp (c # cs) p =
     and_then (push_attribute rp (attribute_new rp EAP_MESSAGE c) p) (fragment_loop rp cs)"

definition fragment_into :: "RadiusProto \<Rightarrow> Packet \<Rightarrow> bytes \<Rightarrow> RadiusClientError + Packet" where
  "fragment_into rp p eap = fragment_loop rp (chunks MAX_ATTR_VALUE eap) p"

definition reassemble :: "RadiusProto \<Rightarrow> Packet \<Rightarrow> bytes" where
  "reassemble rp p = concat (map attr_value (find_all_attributes rp p EAP_MESSAGE))"

record RequestContext =
  nas_ip :: "(u8 \<times> u8 \<times> u8 \<times> u8) option"
  nas_identifier :: string
  nas_port_id :: string
  nas_port :: "u32 option"
  calling_station :: MacAddr
  called_station :: MacAddr

definition append_nas_attributes ::
    "RadiusProto \<Rightarrow> RequestContext \<Rightarrow> Packet \<Rightarrow> RadiusClientError + Packet" where
  "append_nas_attributes rp ctx p =
     and_then (when_some (nas_ip ctx)
       (\<lambda>ip. push_attribute rp (attribute_ipv4 rp (attribute_type_as_u8 rp NasIpAddress) ip)) p) (\<lambda>p.
     and_then (push_attribute rp
       (attribute_string rp (attribute_type_as_u8 rp NasIdentifier) (nas_identifier ctx)) p) (\<lambda>p.
     and_then (push_attribute rp (attribute_string rp NAS_PORT_ID (nas_port_id ctx)) p) (\<lambda>p.
     and_then (push_attribute rp
       (attribute_integer rp (attribute_type_as_u8 rp NasPortType) NAS_PORT_TYPE_ETHERNET) p) (\<lambda>p.
     and_then (when_some (nas_port ctx)
       (\<lambda>port. push_attribute rp (attribute_integer rp (attribute_type_as_u8 rp NasPort) port)) p) (\<lambda>p.
     and_then (push_attribute rp
       (attribute_string rp (attribute_type_as_u8 rp CallingStationId)
         (format_mac (calling_station ctx))) p) (\<lambda>p.
     push_attribute rp
       (attribute_string rp (attribute_type_as_u8 rp CalledStationId)
         (format_mac (called_station ctx))) p))))))"

text \<open>Overwrite every \<open>Message-Authenticator\<close> (the loops of \<open>seal_message_authenticator\<close>).\<close>

definition set_authenticators :: "bytes \<Rightarrow> Packet \<Rightarrow> Packet" where
  "set_authenticators v p =
     p\<lparr>attributes := map (\<lambda>a. if attr_type a = MESSAGE_AUTHENTICATOR then a\<lparr>attr_value := v\<rparr> else a)
        (attributes p)\<rparr>"

definition seal_message_authenticator ::
    "RadiusProto \<Rightarrow> bytes \<Rightarrow> Packet \<Rightarrow> RadiusClientError + Packet" where
  "seal_message_authenticator rp secret p =
     and_then
       (if \<not> list_ex (\<lambda>a. attr_type a = MESSAGE_AUTHENTICATOR) (attributes p)
        then push_attribute rp (attribute_new rp MESSAGE_AUTHENTICATOR (replicate 16 0)) p
        else Inr p) (\<lambda>p.
     let p = set_authenticators (replicate 16 0) p
     in and_then (map_err Proto (packet_encode rp p)) (\<lambda>encoded.
          let m = calculate_message_authenticator rp encoded secret
          in Inr (set_authenticators m p)))"

definition access_request_eap ::
    "RadiusProto \<Rightarrow> RequestContext \<Rightarrow> u8 \<Rightarrow> bytes \<Rightarrow> bytes option \<Rightarrow> bytes option \<Rightarrow> bytes \<Rightarrow> bytes
       \<Rightarrow> RadiusClientError + Packet" where
  "access_request_eap rp ctx ident request_authenticator eap_ident st eap secret =
     (if eap = [] then Inl EmptyEapRelay
      else
        and_then (when_some eap_ident
          (\<lambda>i p. and_then (user_name i) (\<lambda>name.
             push_attribute rp (attribute_string rp (attribute_type_as_u8 rp UserName) name) p))
          (packet_new rp AccessRequest ident request_authenticator)) (\<lambda>p.
        and_then (push_attribute rp
          (attribute_integer rp (attribute_type_as_u8 rp ServiceType) SERVICE_TYPE_FRAMED) p) (\<lambda>p.
        and_then (when_some st (\<lambda>s. push_attribute rp (attribute_new rp STATE s)) p) (\<lambda>p.
        and_then (append_nas_attributes rp ctx p) (\<lambda>p.
        and_then (fragment_into rp p eap) (\<lambda>p.
        seal_message_authenticator rp secret p))))))"

definition access_request_mab ::
    "RadiusProto \<Rightarrow> RequestContext \<Rightarrow> u8 \<Rightarrow> bytes \<Rightarrow> bytes \<Rightarrow> RadiusClientError + Packet" where
  "access_request_mab rp ctx ident request_authenticator secret =
     and_then (push_attribute rp
       (attribute_string rp (attribute_type_as_u8 rp UserName) (format_mac (calling_station ctx)))
       (packet_new rp AccessRequest ident request_authenticator)) (\<lambda>p.
     and_then (push_attribute rp
       (attribute_integer rp (attribute_type_as_u8 rp ServiceType) SERVICE_TYPE_CALL_CHECK) p) (\<lambda>p.
     and_then (append_nas_attributes rp ctx p) (\<lambda>p.
     seal_message_authenticator rp secret p)))"

fun terminate_cause :: "TerminateCause \<Rightarrow> AcctTerminateCause" where
  "terminate_cause SupplicantLogoff = UserRequest"
| "terminate_cause PortLinkDown = LostCarrier"
| "terminate_cause TerminateCause.SessionTimeout = CauseSessionTimeout"
| "terminate_cause AdminReset = CauseAdminReset"
| "terminate_cause ReauthFailure = NasRequest"

definition accounting_request ::
    "RadiusProto \<Rightarrow> RequestContext \<Rightarrow> u8 \<Rightarrow> AcctTrigger \<Rightarrow> string \<Rightarrow> bytes option \<Rightarrow> bytes
       \<Rightarrow> RadiusClientError + Packet" where
  "accounting_request rp ctx ident trigger session_id cls secret =
     (let status = (case trigger of AcctTrigger.Start \<Rightarrow> StatusStart | AcctTrigger.Stop _ \<Rightarrow> StatusStop)
      in and_then (push_attribute rp
           (attribute_integer rp (attribute_type_as_u8 rp AcctStatusType) (acct_status_as_u32 rp status))
           (packet_new rp AccountingRequest ident (replicate 16 0))) (\<lambda>p.
         and_then (push_attribute rp
           (attribute_string rp (attribute_type_as_u8 rp AcctSessionId) session_id) p) (\<lambda>p.
         and_then (append_nas_attributes rp ctx p) (\<lambda>p.
         and_then (when_some cls
           (\<lambda>c. push_attribute rp (attribute_new rp (attribute_type_as_u8 rp ClassAttr) c)) p) (\<lambda>p.
         and_then (case trigger of
             AcctTrigger.Start \<Rightarrow> Inr p
           | AcctTrigger.Stop cause \<Rightarrow>
               push_attribute rp (attribute_integer rp (attribute_type_as_u8 rp AcctTerminateCauseAttr)
                 (acct_cause_as_u32 rp (terminate_cause cause))) p) (\<lambda>p.
         Inr (p\<lparr>authenticator := calculate_accounting_request_authenticator rp p secret\<rparr>)))))))"

section \<open>Replies\<close>

definition verify_message_authenticator :: "RadiusProto \<Rightarrow> Packet \<Rightarrow> bytes \<Rightarrow> bytes \<Rightarrow> bool" where
  "verify_message_authenticator rp reply request_authenticator secret =
     (let has_eap = (find_attribute rp reply EAP_MESSAGE \<noteq> None)
      in case find_attribute rp reply MESSAGE_AUTHENTICATOR of
           None \<Rightarrow> \<not> has_eap
         | Some attr \<Rightarrow>
             if length (attr_value attr) \<noteq> 16 then False
             else
               (let received = attr_value attr;
                    copy = set_authenticators (replicate 16 0)
                      (reply\<lparr>authenticator := request_authenticator\<rparr>)
                in case packet_encode rp copy of
                     Inl _ \<Rightarrow> False
                   | Inr bs \<Rightarrow> calculate_message_authenticator rp bs secret = received))"

definition verify_reply :: "RadiusProto \<Rightarrow> Packet \<Rightarrow> bytes \<Rightarrow> bytes \<Rightarrow> bool" where
  "verify_reply rp reply request_authenticator secret =
     (if \<not> verify_response_authenticator rp reply request_authenticator secret then False
      else verify_message_authenticator rp reply request_authenticator secret)"

definition extract_state :: "RadiusProto \<Rightarrow> Packet \<Rightarrow> bytes option" where
  "extract_state rp reply = map_option attr_value (find_attribute rp reply STATE)"

definition read_u32 :: "Attribute \<Rightarrow> u32 option" where
  "read_u32 a = (case attr_value a of [b0, b1, b2, b3] \<Rightarrow> Some (u32_from_be b0 b1 b2 b3) | _ \<Rightarrow> None)"

definition read_tagged_u32 :: "Attribute \<Rightarrow> u32 option" where
  "read_tagged_u32 a =
     (case attr_value a of [_, hi, mid, lo] \<Rightarrow> Some (u32_from_be 0 hi mid lo) | _ \<Rightarrow> None)"

text \<open>RFC 2868 section 3.6: drop a leading tag octet.\<close>

definition untagged :: "bytes \<Rightarrow> bytes" where
  "untagged group_value =
     (case group_value of
        [] \<Rightarrow> group_value
      | tag # rest \<Rightarrow> if 1 \<le> tag \<and> tag \<le> MAX_TAG_OCTET then rest else group_value)"

definition parse_vlan :: "RadiusProto \<Rightarrow> Packet \<Rightarrow> bytes \<Rightarrow> RadiusClientError + string" where
  "parse_vlan rp reply group_value =
     (let tunnel_type = Option.bind (find_attribute rp reply TUNNEL_TYPE) read_tagged_u32;
          medium = Option.bind (find_attribute rp reply TUNNEL_MEDIUM_TYPE) read_tagged_u32
      in if tunnel_type \<noteq> Some TUNNEL_TYPE_VLAN \<or> medium \<noteq> Some TUNNEL_MEDIUM_802
         then Inl MalformedVlanAssignment
         else (let b = untagged group_value
               in if b = [] then Inl MalformedVlanAssignment else Inr (from_utf8_lossy b)))"

definition parse_authorization :: "RadiusProto \<Rightarrow> Packet \<Rightarrow> RadiusClientError + Authorization" where
  "parse_authorization rp reply =
     and_then
       (case find_attribute rp reply TUNNEL_PRIVATE_GROUP_ID of
          Some attr \<Rightarrow> and_then (parse_vlan rp reply (attr_value attr)) (\<lambda>v. Inr (Some v))
        | None \<Rightarrow> Inr None) (\<lambda>v.
     Inr \<lparr>vlan = v,
          filter_id = map_option (\<lambda>a. from_utf8_lossy (attr_value a))
            (find_attribute rp reply (attribute_type_as_u8 rp FilterId)),
          session_timeout =
            Option.bind (find_attribute rp reply (attribute_type_as_u8 rp SessionTimeoutAttr)) read_u32,
          authz_class = map_option attr_value
            (find_attribute rp reply (attribute_type_as_u8 rp ClassAttr))\<rparr>)"

definition non_empty :: "bytes \<Rightarrow> bytes option" where
  "non_empty v = (if v = [] then None else Some v)"

definition parse_reply :: "RadiusProto \<Rightarrow> Packet \<Rightarrow> RadiusClientError + Event" where
  "parse_reply rp reply =
     (case pkt_code reply of
        AccessChallenge \<Rightarrow>
          (let eap = reassemble rp reply
           in if eap = [] then Inl MissingEapMessage else Inr (Event.AccessChallenge eap))
      | AccessAccept \<Rightarrow>
          and_then (parse_authorization rp reply) (\<lambda>a.
            Inr (Event.AccessAccept a (non_empty (reassemble rp reply))))
      | AccessReject \<Rightarrow> Inr (Event.AccessReject (non_empty (reassemble rp reply)))
      | other \<Rightarrow> Inl (UnexpectedReplyCode (code_as_u8 rp other)))"


section \<open>What the builders produce\<close>

abbreviation attribute :: "u8 \<Rightarrow> bytes \<Rightarrow> Attribute" where
  "attribute t v \<equiv> \<lparr>attr_type = t, attr_value = v\<rparr>"

lemma push_attribute_simps:
  assumes "radius_laws rp"
  shows "push_attribute rp (attribute_new rp t v) p = Inr q \<longleftrightarrow>
      length v \<le> 253 \<and> q = p\<lparr>attributes := attributes p @ [attribute t v]\<rparr>"
    and "push_attribute rp (attribute_string rp t s) p = Inr q \<longleftrightarrow>
      length s \<le> 253 \<and> q = p\<lparr>attributes := attributes p @ [attribute t (bytes_of_string s)]\<rparr>"
    and "push_attribute rp (attribute_integer rp t n) p =
      Inr (p\<lparr>attributes := attributes p @ [attribute t (u32_to_be n)]\<rparr>)"
    and "push_attribute rp (attribute_ipv4 rp t (b0, b1, b2, b3)) p =
      Inr (p\<lparr>attributes := attributes p @ [attribute t [b0, b1, b2, b3]]\<rparr>)"
  using attribute_lawsD [OF assms] packet_lawsD(2) [OF assms]
  by (auto simp: push_attribute_def and_then_Inr_iff)

lemma when_some_simps [simp]:
  "when_some None f p = Inr p"
  "when_some (Some x) f p = f x p"
  by (simp_all add: when_some_def)

text \<open>The attributes of \<open>append_nas_attributes\<close>, in order.\<close>

definition nas_attributes :: "RadiusProto \<Rightarrow> RequestContext \<Rightarrow> Attribute list" where
  "nas_attributes rp ctx =
     (case nas_ip ctx of None \<Rightarrow> []
      | Some (a, b, c, d) \<Rightarrow> [attribute (attribute_type_as_u8 rp NasIpAddress) [a, b, c, d]]) @
     [attribute (attribute_type_as_u8 rp NasIdentifier) (bytes_of_string (nas_identifier ctx)),
      attribute NAS_PORT_ID (bytes_of_string (nas_port_id ctx)),
      attribute (attribute_type_as_u8 rp NasPortType) (u32_to_be NAS_PORT_TYPE_ETHERNET)] @
     (case nas_port ctx of None \<Rightarrow> []
      | Some port \<Rightarrow> [attribute (attribute_type_as_u8 rp NasPort) (u32_to_be port)]) @
     [attribute (attribute_type_as_u8 rp CallingStationId) (bytes_of_string (format_mac (calling_station ctx))),
      attribute (attribute_type_as_u8 rp CalledStationId) (bytes_of_string (format_mac (called_station ctx)))]"

definition names_fit :: "RequestContext \<Rightarrow> bool" where
  "names_fit ctx \<longleftrightarrow> length (nas_identifier ctx) \<le> 253 \<and> length (nas_port_id ctx) \<le> 253"

lemma append_nas_attributes_iff:
  assumes "radius_laws rp"
  shows "append_nas_attributes rp ctx p = Inr q \<longleftrightarrow>
    names_fit ctx \<and> q = p\<lparr>attributes := attributes p @ nas_attributes rp ctx\<rparr>"
  using push_attribute_simps [OF assms]
  by (cases "nas_ip ctx"; cases "nas_port ctx")
    (auto simp: append_nas_attributes_def nas_attributes_def names_fit_def and_then_Inr_iff
      format_mac_length)

lemma fragment_loop_ok:
  assumes "radius_laws rp"
  shows "\<forall>c \<in> set cs. length c \<le> 253 \<Longrightarrow>
    fragment_loop rp cs p = Inr (p\<lparr>attributes := attributes p @ map (attribute EAP_MESSAGE) cs\<rparr>)"
proof (induction cs arbitrary: p)
  case (Cons c cs)
  then have "push_attribute rp (attribute_new rp EAP_MESSAGE c) p =
      Inr (p\<lparr>attributes := attributes p @ [attribute EAP_MESSAGE c]\<rparr>)"
    by (simp add: push_attribute_simps [OF assms])
  with Cons show ?case by simp
qed simp

lemma fragment_into_ok:
  assumes "radius_laws rp"
  shows "fragment_into rp p eap =
    Inr (p\<lparr>attributes := attributes p @ map (attribute EAP_MESSAGE) (chunks 253 eap)\<rparr>)"
  unfolding fragment_into_def MAX_ATTR_VALUE_def
  by (rule fragment_loop_ok [OF assms]) (use chunks_bounds [of 253] in auto)

lemma seal_iff:
  assumes "radius_laws rp" and "\<forall>a \<in> set (attributes p). attr_type a \<noteq> MESSAGE_AUTHENTICATOR"
  shows "seal_message_authenticator rp secret p = Inr q \<longleftrightarrow>
    (\<exists>bs. packet_encode rp
        (p\<lparr>attributes := attributes p @ [attribute MESSAGE_AUTHENTICATOR (replicate 16 0)]\<rparr>) = Inr bs \<and>
      q = p\<lparr>attributes := attributes p @
        [attribute MESSAGE_AUTHENTICATOR (calculate_message_authenticator rp bs secret)]\<rparr>)"
proof -
  have none: "\<not> list_ex (\<lambda>a. attr_type a = MESSAGE_AUTHENTICATOR) (attributes p)"
    using assms(2) by (simp add: list_ex_iff)
  have "map (\<lambda>a. if attr_type a = MESSAGE_AUTHENTICATOR then a\<lparr>attr_value := v\<rparr> else a) (attributes p) =
      attributes p" for v
    using assms(2) by (simp add: map_idI)
  then have zero: "set_authenticators v
      (p\<lparr>attributes := attributes p @ [attribute MESSAGE_AUTHENTICATOR w]\<rparr>) =
      p\<lparr>attributes := attributes p @ [attribute MESSAGE_AUTHENTICATOR v]\<rparr>" for v w
    by (simp add: set_authenticators_def)
  have push: "push_attribute rp (attribute_new rp MESSAGE_AUTHENTICATOR (replicate 16 0)) p =
      Inr (p\<lparr>attributes := attributes p @ [attribute MESSAGE_AUTHENTICATOR (replicate 16 0)]\<rparr>)"
    by (simp add: push_attribute_simps [OF assms(1)])
  show ?thesis
    by (auto simp: seal_message_authenticator_def none push zero and_then_Inr_iff Let_def)
qed

text \<open>The unsealed attributes of an EAP pass-through request, in order.\<close>

definition eap_request_attributes ::
    "RadiusProto \<Rightarrow> RequestContext \<Rightarrow> bytes option \<Rightarrow> bytes option \<Rightarrow> bytes \<Rightarrow> Attribute list" where
  "eap_request_attributes rp ctx eap_ident st eap =
     (case eap_ident of None \<Rightarrow> [] | Some i \<Rightarrow> [attribute (attribute_type_as_u8 rp UserName) i]) @
     [attribute (attribute_type_as_u8 rp ServiceType) (u32_to_be SERVICE_TYPE_FRAMED)] @
     (case st of None \<Rightarrow> [] | Some s \<Rightarrow> [attribute STATE s]) @
     nas_attributes rp ctx @ map (attribute EAP_MESSAGE) (chunks 253 eap)"

lemma user_name_Inr_iff:
  "user_name i = Inr n \<longleftrightarrow>
     i \<noteq> [] \<and> length i \<le> 253 \<and> n = string_of_bytes i \<and>
     (\<exists>chars. utf8_chars i = Some chars \<and> \<not> list_ex (\<lambda>c. is_control c \<or> c = 0x2028 \<or> c = 0x2029) chars)"
  by (auto simp: user_name_def MAX_ATTR_VALUE_def split: option.splits if_splits)

definition identity_ok :: "bytes option \<Rightarrow> bool" where
  "identity_ok eap_ident \<longleftrightarrow> (case eap_ident of None \<Rightarrow> True | Some i \<Rightarrow> \<exists>n. user_name i = Inr n)"

definition state_fits :: "bytes option \<Rightarrow> bool" where
  "state_fits st \<longleftrightarrow> (case st of None \<Rightarrow> True | Some s \<Rightarrow> length s \<le> 253)"

text \<open>A packet with its attributes and a sealed \<open>Message-Authenticator\<close> at the end.\<close>

definition sealed :: "RadiusProto \<Rightarrow> u8 \<Rightarrow> bytes \<Rightarrow> bytes \<Rightarrow> Attribute list \<Rightarrow> Packet \<Rightarrow> bool" where
  "sealed rp i ra secret attrs p \<longleftrightarrow>
     (\<exists>bs. packet_encode rp \<lparr>pkt_code = AccessRequest, pkt_identifier = i, authenticator = ra,
         attributes = attrs @ [attribute MESSAGE_AUTHENTICATOR (replicate 16 0)]\<rparr> = Inr bs \<and>
       p = \<lparr>pkt_code = AccessRequest, pkt_identifier = i, authenticator = ra,
         attributes = attrs @ [attribute MESSAGE_AUTHENTICATOR (calculate_message_authenticator rp bs secret)]\<rparr>)"

definition unsealed :: "Attribute list \<Rightarrow> bool" where
  "unsealed attrs \<longleftrightarrow> (\<forall>a \<in> set attrs. attr_type a \<noteq> MESSAGE_AUTHENTICATOR)"

lemma seal_sealed:
  assumes "radius_laws rp" "unsealed attrs"
  shows "seal_message_authenticator rp secret
      \<lparr>pkt_code = AccessRequest, pkt_identifier = i, authenticator = ra, attributes = attrs\<rparr> = Inr p \<longleftrightarrow>
    sealed rp i ra secret attrs p"
  using seal_iff [OF assms(1), of "\<lparr>pkt_code = AccessRequest, pkt_identifier = i, authenticator = ra,
      attributes = attrs\<rparr>"] assms(2)
  by (simp add: sealed_def unsealed_def)

lemma number_ne:
  assumes "radius_laws rp"
  shows "attribute_type_as_u8 rp t \<noteq> MESSAGE_AUTHENTICATOR" "attribute_type_as_u8 rp t \<noteq> EAP_MESSAGE"
    "attribute_type_as_u8 rp t \<noteq> STATE" "attribute_type_as_u8 rp t \<noteq> NAS_PORT_ID"
  using numbering_lawsD(4) [OF assms, of t] by (simp_all add: radius_consts)

lemma attribute_types:
  assumes "radius_laws rp"
  shows "unsealed (nas_attributes rp ctx)"
    and "filter (\<lambda>a. attr_type a = EAP_MESSAGE) (nas_attributes rp ctx) = []"
    and "unsealed (eap_request_attributes rp ctx eap_ident st eap)"
    and "filter (\<lambda>a. attr_type a = EAP_MESSAGE) (eap_request_attributes rp ctx eap_ident st eap) =
      map (attribute EAP_MESSAGE) (chunks 253 eap)"
proof -
  have ne: "NAS_PORT_ID \<noteq> MESSAGE_AUTHENTICATOR" "NAS_PORT_ID \<noteq> EAP_MESSAGE" "STATE \<noteq> MESSAGE_AUTHENTICATOR"
    "STATE \<noteq> EAP_MESSAGE" "EAP_MESSAGE \<noteq> MESSAGE_AUTHENTICATOR"
    by (simp_all add: radius_consts)
  show nas: "unsealed (nas_attributes rp ctx)"
    "filter (\<lambda>a. attr_type a = EAP_MESSAGE) (nas_attributes rp ctx) = []"
    using number_ne [OF assms] ne
    by (auto simp: unsealed_def nas_attributes_def split: option.splits)
  show "unsealed (eap_request_attributes rp ctx eap_ident st eap)"
    using number_ne [OF assms] ne nas(1)
    by (auto simp: unsealed_def eap_request_attributes_def split: option.splits)
  show "filter (\<lambda>a. attr_type a = EAP_MESSAGE) (eap_request_attributes rp ctx eap_ident st eap) =
      map (attribute EAP_MESSAGE) (chunks 253 eap)"
    using number_ne [OF assms] ne nas(2)
    by (auto simp: eap_request_attributes_def filter_map o_def split: option.splits)
qed

lemma access_request_eap_iff:
  assumes laws: "radius_laws rp"
  shows "access_request_eap rp ctx i ra eap_ident st eap secret = Inr p \<longleftrightarrow>
    eap \<noteq> [] \<and> identity_ok eap_ident \<and> state_fits st \<and> names_fit ctx \<and>
    sealed rp i ra secret (eap_request_attributes rp ctx eap_ident st eap) p"
  using attribute_types(3) [OF laws, of ctx eap_ident st eap]
  by (cases eap_ident; cases st)
    (auto simp: access_request_eap_def and_then_Inr_iff push_attribute_simps [OF laws]
      append_nas_attributes_iff [OF laws] fragment_into_ok [OF laws] packet_lawsD [OF laws]
      identity_ok_def state_fits_def eap_request_attributes_def user_name_Inr_iff seal_sealed [OF laws])

definition mab_request_attributes :: "RadiusProto \<Rightarrow> RequestContext \<Rightarrow> Attribute list" where
  "mab_request_attributes rp ctx =
     [attribute (attribute_type_as_u8 rp UserName) (bytes_of_string (format_mac (calling_station ctx))),
      attribute (attribute_type_as_u8 rp ServiceType) (u32_to_be SERVICE_TYPE_CALL_CHECK)]
     @ nas_attributes rp ctx"

lemma mab_attribute_types:
  assumes "radius_laws rp"
  shows "unsealed (mab_request_attributes rp ctx)"
    and "filter (\<lambda>a. attr_type a = EAP_MESSAGE) (mab_request_attributes rp ctx) = []"
  using number_ne [OF assms] attribute_types(1,2) [OF assms, of ctx]
  by (auto simp: mab_request_attributes_def unsealed_def)

lemma access_request_mab_iff:
  assumes laws: "radius_laws rp"
  shows "access_request_mab rp ctx i ra secret = Inr p \<longleftrightarrow>
    names_fit ctx \<and> sealed rp i ra secret (mab_request_attributes rp ctx) p"
  using mab_attribute_types(1) [OF laws, of ctx]
  by (auto simp: access_request_mab_def and_then_Inr_iff push_attribute_simps [OF laws]
      append_nas_attributes_iff [OF laws] packet_lawsD [OF laws] format_mac_length
      mab_request_attributes_def seal_sealed [OF laws])

lemma find_last_type: "unsealed attrs \<Longrightarrow>
    List.find (\<lambda>a. attr_type a = MESSAGE_AUTHENTICATOR) (attrs @ [attribute MESSAGE_AUTHENTICATOR v]) =
      Some (attribute MESSAGE_AUTHENTICATOR v)"
  by (induction attrs) (simp_all add: unsealed_def)

lemma set_authenticators_last:
  assumes "unsealed attrs"
  shows "set_authenticators w (p\<lparr>attributes := attrs @ [attribute MESSAGE_AUTHENTICATOR v]\<rparr>) =
    p\<lparr>attributes := attrs @ [attribute MESSAGE_AUTHENTICATOR w]\<rparr>"
  using assms by (simp add: set_authenticators_def unsealed_def map_idI)

text \<open>A sealed packet passes the verification it is subject to at the other end.\<close>

lemma sealed_verifies:
  assumes laws: "radius_laws rp" and un: "unsealed attrs" and s: "sealed rp i ra secret attrs p"
  shows "verify_message_authenticator rp p ra secret"
proof -
  let ?zero = "\<lparr>pkt_code = AccessRequest, pkt_identifier = i, authenticator = ra,
    attributes = attrs @ [attribute MESSAGE_AUTHENTICATOR (replicate 16 0)]\<rparr>"
  obtain bs where enc: "packet_encode rp ?zero = Inr bs"
    and p: "p = \<lparr>pkt_code = AccessRequest, pkt_identifier = i, authenticator = ra,
      attributes = attrs @ [attribute MESSAGE_AUTHENTICATOR (calculate_message_authenticator rp bs secret)]\<rparr>"
    using s by (auto simp: sealed_def)
  have "set_authenticators (replicate 16 0) (p\<lparr>authenticator := ra\<rparr>) = ?zero"
    using set_authenticators_last [OF un, where p = ?zero and w = "replicate 16 0"
        and v = "calculate_message_authenticator rp bs secret"]
    by (simp add: p)
  moreover have "find_attribute rp p MESSAGE_AUTHENTICATOR =
      Some (attribute MESSAGE_AUTHENTICATOR (calculate_message_authenticator rp bs secret))"
    using find_last_type [OF un] by (simp add: packet_lawsD [OF laws] p)
  ultimately show ?thesis
    using digest_lawsD(1) [OF laws] enc by (simp add: verify_message_authenticator_def)
qed

lemma sealed_reassemble:
  assumes laws: "radius_laws rp" and s: "sealed rp i ra secret attrs p"
  shows "reassemble rp p = concat (map attr_value (filter (\<lambda>a. attr_type a = EAP_MESSAGE) attrs))"
  using s by (auto simp: sealed_def reassemble_def packet_lawsD [OF laws] radius_consts)

lemma eap_request_reassemble:
  assumes laws: "radius_laws rp"
    and "sealed rp i ra secret (eap_request_attributes rp ctx eap_ident st eap) p"
  shows "reassemble rp p = eap"
  unfolding sealed_reassemble [OF assms] attribute_types(4) [OF laws]
  by (simp add: o_def concat_chunks)


lemma eap_request_state:
  assumes laws: "radius_laws rp" and r: "access_request_eap rp ctx i ra eap_ident st eap secret = Inr p"
  shows "extract_state rp p = st"
proof -
  have s: "sealed rp i ra secret (eap_request_attributes rp ctx eap_ident st eap) p"
    using r access_request_eap_iff [OF laws] by blast
  have "List.find (\<lambda>a. attr_type a = STATE) (nas_attributes rp ctx) = None"
    "List.find (\<lambda>a. attr_type a = STATE) (map (attribute EAP_MESSAGE) cs) = None" for cs
    using number_ne [OF laws]
    by (auto simp: find_None_iff nas_attributes_def radius_consts split: option.splits)
  then show ?thesis
    using s number_ne(3) [OF laws]
    by (auto simp: sealed_def extract_state_def packet_lawsD [OF laws] eap_request_attributes_def
        find_append radius_consts split: option.splits)
qed

section \<open>Sealing again, and replies\<close>

lemma set_authenticators_twice [simp]:
  "set_authenticators v (set_authenticators w p) = set_authenticators v p"
  by (simp add: set_authenticators_def)

lemma set_authenticators_has_type [simp]:
  "list_ex (\<lambda>a. attr_type a = MESSAGE_AUTHENTICATOR) (attributes (set_authenticators v p)) =
     list_ex (\<lambda>a. attr_type a = MESSAGE_AUTHENTICATOR) (attributes p)"
proof -
  have "list_ex (\<lambda>a. attr_type a = MESSAGE_AUTHENTICATOR)
      (map (\<lambda>a. if attr_type a = MESSAGE_AUTHENTICATOR then a\<lparr>attr_value := v\<rparr> else a) as) =
    list_ex (\<lambda>a. attr_type a = MESSAGE_AUTHENTICATOR) as" for as
    by (induction as) simp_all
  then show ?thesis by (simp add: set_authenticators_def)
qed

lemma seal_again:
  assumes laws: "radius_laws rp" and s: "seal_message_authenticator rp secret p = Inr q"
  shows "seal_message_authenticator rp secret q = Inr q"
proof -
  obtain p1 bs where p1: "list_ex (\<lambda>a. attr_type a = MESSAGE_AUTHENTICATOR) (attributes p1)"
    and enc: "packet_encode rp (set_authenticators (replicate 16 0) p1) = Inr bs"
    and q: "q = set_authenticators (calculate_message_authenticator rp bs secret) p1"
  proof (cases "list_ex (\<lambda>a. attr_type a = MESSAGE_AUTHENTICATOR) (attributes p)")
    case True
    with s that [of p] show ?thesis
      by (auto simp: seal_message_authenticator_def and_then_Inr_iff Let_def)
  next
    case False
    with s that [of "p\<lparr>attributes := attributes p @ [attribute MESSAGE_AUTHENTICATOR (replicate 16 0)]\<rparr>"]
    show ?thesis
      by (auto simp: seal_message_authenticator_def and_then_Inr_iff Let_def push_attribute_simps [OF laws])
  qed
  then show ?thesis
    by (simp add: seal_message_authenticator_def Let_def)
qed

text \<open>The condition under which \<open>parse_vlan\<close> yields a VLAN (RFC 3580 section 3.1).\<close>

definition vlan_tunnel :: "RadiusProto \<Rightarrow> Packet \<Rightarrow> bool" where
  "vlan_tunnel rp reply \<longleftrightarrow>
     Option.bind (find_attribute rp reply TUNNEL_TYPE) read_tagged_u32 = Some 13 \<and>
     Option.bind (find_attribute rp reply TUNNEL_MEDIUM_TYPE) read_tagged_u32 = Some 6"

lemma parse_vlan_Inr_iff:
  "parse_vlan rp reply g = Inr v \<longleftrightarrow>
     vlan_tunnel rp reply \<and> untagged g \<noteq> [] \<and> v = from_utf8_lossy (untagged g)"
  by (auto simp: parse_vlan_def vlan_tunnel_def TUNNEL_TYPE_VLAN_def TUNNEL_MEDIUM_802_def Let_def)

lemma parse_vlan_Inl_iff:
  "parse_vlan rp reply g = Inl e \<longleftrightarrow>
     e = MalformedVlanAssignment \<and> (vlan_tunnel rp reply \<longrightarrow> untagged g = [])"
  by (auto simp: parse_vlan_def vlan_tunnel_def TUNNEL_TYPE_VLAN_def TUNNEL_MEDIUM_802_def Let_def)

lemma parse_authorization_vlan:
  "parse_authorization rp reply = Inr a \<Longrightarrow>
     (case find_attribute rp reply TUNNEL_PRIVATE_GROUP_ID of
        None \<Rightarrow> vlan a = None
      | Some g \<Rightarrow> parse_vlan rp reply (attr_value g) = Inr (the (vlan a)) \<and> vlan a \<noteq> None)"
  by (auto simp: parse_authorization_def and_then_Inr_iff split: option.splits)

lemma parse_reply_accept:
  assumes "parse_reply rp reply = Inr (Event.AccessAccept a eap)"
  shows "pkt_code reply = AccessAccept \<and> parse_authorization rp reply = Inr a \<and>
    eap = non_empty (reassemble rp reply)"
  using assms by (auto simp: parse_reply_def and_then_Inr_iff Let_def split: Code.splits if_splits)

lemma parse_reply_event:
  assumes "parse_reply rp reply = Inr e"
  shows "(\<exists>eap. e = Event.AccessChallenge eap) \<or> (\<exists>a eap. e = Event.AccessAccept a eap) \<or>
    (\<exists>eap. e = Event.AccessReject eap)"
  using assms by (auto simp: parse_reply_def and_then_Inr_iff Let_def split: Code.splits if_splits)

lemma verified_eap_reply:
  assumes laws: "radius_laws rp" and v: "verify_reply rp reply ra secret"
    and eap: "reassemble rp reply \<noteq> []"
  shows "\<exists>m bs. find_attribute rp reply MESSAGE_AUTHENTICATOR = Some (attribute MESSAGE_AUTHENTICATOR m) \<and>
    packet_encode rp (set_authenticators (replicate 16 0) (reply\<lparr>authenticator := ra\<rparr>)) = Inr bs \<and>
    m = calculate_message_authenticator rp bs secret"
proof -
  have "find_attribute rp reply EAP_MESSAGE \<noteq> None"
    using eap by (auto simp: reassemble_def packet_lawsD [OF laws] find_None_filter filter_empty_conv)
  moreover have "verify_message_authenticator rp reply ra secret"
    using v by (simp add: verify_reply_def split: if_splits)
  ultimately obtain a bs where a: "find_attribute rp reply MESSAGE_AUTHENTICATOR = Some a"
    and "packet_encode rp (set_authenticators (replicate 16 0) (reply\<lparr>authenticator := ra\<rparr>)) = Inr bs"
    and "attr_value a = calculate_message_authenticator rp bs secret"
    by (auto simp: verify_message_authenticator_def Let_def split: option.splits if_splits sum.splits)
  moreover have "attr_type a = MESSAGE_AUTHENTICATOR"
    using a find_SomeD by (fastforce simp: packet_lawsD [OF laws])
  ultimately show ?thesis by (cases a) auto
qed

text \<open>The attributes of an Accounting-Request, in order.\<close>

definition accounting_attributes ::
    "RadiusProto \<Rightarrow> RequestContext \<Rightarrow> AcctTrigger \<Rightarrow> string \<Rightarrow> bytes option \<Rightarrow> Attribute list" where
  "accounting_attributes rp ctx trigger session_id cls =
     [attribute (attribute_type_as_u8 rp AcctStatusType)
        (u32_to_be (acct_status_as_u32 rp
          (case trigger of AcctTrigger.Start \<Rightarrow> StatusStart | AcctTrigger.Stop _ \<Rightarrow> StatusStop))),
      attribute (attribute_type_as_u8 rp AcctSessionId) (bytes_of_string session_id)] @
     nas_attributes rp ctx @
     (case cls of None \<Rightarrow> [] | Some c \<Rightarrow> [attribute (attribute_type_as_u8 rp ClassAttr) c]) @
     (case trigger of
        AcctTrigger.Start \<Rightarrow> []
      | AcctTrigger.Stop cause \<Rightarrow>
          [attribute (attribute_type_as_u8 rp AcctTerminateCauseAttr)
             (u32_to_be (acct_cause_as_u32 rp (terminate_cause cause)))])"

lemma accounting_request_iff:
  assumes laws: "radius_laws rp"
  shows "accounting_request rp ctx i trigger session_id cls secret = Inr p \<longleftrightarrow>
    length session_id \<le> 253 \<and> names_fit ctx \<and> state_fits cls \<and>
    (let zero = \<lparr>pkt_code = AccountingRequest, pkt_identifier = i, authenticator = replicate 16 0,
           attributes = accounting_attributes rp ctx trigger session_id cls\<rparr>
     in p = zero\<lparr>authenticator := calculate_accounting_request_authenticator rp zero secret\<rparr>)"
  by (cases cls; cases trigger)
    (auto simp: accounting_request_def and_then_Inr_iff push_attribute_simps [OF laws]
      append_nas_attributes_iff [OF laws] packet_lawsD [OF laws] accounting_attributes_def
      state_fits_def Let_def)

lemma terminate_cause_inj: "inj terminate_cause"
proof (rule injI)
  show "c = d" if "terminate_cause c = terminate_cause d" for c d
    using that by (cases c; cases d; simp)
qed

section \<open>Properties\<close>

text \<open>
  C24. A \<open>User-Name\<close> is accepted exactly when it is 1 to 253 octets of valid UTF-8
  without control characters or Unicode line separators, and it is then passed on
  unchanged.
\<close>

theorem user_name_exact:
  "user_name i = Inr n \<longleftrightarrow>
     i \<noteq> [] \<and> length i \<le> 253 \<and> bytes_of_string n = i \<and>
     (\<exists>chars. utf8_chars i = Some chars \<and>
        list_all (\<lambda>c. \<not> is_control c \<and> c \<noteq> 0x2028 \<and> c \<noteq> 0x2029) chars)"
proof -
  have "bytes_of_string n = i \<longleftrightarrow> n = string_of_bytes i"
    by (metis bytes_of_string_of_bytes string_of_bytes_of_string)
  then show ?thesis
    by (auto simp: user_name_Inr_iff list_ex_iff list_all_iff)
qed

text \<open>
  An EAP Access-Request is built exactly when there is something to relay, the
  identity is a conforming \<open>User-Name\<close>, \<open>State\<close> and the NAS names fit an attribute and
  the packet encodes; it then carries \<open>User-Name\<close>, \<open>Service-Type\<close>, \<open>State\<close>, the NAS
  attributes, the EAP fragments and last the \<open>Message-Authenticator\<close>.
\<close>

theorem eap_request_built_iff:
  assumes "radius_laws rp"
  shows "access_request_eap rp ctx i ra eap_ident st eap secret = Inr p \<longleftrightarrow>
    eap \<noteq> [] \<and> identity_ok eap_ident \<and> state_fits st \<and> names_fit ctx \<and>
    sealed rp i ra secret (eap_request_attributes rp ctx eap_ident st eap) p"
  by (rule access_request_eap_iff [OF assms])

definition sample_ctx :: RequestContext where
  "sample_ctx = \<lparr>nas_ip = Some (10, 0, 0, 1), nas_identifier = ''sw'', nas_port_id = ''Ethernet0'',
     nas_port = None, calling_station = (2, 0, 0, 0, 0, 1), called_station = (2, 0, 0, 0, 0, 254)\<rparr>"

theorem eap_request_built_iff_witness:
  "\<not> (\<exists>p. access_request_eap rfc_proto sample_ctx 7 (replicate 16 9) (Some [97, 10]) None [2, 1, 0, 7, 1, 97, 10]
      [1, 2] = Inr p)"
  using eap_request_built_iff [OF rfc_proto_laws, of sample_ctx 7 "replicate 16 9" "Some [97, 10]" None
      "[2, 1, 0, 7, 1, 97, 10]" "[1, 2]"]
  by (simp add: identity_ok_def user_name_Inr_iff utf8_chars_ascii is_control_def)

text \<open>
  C17. The EAP packet survives the RADIUS hop: the \<open>EAP-Message\<close> fragments of a built
  request reassemble to the packet relayed, the request has the identifier and
  authenticator it was built with, and its \<open>Message-Authenticator\<close> verifies.
\<close>

theorem eap_request_relays:
  assumes "radius_laws rp" "access_request_eap rp ctx i ra eap_ident st eap secret = Inr p"
  shows "reassemble rp p = eap \<and> pkt_code p = AccessRequest \<and> pkt_identifier p = i \<and>
    authenticator p = ra \<and> verify_message_authenticator rp p ra secret \<and> extract_state rp p = st"
proof -
  let ?attrs = "eap_request_attributes rp ctx eap_ident st eap"
  have s: "sealed rp i ra secret ?attrs p"
    using assms access_request_eap_iff by blast
  have "extract_state rp p = st" using eap_request_state [OF assms] .
  moreover have "pkt_code p = AccessRequest \<and> pkt_identifier p = i \<and> authenticator p = ra"
    using s by (auto simp: sealed_def)
  ultimately show ?thesis
    using eap_request_reassemble [OF assms(1) s] sealed_verifies [OF assms(1) attribute_types(3) [OF assms(1)] s]
    by blast
qed

theorem eap_request_relays_witness:
  "\<exists>p. access_request_eap rfc_proto sample_ctx 7 (replicate 16 9) None (Some [5]) [2, 1, 0, 5, 55] [1, 2] = Inr p \<and>
    reassemble rfc_proto p = [2, 1, 0, 5, 55] \<and> extract_state rfc_proto p = Some [5]"
proof -
  have "\<exists>p. sealed rfc_proto 7 (replicate 16 9) [1, 2]
      (eap_request_attributes rfc_proto sample_ctx None (Some [5]) [2, 1, 0, 5, 55]) p"
    by (simp add: sealed_def eap_request_attributes_def nas_attributes_def sample_ctx_def chunks_short)
      (simp add: rfc_proto_def rfc_encode_def format_mac_length Let_def)
  then obtain p where p: "access_request_eap rfc_proto sample_ctx 7 (replicate 16 9) None (Some [5])
      [2, 1, 0, 5, 55] [1, 2] = Inr p"
    by (auto simp: access_request_eap_iff [OF rfc_proto_laws] identity_ok_def state_fits_def names_fit_def
        sample_ctx_def)
  from eap_request_relays [OF rfc_proto_laws p] p show ?thesis by blast
qed


text \<open>
  Sealing is idempotent: sealing a sealed packet again changes nothing, so no
  second, unsigned \<open>Message-Authenticator\<close> can appear.
\<close>

theorem seal_idempotent:
  assumes "radius_laws rp" "seal_message_authenticator rp secret p = Inr q"
  shows "seal_message_authenticator rp secret q = Inr q"
  by (rule seal_again [OF assms])

theorem seal_idempotent_witness:
  "\<exists>q. seal_message_authenticator rfc_proto [1, 2]
      \<lparr>pkt_code = AccessRequest, pkt_identifier = 1, authenticator = replicate 16 0, attributes = []\<rparr> = Inr q \<and>
    seal_message_authenticator rfc_proto [1, 2] q = Inr q"
proof -
  obtain q where q: "seal_message_authenticator rfc_proto [1, 2]
      \<lparr>pkt_code = AccessRequest, pkt_identifier = 1, authenticator = replicate 16 0, attributes = []\<rparr> = Inr q"
    by (simp add: seal_message_authenticator_def push_attribute_def set_authenticators_def Let_def)
      (simp add: rfc_proto_def rfc_attribute_new_def rfc_encode_def Let_def)
  with seal_idempotent [OF rfc_proto_laws q] show ?thesis by blast
qed

text \<open>
  C9. A reply that carries EAP is authenticated: when \<open>verify_reply\<close> accepts a reply
  with an \<open>EAP-Message\<close>, the reply has a \<open>Message-Authenticator\<close> that is the keyed
  digest of the reply with our Request Authenticator in place and the field zeroed,
  and its Response Authenticator was accepted.
\<close>

theorem eap_reply_authenticated:
  assumes "radius_laws rp" "verify_reply rp reply ra secret" "reassemble rp reply \<noteq> []"
  shows "verify_response_authenticator rp reply ra secret \<and>
    (\<exists>m bs. find_attribute rp reply MESSAGE_AUTHENTICATOR = Some (attribute MESSAGE_AUTHENTICATOR m) \<and>
      packet_encode rp (set_authenticators (replicate 16 0) (reply\<lparr>authenticator := ra\<rparr>)) = Inr bs \<and>
      m = calculate_message_authenticator rp bs secret)"
  using verified_eap_reply [OF assms] assms(2) by (simp add: verify_reply_def split: if_splits)

definition sample_challenge :: Packet where
  "sample_challenge =
     \<lparr>pkt_code = AccessChallenge, pkt_identifier = 0, authenticator = checksum [1, 2] (replicate 16 9),
      attributes = [attribute EAP_MESSAGE [1, 2, 0, 6, 55, 0], attribute STATE [5],
        attribute MESSAGE_AUTHENTICATOR (replicate 16 232)]\<rparr>"

lemma sample_challenge_verifies: "verify_reply rfc_proto sample_challenge (replicate 16 9) [1, 2]"
  by (simp add: verify_reply_def verify_message_authenticator_def sample_challenge_def radius_consts
      set_authenticators_def Let_def)
    (simp add: rfc_proto_def rfc_response_ok_def rfc_encode_def checksum_def u16_to_be_def
      set_authenticators_def MESSAGE_AUTHENTICATOR_def sum_list_replicate Let_def)

theorem eap_reply_authenticated_witness:
  "\<exists>m. find_attribute rfc_proto sample_challenge MESSAGE_AUTHENTICATOR = Some (attribute MESSAGE_AUTHENTICATOR m)"
  using eap_reply_authenticated [OF rfc_proto_laws sample_challenge_verifies]
  by (simp add: reassemble_def packet_lawsD [OF rfc_proto_laws])
    (simp add: sample_challenge_def radius_consts)

text \<open>
  C25. A VLAN is only taken from a complete RFC 3580 group: a parsed Access-Accept
  carries VLAN \<open>v\<close> exactly when \<open>Tunnel-Private-Group-ID\<close> is present, and then
  \<open>Tunnel-Type\<close> is 13, \<open>Tunnel-Medium-Type\<close> is 6 and \<open>v\<close> is the non-empty group id
  without its tag; otherwise parsing fails closed.
\<close>

theorem accepted_vlan_is_rfc3580:
  assumes "parse_reply rp reply = Inr (Event.AccessAccept a eap)"
  shows "vlan a = (case find_attribute rp reply TUNNEL_PRIVATE_GROUP_ID of
        None \<Rightarrow> None | Some g \<Rightarrow> Some (from_utf8_lossy (untagged (attr_value g)))) \<and>
    (\<forall>v. vlan a = Some v \<longrightarrow> vlan_tunnel rp reply \<and> v \<noteq> [])"
  using parse_authorization_vlan [of rp reply a] parse_reply_accept [OF assms]
  by (auto simp: parse_vlan_Inr_iff from_utf8_lossy_def utf8_lossy_empty_iff string_of_bytes_def
      split: option.splits)

definition sample_accept :: Packet where
  "sample_accept =
     \<lparr>pkt_code = AccessAccept, pkt_identifier = 7, authenticator = replicate 16 0,
      attributes = [attribute TUNNEL_TYPE [0, 0, 0, 13], attribute TUNNEL_MEDIUM_TYPE [0, 0, 0, 6],
        attribute TUNNEL_PRIVATE_GROUP_ID [1, 52, 50]]\<rparr>"

lemma sample_accept_parses:
  "parse_reply rfc_proto sample_accept =
     Inr (Event.AccessAccept (authorization_default\<lparr>vlan := Some (from_utf8_lossy [52, 50])\<rparr>) None)"
  by (simp add: parse_reply_def parse_authorization_def parse_vlan_def reassemble_def non_empty_def
      packet_lawsD [OF rfc_proto_laws] sample_accept_def radius_consts untagged_def MAX_TAG_OCTET_def
      read_tagged_u32_def u32_from_be_def authorization_default_def Let_def)
    (simp add: rfc_proto_def)

theorem accepted_vlan_is_rfc3580_witness:
  "vlan_tunnel rfc_proto sample_accept \<and> from_utf8_lossy [52, 50] \<noteq> []"
  using accepted_vlan_is_rfc3580 [OF sample_accept_parses] by simp

text \<open>
  C26. An Accounting-Request is built exactly when its names, session id and class
  fit an attribute; it carries the status, the session id, the NAS attributes, the
  class and, for a Stop only, the termination cause, under an authenticator computed
  over the packet with a zero authenticator; distinct causes are told apart.
\<close>

theorem accounting_request_exact:
  assumes "radius_laws rp"
  shows "(accounting_request rp ctx i trigger session_id cls secret = Inr p \<longleftrightarrow>
    length session_id \<le> 253 \<and> names_fit ctx \<and> state_fits cls \<and>
    (let zero = \<lparr>pkt_code = AccountingRequest, pkt_identifier = i, authenticator = replicate 16 0,
           attributes = accounting_attributes rp ctx trigger session_id cls\<rparr>
     in p = zero\<lparr>authenticator := calculate_accounting_request_authenticator rp zero secret\<rparr>)) \<and>
    inj (\<lambda>c. acct_cause_as_u32 rp (terminate_cause c))"
  using accounting_request_iff [OF assms]
    inj_compose [OF numbering_lawsD(3) [OF assms] terminate_cause_inj]
  by (simp add: o_def)

theorem accounting_request_exact_witness:
  "\<exists>p. accounting_request rfc_proto sample_ctx 3 (AcctTrigger.Stop PortLinkDown) ''Ethernet0-1'' None [1] = Inr p
     \<and> last (attributes p) = attribute 49 [0, 0, 0, 2]"
proof -
  let ?zero = "\<lparr>pkt_code = AccountingRequest, pkt_identifier = 3, authenticator = replicate 16 0,
    attributes = accounting_attributes rfc_proto sample_ctx (AcctTrigger.Stop PortLinkDown) ''Ethernet0-1'' None\<rparr>"
  let ?p = "?zero\<lparr>authenticator := calculate_accounting_request_authenticator rfc_proto ?zero [1]\<rparr>"
  have "accounting_request rfc_proto sample_ctx 3 (AcctTrigger.Stop PortLinkDown) ''Ethernet0-1'' None [1] = Inr ?p"
    using accounting_request_exact [OF rfc_proto_laws, of sample_ctx 3 "AcctTrigger.Stop PortLinkDown"
        "''Ethernet0-1''" None "[1]" ?p]
    by (simp add: names_fit_def state_fits_def sample_ctx_def)
  moreover have "last (attributes ?p) = attribute 49 [0, 0, 0, 2]"
    by (simp add: accounting_attributes_def u32_to_be_def) (simp add: rfc_proto_def)
  ultimately show ?thesis by blast
qed

end
