(* ===== verification/Radsec.thy ===== *)
theory Radsec
  imports Radius_Client
begin

text \<open>
  The RadSec transport (\<open>crates/radsec\<close>): RADIUS framing over a byte stream
  (\<open>framing.rs\<close>), the request/reply exchange with its deadline (\<open>client.rs\<close>), the locked
  crypto policy (\<open>fips.rs\<close>) and the TLS configuration gate (\<open>tls.rs\<close>). The TLS stream
  is the octets still to be read and those written; a read that has to wait
  consumes what has arrived. PEM parsing and the rustls builder are parameters.
\<close>

section \<open>Errors\<close>

text \<open>An error of rustls, as its text.\<close>

datatype TlsError = TlsError string

datatype RadSecError =
    Io IoError
  | Tls TlsError
  | NotFips
  | CryptoPolicyViolation
  | NoCredential
  | BadFrameLength nat
  | RadSecProto PacketError
  | BadServerName
  | Timeout
  | UnexpectedReply u8 u8

section \<open>Framing\<close>

text \<open>
  The stream: what the peer has sent and is not read yet, what was written, the error
  that a read gives once the received octets are used up (a closed stream gives one too;
  \<open>None\<close> waits), and the error of a write or flush with the number of octets that are
  still accepted before it.
\<close>

record TlsStream =
  inbound :: bytes
  outbound :: bytes
  read_error :: "IoError option"
  write_error :: "(nat \<times> IoError) option"

text \<open>\<open>Pending\<close> is a future that waits for the peer.\<close>

datatype 'a poll = Pending | Ready 'a

definition read_exact :: "nat \<Rightarrow> TlsStream \<Rightarrow> TlsStream \<times> (RadSecError + bytes) poll" where
  "read_exact n st =
     (if n \<le> length (inbound st)
      then (st\<lparr>inbound := drop n (inbound st)\<rparr>, Ready (Inr (take n (inbound st))))
      else (st\<lparr>inbound := []\<rparr>, case read_error st of Some e \<Rightarrow> Ready (Inl (Io e)) | None \<Rightarrow> Pending))"

text \<open>\<open>fut.await?\<close>: wait, propagate an error, or go on.\<close>

definition await_then ::
    "TlsStream \<times> (RadSecError + 'a) poll \<Rightarrow> ('a \<Rightarrow> TlsStream \<Rightarrow> TlsStream \<times> (RadSecError + 'b) poll)
       \<Rightarrow> TlsStream \<times> (RadSecError + 'b) poll" where
  "await_then r f =
     (case snd r of
        Pending \<Rightarrow> (fst r, Pending)
      | Ready (Inl e) \<Rightarrow> (fst r, Ready (Inl e))
      | Ready (Inr x) \<Rightarrow> f x (fst r))"

lemma await_then_simps [simp]:
  "await_then (st, Pending) f = (st, Pending)"
  "await_then (st, Ready (Inl e)) f = (st, Ready (Inl e))"
  "await_then (st, Ready (Inr x)) f = f x st"
  by (simp_all add: await_then_def)

definition RADIUS_HEADER_LEN :: nat where "RADIUS_HEADER_LEN = 4"

definition declared_length :: "bytes \<Rightarrow> nat" where
  "declared_length hdr = (case hdr of [_, _, hi, lo] \<Rightarrow> unat (u16_from_be hi lo) | _ \<Rightarrow> 0)"

definition read_packet :: "RadiusProto \<Rightarrow> TlsStream \<Rightarrow> TlsStream \<times> (RadSecError + Packet) poll" where
  "read_packet rp st =
     await_then (read_exact RADIUS_HEADER_LEN st) (\<lambda>hdr st.
       let len = declared_length hdr
       in if \<not> (min_packet_size rp \<le> len \<and> len \<le> max_packet_size rp)
          then (st, Ready (Inl (BadFrameLength len)))
          else if len < RADIUS_HEADER_LEN then (st, Ready (Inl (BadFrameLength len)))
          else await_then (read_exact (len - RADIUS_HEADER_LEN) st) (\<lambda>rest st.
            (st, Ready (map_err RadSecProto (packet_decode rp (hdr @ rest))))))"

definition write_packet :: "RadiusProto \<Rightarrow> TlsStream \<Rightarrow> Packet \<Rightarrow> TlsStream \<times> (RadSecError + unit)" where
  "write_packet rp st p =
     (case packet_encode rp p of
        Inl e \<Rightarrow> (st, Inl (RadSecProto e))
      | Inr bs \<Rightarrow>
          (case write_error st of
             Some (n, e) \<Rightarrow> (st\<lparr>outbound := outbound st @ take n bs\<rparr>, Inl (Io e))
           | None \<Rightarrow> (st\<lparr>outbound := outbound st @ bs\<rparr>, Inr ())))"

section \<open>The connection\<close>

record RadSecConnection =
  stream :: TlsStream
  io_timeout :: nat

text \<open>
  What \<open>connect\<close> takes from the network and from rustls: whether a string is a DNS
  name, the TCP connection and the handshake over it, each of which may still be
  pending at the deadline.
\<close>

record ('addr, 'tcp, 'config) Network =
  valid_server_name :: "string \<Rightarrow> bool"
  tcp_connect :: "'addr \<Rightarrow> (IoError + 'tcp) poll"
  tls_handshake :: "'config \<Rightarrow> string \<Rightarrow> 'tcp \<Rightarrow> (IoError + TlsStream) poll"

definition connect ::
    "('addr, 'tcp, 'config) Network \<Rightarrow> 'addr \<Rightarrow> string \<Rightarrow> 'config \<Rightarrow> nat \<Rightarrow> RadSecError + RadSecConnection" where
  "connect net addr name config deadline =
     (if \<not> valid_server_name net name then Inl BadServerName
      else
        (case (case tcp_connect net addr of
                 Pending \<Rightarrow> Pending
               | Ready (Inl e) \<Rightarrow> Ready (Inl e)
               | Ready (Inr tcp) \<Rightarrow> tls_handshake net config name tcp) of
           Pending \<Rightarrow> Inl Timeout
         | Ready (Inl e) \<Rightarrow> Inl (Io e)
         | Ready (Inr st) \<Rightarrow> Inr \<lparr>stream = st, io_timeout = deadline\<rparr>))"

text \<open>\<open>timeout(io_timeout, read)\<close>: a read that is still pending at the deadline is an error.\<close>

definition recv :: "RadiusProto \<Rightarrow> RadSecConnection \<Rightarrow> RadSecConnection \<times> (RadSecError + Packet)" where
  "recv rp c =
     (let (st, r) = read_packet rp (stream c)
      in (c\<lparr>stream := st\<rparr>, case r of Pending \<Rightarrow> Inl Timeout | Ready x \<Rightarrow> x))"

definition send :: "RadiusProto \<Rightarrow> RadSecConnection \<Rightarrow> Packet \<Rightarrow> RadSecConnection \<times> (RadSecError + unit)" where
  "send rp c p = (let (st, r) = write_packet rp (stream c) p in (c\<lparr>stream := st\<rparr>, r))"

definition request :: "RadiusProto \<Rightarrow> RadSecConnection \<Rightarrow> Packet \<Rightarrow> RadSecConnection \<times> (RadSecError + Packet)" where
  "request rp c req =
     then_do (let (st, r) = write_packet rp (stream c) req in (c\<lparr>stream := st\<rparr>, r)) (\<lambda>_ c.
     then_do (recv rp c) (\<lambda>reply c.
       (c, if pkt_identifier reply \<noteq> pkt_identifier req
           then Inl (UnexpectedReply (pkt_identifier req) (pkt_identifier reply))
           else Inr reply)))"

section \<open>The crypto policy\<close>

datatype NamedGroup = MLKEM1024 | OtherGroup u16
datatype CipherSuite = TLS13_AES_256_GCM_SHA384 | OtherSuite u16

record CryptoProvider =
  kx_groups :: "NamedGroup list"
  cipher_suites :: "CipherSuite list"
  module_validated :: bool

text \<open>\<open>provider()\<close>: the defaults of the module with the two lists replaced.\<close>

definition provider :: "CryptoProvider \<Rightarrow> CryptoProvider" where
  "provider default_provider =
     default_provider\<lparr>kx_groups := [MLKEM1024], cipher_suites := [TLS13_AES_256_GCM_SHA384]\<rparr>"

definition assert_policy :: "CryptoProvider \<Rightarrow> RadSecError + unit" where
  "assert_policy p =
     (let kx_ok = (case kx_groups p of [g] \<Rightarrow> g = MLKEM1024 | _ \<Rightarrow> False);
          suite_ok = (case cipher_suites p of [s] \<Rightarrow> s = TLS13_AES_256_GCM_SHA384 | _ \<Rightarrow> False)
      in if kx_ok \<and> suite_ok then Inr () else Inl CryptoPolicyViolation)"

text \<open>\<open>fips\<close> is the provider's own report, \<open>CryptoProvider::fips\<close>.\<close>

definition assert_fips :: "(CryptoProvider \<Rightarrow> bool) \<Rightarrow> CryptoProvider \<Rightarrow> RadSecError + unit" where
  "assert_fips fips p = (if \<not> fips p then Inl NotFips else assert_policy p)"

section \<open>The TLS configuration\<close>

text \<open>
  What \<open>tls.rs\<close> takes from rustls: parsing certificates and a key out of PEM, adding a
  root, and the builder of a TLS 1.3 client.
\<close>

record ('cert, 'key, 'config) Rustls =
  default_provider :: CryptoProvider
  provider_fips :: "CryptoProvider \<Rightarrow> bool"
  pem_certs :: "bytes \<Rightarrow> IoError + 'cert list"
  pem_private_key :: "bytes \<Rightarrow> IoError + 'key option"
  root_add :: "'cert list \<Rightarrow> 'cert \<Rightarrow> TlsError + unit"
  build_config :: "CryptoProvider \<Rightarrow> 'cert list \<Rightarrow> 'cert list \<Rightarrow> 'key \<Rightarrow> TlsError + 'config"

definition load_certs :: "('cert, 'key, 'config) Rustls \<Rightarrow> bytes \<Rightarrow> RadSecError + 'cert list" where
  "load_certs L pem = map_err Io (pem_certs L pem)"

definition load_key :: "('cert, 'key, 'config) Rustls \<Rightarrow> bytes \<Rightarrow> RadSecError + 'key" where
  "load_key L pem = and_then (map_err Io (pem_private_key L pem)) (\<lambda>k. ok_or k NoCredential)"

fun add_roots :: "('cert, 'key, 'config) Rustls \<Rightarrow> 'cert list \<Rightarrow> 'cert list \<Rightarrow> RadSecError + 'cert list" where
  "add_roots L roots [] = Inr roots"
| "add_roots L roots (c # cs) =
     and_then (map_err Tls (root_add L roots c)) (\<lambda>_. add_roots L (roots @ [c]) cs)"

definition client_config ::
    "('cert, 'key, 'config) Rustls \<Rightarrow> bytes \<Rightarrow> bytes \<Rightarrow> bytes \<Rightarrow> RadSecError + 'config" where
  "client_config L trust_anchors_pem client_cert_pem client_key_pem =
     (let p = provider (default_provider L)
      in and_then (assert_fips (provider_fips L) p) (\<lambda>_.
         and_then (load_certs L trust_anchors_pem) (\<lambda>anchors.
         and_then (add_roots L [] anchors) (\<lambda>roots.
         if roots = [] then Inl NoCredential
         else
           and_then (load_certs L client_cert_pem) (\<lambda>client_chain.
           if client_chain = [] then Inl NoCredential
           else
             and_then (load_key L client_key_pem) (\<lambda>key.
             map_err Tls (build_config L p roots client_chain key)))))))"

section \<open>Lemmas\<close>

lemma read_exact_enough:
  "length xs = n \<Longrightarrow> read_exact n (st\<lparr>inbound := xs @ ys\<rparr>) = (st\<lparr>inbound := ys\<rparr>, Ready (Inr xs))"
  by (simp add: read_exact_def)

lemma assert_policy_iff:
  "assert_policy p = Inr () \<longleftrightarrow> kx_groups p = [MLKEM1024] \<and> cipher_suites p = [TLS13_AES_256_GCM_SHA384]"
  by (auto simp: assert_policy_def Let_def split: list.splits)

lemma read_packet_frame:
  assumes "codec_laws rp" "packet_encode rp p = Inr bs"
  shows "read_packet rp (st\<lparr>inbound := bs @ rest\<rparr>) =
    (st\<lparr>inbound := rest\<rparr>, Ready (map_err RadSecProto (packet_decode rp bs)))"
proof -
  from assms have len: "4 \<le> min_packet_size rp" "min_packet_size rp \<le> length bs" "length bs \<le> max_packet_size rp"
    "unat (u16_from_be (bs ! 2) (bs ! 3)) = length bs" by (auto simp: codec_laws_def)
  then obtain a b c d ys where bs: "bs = a # b # c # d # ys"
    by (cases bs rule: get_upto_4_cases) auto
  have hdr: "declared_length [a, b, c, d] = 4 + length ys"
    using len(4) by (simp add: bs declared_length_def)
  have "read_exact 4 (st\<lparr>inbound := [a, b, c, d] @ (ys @ rest)\<rparr>) =
      (st\<lparr>inbound := ys @ rest\<rparr>, Ready (Inr [a, b, c, d]))"
    by (rule read_exact_enough) simp
  moreover have "read_exact (length ys) (st\<lparr>inbound := ys @ rest\<rparr>) = (st\<lparr>inbound := rest\<rparr>, Ready (Inr ys))"
    by (rule read_exact_enough) simp
  ultimately show ?thesis
    using len(2,3) by (simp add: read_packet_def RADIUS_HEADER_LEN_def hdr bs Let_def)
qed

lemma add_roots_Inr: "add_roots L roots cs = Inr rs \<Longrightarrow> rs = roots @ cs"
  by (induction L roots cs rule: add_roots.induct) (auto simp: and_then_Inr_iff)

section \<open>Properties\<close>

text \<open>
  C27. Framing is exact: what \<open>write_packet\<close> puts on the wire is read back by
  \<open>read_packet\<close> as one frame, handed to the codec octet for octet, and whatever
  follows it on the stream is left for the next read.
\<close>

theorem framing_exact:
  assumes "codec_laws rp" "decodes_back rp p" "write_packet rp w p = (w', Inr ())"
  shows "\<exists>bs. outbound w' = outbound w @ bs \<and>
    (\<forall>st rest. read_packet rp (st\<lparr>inbound := bs @ rest\<rparr>) = (st\<lparr>inbound := rest\<rparr>, Ready (Inr p)))"
proof -
  from assms(3) obtain bs where bs: "packet_encode rp p = Inr bs" "outbound w' = outbound w @ bs"
    by (auto simp: write_packet_def split: sum.splits option.splits)
  with assms(2) have "packet_decode rp bs = Inr p" by (simp add: decodes_back_def)
  with read_packet_frame [OF assms(1) bs(1)] bs(2) show ?thesis by auto
qed

definition sample_reject :: Packet where
  "sample_reject = \<lparr>pkt_code = AccessReject, pkt_identifier = 7, authenticator = replicate 16 3,
     attributes = []\<rparr>"

lemma sample_reject_codes:
  "packet_encode rfc_proto sample_reject =
     Inr ([3, 7, 0, 20] @ replicate 16 3)"
  "decodes_back rfc_proto sample_reject"
proof -
  show e: "packet_encode rfc_proto sample_reject = Inr ([3, 7, 0, 20] @ replicate 16 3)"
    by (simp add: rfc_proto_def rfc_encode_def sample_reject_def u16_to_be_def)
  show "decodes_back rfc_proto sample_reject"
    unfolding decodes_back_def e
    by (simp add: rfc_proto_def rfc_decode_def sample_reject_def rfc_code_of_def u16_from_be_def)
qed

theorem framing_exact_witness:
  "\<exists>bs. outbound (fst (write_packet rfc_proto
      \<lparr>inbound = [], outbound = [], read_error = None, write_error = None\<rparr> sample_reject)) = [] @ bs \<and>
    (\<forall>st rest. read_packet rfc_proto (st\<lparr>inbound := bs @ rest\<rparr>) = (st\<lparr>inbound := rest\<rparr>, Ready (Inr sample_reject)))"
  using framing_exact [OF rfc_codec_laws sample_reject_codes(2),
      of "\<lparr>inbound = [], outbound = [], read_error = None, write_error = None\<rparr>"]
  by (simp add: write_packet_def sample_reject_codes(1))

text \<open>
  C28. An exchange answers or fails in time: a request gives the next packet of the
  stream exactly when it can be encoded and written and the server's next frame is
  complete, decodes and has the request's identifier; a server that stays silent gives
  a timeout, and the octets after the reply stay on the stream for the next exchange.
\<close>

theorem request_outcomes:
  assumes laws: "codec_laws rp" and "packet_encode rp req = Inr bs" and "write_error (stream c) = None"
  shows "(\<forall>reply rs rest. inbound (stream c) = rs @ rest \<and> packet_encode rp reply = Inr rs \<and> decodes_back rp reply \<longrightarrow>
      request rp c req =
        (c\<lparr>stream := (stream c)\<lparr>inbound := rest, outbound := outbound (stream c) @ bs\<rparr>\<rparr>,
         if pkt_identifier reply = pkt_identifier req then Inr reply
         else Inl (UnexpectedReply (pkt_identifier req) (pkt_identifier reply)))) \<and>
    (length (inbound (stream c)) < 4 \<longrightarrow>
      snd (request rp c req) = Inl (case read_error (stream c) of Some e \<Rightarrow> Io e | None \<Rightarrow> Timeout))"
proof (intro conjI allI impI)
  let ?c = "c\<lparr>stream := (stream c)\<lparr>outbound := outbound (stream c) @ bs\<rparr>\<rparr>"
  have w: "write_packet rp (stream c) req = (stream ?c, Inr ())"
    using assms by (simp add: write_packet_def)
  fix reply rs rest
  assume r: "inbound (stream c) = rs @ rest \<and> packet_encode rp reply = Inr rs \<and> decodes_back rp reply"
  then have eq: "(stream ?c)\<lparr>inbound := rs @ rest\<rparr> = stream ?c" by simp
  have "packet_decode rp rs = Inr reply" using r by (auto simp: decodes_back_def)
  then have "read_packet rp ((stream ?c)\<lparr>inbound := rs @ rest\<rparr>) = ((stream ?c)\<lparr>inbound := rest\<rparr>, Ready (Inr reply))"
    using read_packet_frame [OF laws, where p = reply and bs = rs and st = "stream ?c" and rest = rest] r
    by (simp add: map_err_def)
  then have "read_packet rp (stream ?c) = ((stream ?c)\<lparr>inbound := rest\<rparr>, Ready (Inr reply))" by (simp only: eq)
  then show "request rp c req =
      (c\<lparr>stream := (stream c)\<lparr>inbound := rest, outbound := outbound (stream c) @ bs\<rparr>\<rparr>,
       if pkt_identifier reply = pkt_identifier req then Inr reply
       else Inl (UnexpectedReply (pkt_identifier req) (pkt_identifier reply)))"
    using w by (simp add: request_def recv_def)
next
  assume "length (inbound (stream c)) < 4"
  then show "snd (request rp c req) = Inl (case read_error (stream c) of Some e \<Rightarrow> Io e | None \<Rightarrow> Timeout)"
    using assms(2,3)
    by (cases "read_error (stream c)")
      (simp_all add: request_def write_packet_def recv_def read_packet_def read_exact_def RADIUS_HEADER_LEN_def)
qed

definition sample_connection :: RadSecConnection where
  "sample_connection = \<lparr>stream = \<lparr>inbound = [], outbound = [], read_error = None, write_error = None\<rparr>, io_timeout = 5\<rparr>"

theorem request_outcomes_witness:
  "snd (request rfc_proto sample_connection sample_reject) = Inl Timeout"
  using request_outcomes [OF rfc_codec_laws sample_reject_codes(1), of sample_connection]
  by (simp add: sample_connection_def)

text \<open>
  C29. No RadSec without the locked, validated crypto: \<open>client_config\<close> yields a
  configuration only if the module reports FIPS validation, and then the provider
  offers exactly ML-KEM-1024 and AES-256-GCM-SHA384, with at least one trust anchor
  and a client chain.
\<close>

theorem client_config_fail_closed:
  assumes "client_config L ca cert key = Inr c"
  shows "\<exists>p roots chain k. provider_fips L p \<and> kx_groups p = [MLKEM1024] \<and>
    cipher_suites p = [TLS13_AES_256_GCM_SHA384] \<and> pem_certs L ca = Inr roots \<and> roots \<noteq> [] \<and>
    pem_certs L cert = Inr chain \<and> chain \<noteq> [] \<and> pem_private_key L key = Inr (Some k) \<and>
    build_config L p roots chain k = Inr c"
proof -
  let ?p = "provider (default_provider L)"
  from assms obtain u anchors roots chain k where f: "assert_fips (provider_fips L) ?p = Inr u"
    and "pem_certs L ca = Inr anchors" "add_roots L [] anchors = Inr roots" "roots \<noteq> []"
      "pem_certs L cert = Inr chain" "chain \<noteq> []" "pem_private_key L key = Inr (Some k)"
      "build_config L ?p roots chain k = Inr c"
    by (auto simp: client_config_def and_then_Inr_iff load_certs_def load_key_def Let_def split: if_splits)
  moreover have "provider_fips L ?p" using f by (simp add: assert_fips_def split: if_splits)
  moreover have "kx_groups ?p = [MLKEM1024] \<and> cipher_suites ?p = [TLS13_AES_256_GCM_SHA384]"
    by (simp add: provider_def)
  ultimately show ?thesis using add_roots_Inr by fastforce
qed

definition sample_rustls :: "(nat, nat, nat) Rustls" where
  "sample_rustls =
     \<lparr>default_provider = \<lparr>kx_groups = [OtherGroup 29], cipher_suites = [OtherSuite 1], module_validated = True\<rparr>,
      provider_fips = module_validated, pem_certs = (\<lambda>pem. Inr (map unat pem)),
      pem_private_key = (\<lambda>pem. Inr (Some (length pem))), root_add = (\<lambda>_ _. Inr ()),
      build_config = (\<lambda>_ _ _ k. Inr k)\<rparr>"

theorem client_config_fail_closed_witness:
  "\<exists>p roots chain k. provider_fips sample_rustls p \<and> kx_groups p = [MLKEM1024] \<and>
    cipher_suites p = [TLS13_AES_256_GCM_SHA384] \<and> pem_certs sample_rustls [1] = Inr roots \<and> roots \<noteq> [] \<and>
    pem_certs sample_rustls [2] = Inr chain \<and> chain \<noteq> [] \<and>
    pem_private_key sample_rustls [3] = Inr (Some k) \<and> build_config sample_rustls p roots chain k = Inr 1"
  by (rule client_config_fail_closed)
    (simp add: client_config_def assert_fips_def assert_policy_def provider_def load_certs_def load_key_def
      sample_rustls_def)

end
