(* ===== verification/Eapol_Io.thy ===== *)
theory Eapol_Io
  imports Pacp
begin

text \<open>
  The EAPOL raw socket (\<open>crates/eapol-io\<close>): interface-name validation, index
  resolution, opening and binding, and the receive and transmit loops. The system
  calls are the fields of the record \<open>Kernel\<close>; a receive or transmit attempt is one
  of the outcomes \<open>try_io\<close> can report.
\<close>

section \<open>Names and constants\<close>

unbundle bit_operations_syntax

datatype EapolError =
    InvalidInterfaceName string
  | InterfaceNotFound string
  | EapolIo IoError
  | FrameTooShort nat

definition ETH_P_PAE :: u16 where "ETH_P_PAE = 0x888E"
definition AF_PACKET :: u16 where "AF_PACKET = 17"
definition AF_PACKET_I32 :: int where "AF_PACKET_I32 = 17"
definition IFNAMSIZ :: nat where "IFNAMSIZ = 16"
definition FRAME_CAP :: nat where "FRAME_CAP = 1600"
definition ETHERNET_HEADER_LEN :: nat where "ETHERNET_HEADER_LEN = 14"
definition SOCK_RAW :: int where "SOCK_RAW = 3"
definition SOCK_CLOEXEC :: int where "SOCK_CLOEXEC = 0x80000"
definition SOCK_NONBLOCK :: int where "SOCK_NONBLOCK = 0x800"

text \<open>\<open>htons\<close>: \<open>u16::to_be\<close> on a host of the given byte order.\<close>

definition htons :: "bool \<Rightarrow> u16 \<Rightarrow> u16" where
  "htons little_endian value =
     (if little_endian then u16_from_be (u16_to_be value ! 1) (u16_to_be value ! 0) else value)"

record SockaddrLl =
  sll_family :: u16
  sll_protocol :: u16
  sll_ifindex :: int
  sll_hatype :: u16
  sll_pkttype :: u8
  sll_halen :: u8
  sll_addr :: bytes

definition sockaddr_default :: SockaddrLl where
  "sockaddr_default =
     \<lparr>sll_family = 0, sll_protocol = 0, sll_ifindex = 0, sll_hatype = 0, sll_pkttype = 0, sll_halen = 0,
      sll_addr = replicate 8 0\<rparr>"

definition sockaddr_for :: "bool \<Rightarrow> int \<Rightarrow> SockaddrLl" where
  "sockaddr_for le ifindex =
     sockaddr_default\<lparr>sll_family := AF_PACKET, sll_protocol := htons le ETH_P_PAE, sll_ifindex := ifindex\<rparr>"

section \<open>The socket\<close>

text \<open>What the socket takes from the C library and the kernel.\<close>

record Kernel =
  little_endian :: bool
  if_nametoindex :: "string \<Rightarrow> u32"
  sys_socket :: "int \<Rightarrow> int \<Rightarrow> int \<Rightarrow> IoError + nat"
  sys_bind :: "nat \<Rightarrow> SockaddrLl \<Rightarrow> IoError + unit"
  register_fd :: "nat \<Rightarrow> IoError + unit"

definition ifname_cstring :: "string \<Rightarrow> EapolError + string" where
  "ifname_cstring ifname =
     (if ifname = [] \<or> length ifname \<ge> IFNAMSIZ then Inl (InvalidInterfaceName ifname)
      else if CHR 0x00 \<in> set ifname then Inl (InvalidInterfaceName ifname)
      else Inr ifname)"

definition interface_index :: "Kernel \<Rightarrow> string \<Rightarrow> EapolError + int" where
  "interface_index K ifname =
     and_then (ifname_cstring ifname) (\<lambda>cstr.
       let index = if_nametoindex K cstr
       in if index = 0 then Inl (InterfaceNotFound ifname)
          else if unat index < 2 ^ 31 then Inr (int (unat index))
          else Inl (InterfaceNotFound ifname))"

record EapolSocket =
  fd :: nat
  ifindex :: int

definition bind_to_interface :: "Kernel \<Rightarrow> nat \<Rightarrow> int \<Rightarrow> EapolError + unit" where
  "bind_to_interface K f i =
     map_err EapolIo (sys_bind K f (sockaddr_for (little_endian K) i))"

definition eapol_open :: "Kernel \<Rightarrow> string \<Rightarrow> EapolError + EapolSocket" where
  "eapol_open K ifname =
     and_then (interface_index K ifname) (\<lambda>i.
     and_then (map_err EapolIo (sys_socket K AF_PACKET_I32 (SOCK_RAW OR SOCK_CLOEXEC OR SOCK_NONBLOCK)
       (int (unat (htons (little_endian K) ETH_P_PAE))))) (\<lambda>raw.
     and_then (bind_to_interface K raw i) (\<lambda>_.
     and_then (map_err EapolIo (register_fd K raw)) (\<lambda>_.
       Inr \<lparr>fd = raw, ifindex = i\<rparr>))))"

text \<open>
  One turn of the receive loop: the reactor fails, the descriptor was not ready after
  all, the call fails, or a frame arrives, of which at most \<open>FRAME_CAP\<close> octets are read.
\<close>

datatype 'a attempt = ReactorError IoError | WouldBlock | CallError IoError | Done 'a

fun eapol_recv :: "bytes attempt list \<Rightarrow> (EapolError + bytes) option" where
  "eapol_recv [] = None"
| "eapol_recv (ReactorError e # _) = Some (Inl (EapolIo e))"
| "eapol_recv (WouldBlock # more_attempts) = eapol_recv more_attempts"
| "eapol_recv (CallError e # _) = Some (Inl (EapolIo e))"
| "eapol_recv (Done wire # _) = Some (Inr (take FRAME_CAP wire))"

fun send_loop :: "unit attempt list \<Rightarrow> (EapolError + unit) option" where
  "send_loop [] = None"
| "send_loop (ReactorError e # _) = Some (Inl (EapolIo e))"
| "send_loop (WouldBlock # more_attempts) = send_loop more_attempts"
| "send_loop (CallError e # _) = Some (Inl (EapolIo e))"
| "send_loop (Done _ # _) = Some (Inr ())"

text \<open>\<open>sendto\<close> gives the kernel's successive answers for a descriptor, a frame and an address.\<close>

definition eapol_send ::
    "Kernel \<Rightarrow> (nat \<Rightarrow> bytes \<Rightarrow> SockaddrLl \<Rightarrow> unit attempt list) \<Rightarrow> EapolSocket \<Rightarrow> bytes
       \<Rightarrow> (EapolError + unit) option" where
  "eapol_send K sendto s frame =
     (if length frame < ETHERNET_HEADER_LEN then Some (Inl (FrameTooShort (length frame)))
      else
        let dest = sockaddr_for (little_endian K) (ifindex s)
        in send_loop (sendto (fd s) frame dest))"

section \<open>Lemmas\<close>

lemma ifname_cstring_iff:
  "ifname_cstring n = Inr c \<longleftrightarrow> c = n \<and> n \<noteq> [] \<and> length n \<le> 15 \<and> CHR 0x00 \<notin> set n"
  by (auto simp: ifname_cstring_def IFNAMSIZ_def)

lemma htons_involution: "htons le (htons le v) = v"
proof -
  have "htons True (htons True v) = v"
    using u16_be_roundtrip2 [of "u16_to_be v ! 1" "u16_to_be v ! 0"] u16_be_roundtrip [of v]
    by (simp add: htons_def u16_to_be_def [of v])
  then show ?thesis by (cases le) (simp_all add: htons_def)
qed

lemma encoded_frame_length:
  assumes "encode_frame p d s = Inr bs"
  shows "length bs = 18 + length (body p)"
  using assms by (auto simp: encode_frame_Inr_iff pdu_encode_Inr_iff)

section \<open>Properties\<close>

text \<open>
  C33. A socket is only opened on a usable interface: \<open>open\<close> succeeds only for a name of
  1 to 15 characters without NUL that resolves to a positive 31-bit index, and the
  socket is then bound to that index with the EAPOL protocol in network order.
\<close>

theorem open_binds_interface:
  assumes "eapol_open K n = Inr s"
  shows "n \<noteq> [] \<and> length n \<le> 15 \<and> CHR 0x00 \<notin> set n \<and>
    0 < ifindex s \<and> ifindex s < 2 ^ 31 \<and> ifindex s = int (unat (if_nametoindex K n)) \<and>
    sys_bind K (fd s) (sockaddr_for (little_endian K) (ifindex s)) = Inr () \<and>
    htons (little_endian K) (sll_protocol (sockaddr_for (little_endian K) (ifindex s))) = ETH_P_PAE"
proof -
  from assms obtain raw where i: "interface_index K n = Inr (ifindex s)" and "fd s = raw"
    and b: "bind_to_interface K (fd s) (ifindex s) = Inr ()"
    by (auto simp: eapol_open_def and_then_Inr_iff)
  from i have idx: "ifname_cstring n = Inr n \<and> if_nametoindex K n \<noteq> 0 \<and>
      ifindex s = int (unat (if_nametoindex K n)) \<and> unat (if_nametoindex K n) < 2 ^ 31"
    by (auto simp: interface_index_def and_then_Inr_iff ifname_cstring_iff Let_def split: if_splits)
  then have "0 < unat (if_nametoindex K n)" by (simp add: unat_gt_0)
  with idx have "0 < ifindex s \<and> ifindex s < 2 ^ 31" by (simp del: of_nat_unat)
  with idx show ?thesis
    using b by (auto simp: bind_to_interface_def ifname_cstring_iff sockaddr_for_def htons_involution
        split: if_splits)
qed

definition sample_kernel :: Kernel where
  "sample_kernel = \<lparr>little_endian = True, if_nametoindex = (\<lambda>_. 3), sys_socket = (\<lambda>_ _ _. Inr 5),
     sys_bind = (\<lambda>_ _. Inr ()), register_fd = (\<lambda>_. Inr ())\<rparr>"

lemma sample_open: "eapol_open sample_kernel ''Ethernet0'' = Inr \<lparr>fd = 5, ifindex = 3\<rparr>"
  by (simp add: eapol_open_def interface_index_def ifname_cstring_def IFNAMSIZ_def bind_to_interface_def
      sample_kernel_def)

theorem open_binds_interface_witness:
  "sys_bind sample_kernel 5 (sockaddr_for True 3) = Inr () \<and> htons True (sll_protocol (sockaddr_for True 3)) = ETH_P_PAE"
  using open_binds_interface [OF sample_open] by (simp add: sample_kernel_def)

text \<open>
  Frames of the codec always leave on the right port: no frame that \<open>encode_frame\<close>
  produced is refused as too short, and it goes to the kernel unchanged, addressed
  to the interface the socket was opened on.
\<close>

theorem encoded_frame_sendable:
  assumes "encode_frame p d s = Inr bs" and "eapol_open K n = Inr sock"
  shows "eapol_send K sendto sock bs =
    send_loop (sendto (fd sock) bs (sockaddr_for (little_endian K) (int (unat (if_nametoindex K n)))))"
proof -
  have "ifindex sock = int (unat (if_nametoindex K n))"
    using assms(2)
    by (auto simp: eapol_open_def interface_index_def ifname_cstring_iff and_then_Inr_iff Let_def
        split: option.splits if_splits)
  with encoded_frame_length [OF assms(1)] show ?thesis
    by (simp add: eapol_send_def ETHERNET_HEADER_LEN_def)
qed

theorem encoded_frame_sendable_witness:
  "\<exists>bs. encode_frame (pdu_new PacketType.Start []) PAE_GROUP_ADDR (2, 0, 0, 0, 0, 1) = Inr bs \<and>
     eapol_send sample_kernel (\<lambda>_ _ _. [WouldBlock, Done ()]) \<lparr>fd = 5, ifindex = 3\<rparr> bs = Some (Inr ())"
proof -
  obtain bs where bs: "encode_frame (pdu_new PacketType.Start []) PAE_GROUP_ADDR (2, 0, 0, 0, 0, 1) = Inr bs"
    by (simp add: encode_frame_def pdu_encode_into_def pdu_new_def u16_try_from_def)
  from encoded_frame_sendable [OF bs sample_open] bs show ?thesis by auto
qed

end
