(* ===== verification/Authd_Session.thy ===== *)
theory Authd_Session
  imports Authd_Config Radsec Eapol_Io
begin

text \<open>
  The daemon's error type (\<open>crates/authd/src/error.rs\<close>) and the per-supplicant RADIUS
  correlation state (\<open>session.rs\<close>): identifiers, the outstanding request, the echoed
  \<open>State\<close>, the retained \<open>User-Name\<close> and \<open>Class\<close>.
\<close>

datatype AuthdError =
    ConfigInvalid ConfigError
  | Radius RadiusClientError
  | NoPendingRequest
  | ReplyVerificationFailed
  | RadSec RadSecError
  | Eapol EapolError
  | Enforce string
  | Frame PacpError

section \<open>State and operations\<close>

record Outstanding =
  out_identifier :: u8
  request_authenticator :: bytes

record RadiusSession =
  next_id :: u8
  next_acct_id :: u8
  last_state :: "bytes option"
  known_user :: "bytes option"
  pending :: "Outstanding option"
  session_class :: "bytes option"

definition radius_session_new :: RadiusSession where
  "radius_session_new =
     \<lparr>next_id = 0, next_acct_id = 0, last_state = None, known_user = None, pending = None,
      session_class = None\<rparr>"

definition next_identifier :: "RadiusSession \<Rightarrow> RadiusSession \<times> u8" where
  "next_identifier rs = (rs\<lparr>next_id := next_id rs + 1\<rparr>, next_id rs)"

definition next_accounting_identifier :: "RadiusSession \<Rightarrow> RadiusSession \<times> u8" where
  "next_accounting_identifier rs = (rs\<lparr>next_acct_id := next_acct_id rs + 1\<rparr>, next_acct_id rs)"

definition build_eap_request ::
    "RadiusProto \<Rightarrow> RequestContext \<Rightarrow> bytes option \<Rightarrow> bytes \<Rightarrow> bytes \<Rightarrow> bytes \<Rightarrow> RadiusSession
       \<Rightarrow> RadiusSession \<times> (AuthdError + Packet)" where
  "build_eap_request rp ctx ident eap ra secret rs =
     (let rs = (case ident of Some i \<Rightarrow> rs\<lparr>known_user := Some i\<rparr> | None \<Rightarrow> rs);
          (rs, i) = next_identifier rs;
          rs = rs\<lparr>pending := Some \<lparr>out_identifier = i, request_authenticator = ra\<rparr>\<rparr>
      in (rs, map_err Radius
            (access_request_eap rp ctx i ra (known_user rs) (last_state rs) eap secret)))"

definition build_mab_request ::
    "RadiusProto \<Rightarrow> RequestContext \<Rightarrow> bytes \<Rightarrow> bytes \<Rightarrow> RadiusSession
       \<Rightarrow> RadiusSession \<times> (AuthdError + Packet)" where
  "build_mab_request rp ctx ra secret rs =
     (let (rs, i) = next_identifier rs;
          rs = rs\<lparr>pending := Some \<lparr>out_identifier = i, request_authenticator = ra\<rparr>\<rparr>
      in (rs, map_err Radius (access_request_mab rp ctx i ra secret)))"

definition note_class :: "Event \<Rightarrow> RadiusSession \<Rightarrow> RadiusSession" where
  "note_class event rs =
     (case event of Event.AccessAccept a _ \<Rightarrow> rs\<lparr>session_class := authz_class a\<rparr> | _ \<Rightarrow> rs)"

definition handle_reply ::
    "RadiusProto \<Rightarrow> Packet \<Rightarrow> bytes \<Rightarrow> RadiusSession \<Rightarrow> RadiusSession \<times> (AuthdError + Event)" where
  "handle_reply rp reply secret rs =
     (case pending rs of
        None \<Rightarrow> (rs, Inl NoPendingRequest)
      | Some p \<Rightarrow>
          (let rs = rs\<lparr>pending := None\<rparr>
           in if pkt_identifier reply \<noteq> out_identifier p then (rs, Inl ReplyVerificationFailed)
              else if \<not> verify_reply rp reply (request_authenticator p) secret
                then (rs, Inl ReplyVerificationFailed)
              else
                (let rs = rs\<lparr>last_state := extract_state rp reply\<rparr>
                 in case parse_reply rp reply of
                      Inl e \<Rightarrow> (rs, Inl (Radius e))
                    | Inr event \<Rightarrow> (note_class event rs, Inr event))))"

definition build_accounting ::
    "RadiusProto \<Rightarrow> RequestContext \<Rightarrow> u8 \<Rightarrow> AcctTrigger \<Rightarrow> string \<Rightarrow> bytes \<Rightarrow> RadiusSession
       \<Rightarrow> AuthdError + Packet" where
  "build_accounting rp ctx i trigger session_id secret rs =
     map_err Radius (accounting_request rp ctx i trigger session_id (session_class rs) secret)"

section \<open>Lemmas\<close>

lemma note_class_simps [simp]:
  "next_id (note_class e rs) = next_id rs" "last_state (note_class e rs) = last_state rs"
  "known_user (note_class e rs) = known_user rs" "pending (note_class e rs) = pending rs"
  by (cases e; simp add: note_class_def)+

lemma handle_reply_ok:
  assumes "handle_reply rp reply secret rs = (rs', Inr event)"
  shows "\<exists>p. pending rs = Some p \<and> pkt_identifier reply = out_identifier p \<and>
    verify_reply rp reply (request_authenticator p) secret \<and> parse_reply rp reply = Inr event \<and>
    pending rs' = None \<and> last_state rs' = extract_state rp reply \<and> known_user rs' = known_user rs"
  using assms
  by (auto simp: handle_reply_def Let_def split: option.splits if_splits sum.splits)

lemma handle_reply_pending: "pending (fst (handle_reply rp reply secret rs)) = None"
  by (auto simp: handle_reply_def Let_def split: option.splits sum.splits)

lemma build_eap_request_session:
  "pending (fst (build_eap_request rp ctx ident eap ra secret rs)) =
     Some \<lparr>out_identifier = next_id rs, request_authenticator = ra\<rparr>"
  "next_id (fst (build_eap_request rp ctx ident eap ra secret rs)) = next_id rs + 1"
  by (simp_all add: build_eap_request_def next_identifier_def Let_def split: option.splits)

lemma build_mab_request_session:
  "pending (fst (build_mab_request rp ctx ra secret rs)) =
     Some \<lparr>out_identifier = next_id rs, request_authenticator = ra\<rparr>"
  "next_id (fst (build_mab_request rp ctx ra secret rs)) = next_id rs + 1"
  by (simp_all add: build_mab_request_def next_identifier_def Let_def)

lemma build_eap_request_packet:
  "build_eap_request rp ctx ident eap ra secret rs = (rs', Inr p) \<Longrightarrow>
     access_request_eap rp ctx (next_id rs) ra
       (case ident of Some i \<Rightarrow> Some i | None \<Rightarrow> known_user rs) (last_state rs) eap secret = Inr p"
  by (auto simp: build_eap_request_def next_identifier_def Let_def split: option.splits)

text \<open>The operations as a machine: the outstanding request is always the last one built.\<close>

datatype RadiusInput =
    BuildEap RequestContext "bytes option" bytes bytes
  | BuildMab RequestContext bytes
  | Reply Packet

fun radius_step :: "RadiusProto \<Rightarrow> bytes \<Rightarrow> RadiusSession \<Rightarrow> RadiusInput \<Rightarrow> RadiusSession \<times> (AuthdError + Event) list" where
  "radius_step rp secret rs (BuildEap ctx ident eap ra) = (fst (build_eap_request rp ctx ident eap ra secret rs), [])"
| "radius_step rp secret rs (BuildMab ctx ra) = (fst (build_mab_request rp ctx ra secret rs), [])"
| "radius_step rp secret rs (Reply p) = (let (rs', r) = handle_reply rp p secret rs in (rs', [r]))"

definition outstanding_is_latest :: "RadiusSession \<Rightarrow> bool" where
  "outstanding_is_latest rs \<longleftrightarrow> (case pending rs of None \<Rightarrow> True | Some p \<Rightarrow> out_identifier p + 1 = next_id rs)"

interpretation radius_machine: invariant_machine "radius_step rp secret" outstanding_is_latest for rp secret
proof unfold_locales
  show "outstanding_is_latest (fst (radius_step rp secret rs i))" if "outstanding_is_latest rs" for rs i
    using handle_reply_pending
    by (cases i) (simp_all add: outstanding_is_latest_def build_eap_request_session
        build_mab_request_session Let_def case_prod_unfold)
qed

section \<open>Properties\<close>

text \<open>
  C8. A reply only counts against the latest request, once: in any sequence of
  requests and replies, an event is produced only from a reply that carries the
  identifier of the last request built, verifies under its authenticator, and is the
  first reply to it.
\<close>

theorem reply_bound_to_request:
  assumes "handle_reply rp reply secret (fst (run_machine (radius_step rp secret) radius_session_new inputs))
    = (rs', Inr event)"
  shows "\<exists>p. pending (fst (run_machine (radius_step rp secret) radius_session_new inputs)) = Some p \<and>
    pkt_identifier reply + 1 = next_id (fst (run_machine (radius_step rp secret) radius_session_new inputs)) \<and>
    verify_reply rp reply (request_authenticator p) secret \<and> parse_reply rp reply = Inr event \<and>
    handle_reply rp again secret rs' = (rs', Inl NoPendingRequest)"
proof -
  let ?rs = "fst (run_machine (radius_step rp secret) radius_session_new inputs)"
  have "outstanding_is_latest ?rs"
    by (rule radius_machine.run_keeps_inv) (simp add: outstanding_is_latest_def radius_session_new_def)
  with handle_reply_ok [OF assms] show ?thesis
    by (auto simp: outstanding_is_latest_def) (simp add: handle_reply_def)
qed

definition sample_waiting :: RadiusSession where
  "sample_waiting = fst (run_machine (radius_step rfc_proto [1, 2]) radius_session_new
     [BuildEap sample_ctx None [2, 1, 0, 5, 55] (replicate 16 9)])"

lemma sample_waiting_pending:
  "pending sample_waiting = Some \<lparr>out_identifier = 0, request_authenticator = replicate 16 9\<rparr>"
  by (simp add: sample_waiting_def build_eap_request_session radius_session_new_def)

lemma sample_challenge_parses:
  "parse_reply rfc_proto sample_challenge = Inr (Event.AccessChallenge [1, 2, 0, 6, 55, 0])"
  "extract_state rfc_proto sample_challenge = Some [5]"
  by (simp_all add: parse_reply_def reassemble_def extract_state_def packet_lawsD [OF rfc_proto_laws]
      sample_challenge_def radius_consts)

lemma sample_reply_handled:
  "handle_reply rfc_proto sample_challenge [1, 2] sample_waiting =
     (fst (handle_reply rfc_proto sample_challenge [1, 2] sample_waiting),
      Inr (Event.AccessChallenge [1, 2, 0, 6, 55, 0]))"
proof -
  have "pkt_identifier sample_challenge = 0" by (simp add: sample_challenge_def)
  then show ?thesis
    using sample_challenge_verifies
    by (simp add: handle_reply_def sample_waiting_pending sample_challenge_parses Let_def)
qed

theorem reply_bound_to_request_witness:
  "verify_reply rfc_proto sample_challenge (replicate 16 9) [1, 2] \<and>
   handle_reply rfc_proto sample_challenge [1, 2]
     (fst (handle_reply rfc_proto sample_challenge [1, 2] sample_waiting)) =
     (fst (handle_reply rfc_proto sample_challenge [1, 2] sample_waiting), Inl NoPendingRequest)"
  using reply_bound_to_request [OF sample_reply_handled [unfolded sample_waiting_def], of sample_challenge]
  unfolding sample_waiting_def [symmetric] by (auto simp: sample_waiting_pending)

text \<open>
  Every Access-Request echoes the \<open>State\<close> of the last accepted reply and resends the
  last identity; this includes a request that opens a new conversation with a fresh
  identity, after the conversation that \<open>State\<close> belongs to was abandoned.
\<close>

theorem request_echoes_last_state:
  assumes "radius_laws rp" "handle_reply rp reply secret rs = (rs1, Inr event)"
    and "build_eap_request rp ctx ident eap ra secret rs1 = (rs2, Inr p)"
  shows "extract_state rp p = extract_state rp reply \<and>
    sealed rp (next_id rs1) ra secret
      (eap_request_attributes rp ctx (case ident of Some i \<Rightarrow> Some i | None \<Rightarrow> known_user rs)
        (extract_state rp reply) eap) p"
proof -
  note built = build_eap_request_packet [OF assms(3)]
  from handle_reply_ok [OF assms(2)] have s: "last_state rs1 = extract_state rp reply" "known_user rs1 = known_user rs"
    by auto
  have "extract_state rp p = last_state rs1"
    using eap_request_state [OF assms(1) built] .
  with built s show ?thesis by (cases ident) (simp_all add: access_request_eap_iff [OF assms(1)])
qed

lemma sample_second_request:
  "\<exists>rs2 p. build_eap_request rfc_proto sample_ctx (Some [97]) [2, 9, 0, 6, 1, 97] (replicate 16 8) [1, 2]
     (fst (handle_reply rfc_proto sample_challenge [1, 2] sample_waiting)) = (rs2, Inr p)"
proof -
  let ?rs = "fst (handle_reply rfc_proto sample_challenge [1, 2] sample_waiting)"
  have st: "last_state ?rs = Some [5]"
    using handle_reply_ok [OF sample_reply_handled] by (auto simp: sample_challenge_parses)
  have "\<exists>p. sealed rfc_proto (next_id ?rs) (replicate 16 8) [1, 2]
      (eap_request_attributes rfc_proto sample_ctx (Some [97]) (Some [5]) [2, 9, 0, 6, 1, 97]) p"
    by (simp add: sealed_def eap_request_attributes_def nas_attributes_def sample_ctx_def chunks_short)
      (simp add: rfc_proto_def rfc_encode_def format_mac_length Let_def)
  then obtain p where "access_request_eap rfc_proto sample_ctx (next_id ?rs) (replicate 16 8) (Some [97]) (Some [5])
      [2, 9, 0, 6, 1, 97] [1, 2] = Inr p"
    by (auto simp: access_request_eap_iff [OF rfc_proto_laws] identity_ok_def state_fits_def names_fit_def
        sample_ctx_def user_name_Inr_iff utf8_chars_ascii is_control_def)
  then show ?thesis
    by (simp add: build_eap_request_def next_identifier_def Let_def st)
qed

theorem request_echoes_last_state_witness:
  "\<exists>rs2 p. build_eap_request rfc_proto sample_ctx (Some [97]) [2, 9, 0, 6, 1, 97] (replicate 16 8) [1, 2]
     (fst (handle_reply rfc_proto sample_challenge [1, 2] sample_waiting)) = (rs2, Inr p) \<and>
     extract_state rfc_proto p = Some [5]"
proof -
  obtain rs2 p where b: "build_eap_request rfc_proto sample_ctx (Some [97]) [2, 9, 0, 6, 1, 97] (replicate 16 8)
      [1, 2] (fst (handle_reply rfc_proto sample_challenge [1, 2] sample_waiting)) = (rs2, Inr p)"
    using sample_second_request by blast
  from request_echoes_last_state [OF rfc_proto_laws sample_reply_handled b] b show ?thesis
    by (simp add: sample_challenge_parses)
qed

end
