(* ===== verification/Authd_Dispatch.thy ===== *)
theory Authd_Dispatch
  imports Authd_Session Enforce
begin

text \<open>
  The effect orchestrator (\<open>crates/authd/src/dispatch.rs\<close>). The four boundary traits
  (supplicant link, authentication server, enforcer, scheduler) and the source of
  request authenticators are the fields of \<open>Deps\<close>, over a world state that holds
  whatever they keep. Every operation returns the state reached together with its
  result, so that an error leaves the effects already performed in place.
\<close>

section \<open>Boundaries and state\<close>

record 'w Deps =
  dep_send_eap :: "'w \<Rightarrow> MacAddr \<Rightarrow> bytes \<Rightarrow> 'w \<times> (AuthdError + unit)"
  dep_access_request :: "'w \<Rightarrow> Packet \<Rightarrow> 'w \<times> (AuthdError + Packet)"
  dep_accounting :: "'w \<Rightarrow> Packet \<Rightarrow> 'w \<times> (AuthdError + unit)"
  dep_apply :: "'w \<Rightarrow> string \<Rightarrow> Target \<Rightarrow> PortAuthorization \<Rightarrow> 'w \<times> (string + unit)"
  dep_arm :: "'w \<Rightarrow> MacAddr \<Rightarrow> TimerKind \<Rightarrow> u64 \<Rightarrow> 'w"
  dep_cancel :: "'w \<Rightarrow> MacAddr \<Rightarrow> TimerKind \<Rightarrow> 'w"
  dep_cancel_all :: "'w \<Rightarrow> MacAddr \<Rightarrow> 'w"
  dep_random :: "'w \<Rightarrow> 'w \<times> bytes"
  dep_timers :: Timers
  dep_secret :: bytes

record SessionState =
  ss_radius :: RadiusSession
  ss_timeout :: "u32 option"
  ss_acct_id :: "string option"

definition session_state_default :: SessionState where
  "session_state_default = \<lparr>ss_radius = radius_session_new, ss_timeout = None, ss_acct_id = None\<rparr>"

record Orchestrator =
  orch_port :: string
  ctx_template :: RequestContext
  orch_sessions :: "MacAddr \<rightharpoonup> SessionState"
  acct_counter :: u64

definition orchestrator_new :: "string \<Rightarrow> RequestContext \<Rightarrow> Orchestrator" where
  "orchestrator_new port ctx =
     \<lparr>orch_port = port, ctx_template = ctx, orch_sessions = Map.empty, acct_counter = 0\<rparr>"

definition ctx_for :: "Orchestrator \<Rightarrow> MacAddr \<Rightarrow> RequestContext" where
  "ctx_for orc m = (ctx_template orc)\<lparr>calling_station := m\<rparr>"

text \<open>\<open>self.sessions.entry(mac).or_default()\<close>, read and written back.\<close>

definition orch_session :: "Orchestrator \<Rightarrow> MacAddr \<Rightarrow> SessionState" where
  "orch_session orc m = (case orch_sessions orc m of Some s \<Rightarrow> s | None \<Rightarrow> session_state_default)"

definition put_session :: "MacAddr \<Rightarrow> SessionState \<Rightarrow> Orchestrator \<Rightarrow> Orchestrator" where
  "put_session m s orc = orc\<lparr>orch_sessions := (orch_sessions orc)(m \<mapsto> s)\<rparr>"

definition acct_id_for :: "MacAddr \<Rightarrow> Orchestrator \<Rightarrow> Orchestrator \<times> string" where
  "acct_id_for m orc =
     (case Option.bind (orch_sessions orc m) ss_acct_id of
        Some existing \<Rightarrow> (orc, existing)
      | None \<Rightarrow>
          (let orc = orc\<lparr>acct_counter := acct_counter orc + 1\<rparr>;
               i = orch_port orc @ ''-'' @ format_mac m @ ''-'' @ to_decimal (unat (acct_counter orc))
           in (put_session m ((orch_session orc m)\<lparr>ss_acct_id := Some i\<rparr>) orc, i)))"

text \<open>\<open>timer_duration\<close>: the configured kinds, and the session's own \<open>Session-Timeout\<close>.\<close>

definition timer_duration :: "Orchestrator \<Rightarrow> MacAddr \<Rightarrow> TimerKind \<Rightarrow> Timers \<Rightarrow> u64 option" where
  "timer_duration orc m kind t =
     (case duration t kind of
        Some d \<Rightarrow> Some d
      | None \<Rightarrow> map_option ucast (Option.bind (orch_sessions orc m) ss_timeout))"

definition eap_identity :: "bytes \<Rightarrow> bytes option" where
  "eap_identity eap = (case eap_decode eap of Inl _ \<Rightarrow> None | Inr p \<Rightarrow> identity p)"

section \<open>Performing one effect\<close>

type_synonym 'w daemon = "Orchestrator \<times> 'w"

text \<open>Send a built request and turn the reply into the session's next event.\<close>

definition round_trip ::
    "RadiusProto \<Rightarrow> 'w Deps \<Rightarrow> MacAddr \<Rightarrow> AuthdError + Packet \<Rightarrow> 'w daemon \<Rightarrow> 'w daemon \<times> (AuthdError + Event option)" where
  "round_trip rp D m built st =
     then_do (st, built) (\<lambda>req (orc, w).
     then_do (let (w, r) = dep_access_request D w req in ((orc, w), r)) (\<lambda>reply (orc, w).
     let s = orch_session orc m;
         (rs, r) = handle_reply rp reply (dep_secret D) (ss_radius s)
     in ((put_session m (s\<lparr>ss_radius := rs\<rparr>) orc, w), case r of Inl e \<Rightarrow> Inl e | Inr ev \<Rightarrow> Inr (Some ev))))"

definition to_auth_server ::
    "RadiusProto \<Rightarrow> 'w Deps \<Rightarrow> MacAddr \<Rightarrow> bytes \<Rightarrow> 'w daemon \<Rightarrow> 'w daemon \<times> (AuthdError + Event option)" where
  "to_auth_server rp D m eap st =
     (let (orc, w) = st;
          (w, ra) = dep_random D w;
          s = orch_session orc m;
          (rs, built) = build_eap_request rp (ctx_for orc m) (eap_identity eap) eap ra (dep_secret D) (ss_radius s)
      in round_trip rp D m built (put_session m (s\<lparr>ss_radius := rs\<rparr>) orc, w))"

definition start_mab ::
    "RadiusProto \<Rightarrow> 'w Deps \<Rightarrow> MacAddr \<Rightarrow> 'w daemon \<Rightarrow> 'w daemon \<times> (AuthdError + Event option)" where
  "start_mab rp D m st =
     (let (orc, w) = st;
          (w, ra) = dep_random D w;
          s = orch_session orc m;
          (rs, built) = build_mab_request rp (ctx_for orc m) ra (dep_secret D) (ss_radius s)
      in round_trip rp D m built (put_session m (s\<lparr>ss_radius := rs\<rparr>) orc, w))"

definition send_accounting ::
    "RadiusProto \<Rightarrow> 'w Deps \<Rightarrow> MacAddr \<Rightarrow> AcctTrigger \<Rightarrow> 'w daemon \<Rightarrow> 'w daemon \<times> (AuthdError + unit)" where
  "send_accounting rp D m trigger st =
     (let (orc, w) = st;
          ctx = ctx_for orc m;
          (orc, acct_id) = acct_id_for m orc;
          s = orch_session orc m;
          (rs, i) = next_accounting_identifier (ss_radius s);
          orc = put_session m (s\<lparr>ss_radius := rs\<rparr>) orc
      in then_do ((orc, w), build_accounting rp ctx i trigger acct_id (dep_secret D) rs) (\<lambda>req (orc, w).
         let (w, r) = dep_accounting D w req in ((orc, w), r)))"

text \<open>The result of an effect that has no follow-up.\<close>

definition no_follow :: "'s \<times> ('e + unit) \<Rightarrow> 's \<times> ('e + Event option)" where
  "no_follow r = then_do r (\<lambda>_ s. (s, Inr None))"

definition set_authorization ::
    "'w Deps \<Rightarrow> MacAddr option \<Rightarrow> PortAuthorization \<Rightarrow> 'w daemon \<Rightarrow> 'w daemon \<times> (AuthdError + unit)" where
  "set_authorization D target_mac auth st =
     (let (orc, w) = st;
          orc = (case (auth, target_mac) of
            (Authorized a, Some m) \<Rightarrow> put_session m ((orch_session orc m)\<lparr>ss_timeout := session_timeout a\<rparr>) orc
          | _ \<Rightarrow> orc);
          t = (case target_mac of None \<Rightarrow> Port | Some m \<Rightarrow> Mac m);
          (w, r) = dep_apply D w (orch_port orc) t auth
      in ((orc, w), map_err Enforce r))"

definition dispatch ::
    "RadiusProto \<Rightarrow> 'w Deps \<Rightarrow> DirectedEffect \<Rightarrow> 'w daemon \<Rightarrow> 'w daemon \<times> (AuthdError + Event option)" where
  "dispatch rp D de st =
     (case de_effect de of
        TxEapToSupplicant eap \<Rightarrow>
          (case de_mac de of
             Some m \<Rightarrow> no_follow (let (w, r) = dep_send_eap D (snd st) m eap in ((fst st, w), r))
           | None \<Rightarrow> (st, Inr None))
      | ToAuthServer eap \<Rightarrow>
          (case de_mac de of Some m \<Rightarrow> to_auth_server rp D m eap st | None \<Rightarrow> (st, Inr None))
      | StartMab m \<Rightarrow> start_mab rp D m st
      | SetAuthorization auth \<Rightarrow> no_follow (set_authorization D (de_mac de) auth st)
      | ArmTimer kind \<Rightarrow>
          (case de_mac de of
             Some m \<Rightarrow>
               (case timer_duration (fst st) m kind (dep_timers D) of
                  Some d \<Rightarrow> ((fst st, dep_arm D (snd st) m kind d), Inr None)
                | None \<Rightarrow> (st, Inr None))
           | None \<Rightarrow> (st, Inr None))
      | CancelTimer kind \<Rightarrow>
          (case de_mac de of
             Some m \<Rightarrow> ((fst st, dep_cancel D (snd st) m kind), Inr None) | None \<Rightarrow> (st, Inr None))
      | CancelAllTimers \<Rightarrow>
          (case de_mac de of
             Some m \<Rightarrow> ((fst st, dep_cancel_all D (snd st) m), Inr None) | None \<Rightarrow> (st, Inr None))
      | Accounting trigger \<Rightarrow>
          (case de_mac de of
             Some m \<Rightarrow> no_follow (send_accounting rp D m trigger st) | None \<Rightarrow> (st, Inr None)))"

section \<open>The event loop\<close>

text \<open>The \<open>for\<close> loop over the effects of one PAE step, collecting the follow-up events.\<close>

fun dispatch_all ::
    "RadiusProto \<Rightarrow> 'w Deps \<Rightarrow> MacAddr \<Rightarrow> DirectedEffect list \<Rightarrow> 'w daemon
       \<Rightarrow> 'w daemon \<times> (AuthdError + (MacAddr \<times> Event) list)" where
  "dispatch_all rp D m [] st = (st, Inr [])"
| "dispatch_all rp D m (de # des) st =
     then_do (dispatch rp D de st) (\<lambda>follow st.
     then_do (dispatch_all rp D m des st) (\<lambda>follows st.
       (st, Inr ((case follow of
           Some ev \<Rightarrow> [(case de_mac de of Some dm \<Rightarrow> dm | None \<Rightarrow> m, ev)] | None \<Rightarrow> []) @ follows))))"

type_synonym 'w port_state = "PortPae \<times> 'w daemon"

text \<open>The \<open>while\<close> loop over the queue; the first argument is what is left of the step bound.\<close>

fun event_loop ::
    "nat \<Rightarrow> RadiusProto \<Rightarrow> 'w Deps \<Rightarrow> (MacAddr \<times> Event) list \<Rightarrow> 'w port_state
       \<Rightarrow> 'w port_state \<times> (AuthdError + unit)" where
  "event_loop n rp D [] st = (st, Inr ())"
| "event_loop 0 rp D q st = (st, Inr ())"
| "event_loop (Suc n) rp D ((m, ev) # q) (pae, d) =
     (let (pae, des) = handle pae m ev
      in then_do (let (d, r) = dispatch_all rp D m des d in ((pae, d), r)) (\<lambda>follows st.
         event_loop n rp D (q @ follows) st))"

definition handle_event ::
    "RadiusProto \<Rightarrow> 'w Deps \<Rightarrow> MacAddr \<Rightarrow> Event \<Rightarrow> 'w port_state \<Rightarrow> 'w port_state \<times> (AuthdError + unit)" where
  "handle_event rp D m ev st = event_loop 64 rp D [(m, ev)] st"

fun apply_effects ::
    "RadiusProto \<Rightarrow> 'w Deps \<Rightarrow> DirectedEffect list \<Rightarrow> 'w daemon \<Rightarrow> 'w daemon \<times> (AuthdError + unit)" where
  "apply_effects rp D [] st = (st, Inr ())"
| "apply_effects rp D (de # des) st = then_do (dispatch rp D de st) (\<lambda>_ st. apply_effects rp D des st)"

section \<open>Follow-up events\<close>

text \<open>An event that came out of a verified reply to a request the daemon sent.\<close>

definition from_server :: "RadiusProto \<Rightarrow> 'w Deps \<Rightarrow> Event \<Rightarrow> bool" where
  "from_server rp D ev \<longleftrightarrow>
     (\<exists>w w' req reply. dep_access_request D w req = (w', Inr reply) \<and>
        pkt_identifier reply = pkt_identifier req \<and>
        verify_reply rp reply (authenticator req) (dep_secret D) \<and> parse_reply rp reply = Inr ev)"

lemma from_server_reply: "from_server rp D ev \<Longrightarrow> is_reply ev"
  using parse_reply_event by (fastforce simp: from_server_def)

lemma no_follow_ok: "no_follow r = (s', Inr f) \<Longrightarrow> f = None"
  by (auto simp: no_follow_def then_do_ok_iff)

lemma orch_session_put [simp]: "orch_session (put_session m s orc) m = s"
  by (simp add: orch_session_def put_session_def)

lemma round_trip_ok:
  assumes "round_trip rp D m built (put_session m s orc, w) = (st', Inr f)"
    and "\<And>req. built = Inr req \<Longrightarrow>
      pending (ss_radius s) = Some \<lparr>out_identifier = pkt_identifier req, request_authenticator = authenticator req\<rparr>"
  shows "\<exists>ev. f = Some ev \<and> from_server rp D ev"
proof -
  from assms(1) obtain req where b: "built = Inr req" by (cases built) (auto simp: round_trip_def)
  obtain w1 r where a: "dep_access_request D w req = (w1, r)" by fastforce
  from assms(1) a b obtain reply where r: "r = Inr reply" by (cases r) (auto simp: round_trip_def)
  obtain rs x where h: "handle_reply rp reply (dep_secret D) (ss_radius s) = (rs, x)" by fastforce
  from assms(1) a b r h obtain ev where ev: "x = Inr ev" "f = Some ev"
    by (cases x) (auto simp: round_trip_def)
  from handle_reply_ok [OF h [unfolded ev]] assms(2) [OF b] have
    "pkt_identifier reply = pkt_identifier req" "verify_reply rp reply (authenticator req) (dep_secret D)"
    "parse_reply rp reply = Inr ev" by auto
  with a r ev(2) show ?thesis unfolding from_server_def by blast
qed

lemma built_eap_pending:
  assumes "radius_laws rp" "build_eap_request rp ctx i eap ra secret rs = (rs', Inr req)"
  shows "pending rs' = Some \<lparr>out_identifier = pkt_identifier req, request_authenticator = authenticator req\<rparr>"
proof -
  have "sealed rp (next_id rs) ra secret (eap_request_attributes rp ctx
      (case i of Some i \<Rightarrow> Some i | None \<Rightarrow> known_user rs) (last_state rs) eap) req"
    using build_eap_request_packet [OF assms(2)] access_request_eap_iff [OF assms(1)] by blast
  then show ?thesis
    using build_eap_request_session(1) [of rp ctx i eap ra secret rs] assms(2)
    by (auto simp: sealed_def)
qed

lemma built_mab_pending:
  assumes "radius_laws rp" "build_mab_request rp ctx ra secret rs = (rs', Inr req)"
  shows "pending rs' = Some \<lparr>out_identifier = pkt_identifier req, request_authenticator = authenticator req\<rparr>"
proof -
  have "access_request_mab rp ctx (next_id rs) ra secret = Inr req"
    using assms(2) by (auto simp: build_mab_request_def next_identifier_def)
  then have "sealed rp (next_id rs) ra secret (mab_request_attributes rp ctx) req"
    using access_request_mab_iff [OF assms(1)] by blast
  then show ?thesis
    using build_mab_request_session(1) [of rp ctx ra secret rs] assms(2) by (auto simp: sealed_def)
qed

lemma to_auth_server_ok:
  assumes "radius_laws rp" "to_auth_server rp D m eap st = (st', Inr f)"
  shows "\<exists>ev. f = Some ev \<and> from_server rp D ev"
proof -
  obtain orc w where st: "st = (orc, w)" by fastforce
  obtain w1 ra where ra: "dep_random D w = (w1, ra)" by fastforce
  obtain rs built where b: "build_eap_request rp (ctx_for orc m) (eap_identity eap) eap ra (dep_secret D)
      (ss_radius (orch_session orc m)) = (rs, built)" by fastforce
  show ?thesis
    using assms(2) built_eap_pending [OF assms(1)] b
    by (intro round_trip_ok [where s = "(orch_session orc m)\<lparr>ss_radius := rs\<rparr>" and built = built
          and orc = orc and w = w1 and m = m and st' = st'])
      (auto simp: to_auth_server_def st ra Let_def)
qed

lemma start_mab_ok:
  assumes "radius_laws rp" "start_mab rp D m st = (st', Inr f)"
  shows "\<exists>ev. f = Some ev \<and> from_server rp D ev"
proof -
  obtain orc w where st: "st = (orc, w)" by fastforce
  obtain w1 ra where ra: "dep_random D w = (w1, ra)" by fastforce
  obtain rs built where b: "build_mab_request rp (ctx_for orc m) ra (dep_secret D)
      (ss_radius (orch_session orc m)) = (rs, built)" by fastforce
  show ?thesis
    using assms(2) built_mab_pending [OF assms(1)] b
    by (intro round_trip_ok [where s = "(orch_session orc m)\<lparr>ss_radius := rs\<rparr>" and built = built
          and orc = orc and w = w1 and m = m and st' = st'])
      (auto simp: start_mab_def st ra Let_def)
qed

lemma dispatch_ok:
  assumes "radius_laws rp" "dispatch rp D de st = (st', Inr f)"
  shows "f = None \<or> (radius_bearing (de_effect de) \<and> (\<exists>ev. f = Some ev \<and> from_server rp D ev))"
  using assms(2)
  by (cases "de_effect de"; cases "de_mac de")
    (auto simp: dispatch_def dest!: no_follow_ok to_auth_server_ok [OF assms(1)] start_mab_ok [OF assms(1)]
      split: option.splits)

lemma dispatch_all_ok:
  assumes laws: "radius_laws rp" and d: "dispatch_all rp D m des st = (st', Inr fs)"
  shows "length fs \<le> radius_count (map de_effect des) \<and> (\<forall>(dm, ev) \<in> set fs. from_server rp D ev)"
  using d
proof (induction des arbitrary: st fs)
  case (Cons de des)
  then obtain st1 f fs1 where d1: "dispatch rp D de st = (st1, Inr f)"
    and d2: "dispatch_all rp D m des st1 = (st', Inr fs1)"
    and fs: "fs = (case f of Some ev \<Rightarrow> [(case de_mac de of Some dm \<Rightarrow> dm | None \<Rightarrow> m, ev)] | None \<Rightarrow> []) @ fs1"
    by (auto simp: then_do_ok_iff)
  from Cons.IH [OF d2] dispatch_ok [OF laws d1] fs show ?case
    by (auto simp: radius_count_simps split: option.splits)
qed simp


section \<open>What one PAE step asks of the server and the dataplane\<close>

lemma enable_effects:
  "radius_count (snd (step (session_new m) Enable c)) = 0"
  "quiet (snd (step (session_new m) Enable c))"
  by (simp_all add: step_def step_defs)

lemma handle_radius_count:
  "radius_count (map de_effect (snd (handle p m e))) \<le> Suc 0"
  "is_reply e \<Longrightarrow> radius_count (map de_effect (snd (handle p m e))) = 0"
proof -
  obtain s where s: "map de_effect (snd (handle p m e)) \<in> {[], snd (step s e (cfg p)),
      snd (step (session_new m) Enable (cfg p)), snd (step (session_new m) Enable (cfg p)) @ snd (step s e (cfg p))}"
    using handle_step_effects by blast
  then show "radius_count (map de_effect (snd (handle p m e))) \<le> Suc 0"
    using step_radius_count [of s e "cfg p"] enable_effects(1) [of m "cfg p"] by auto
  show "is_reply e \<Longrightarrow> radius_count (map de_effect (snd (handle p m e))) = 0"
    using s step_reply_no_request [of e s "cfg p"] enable_effects(1) [of m "cfg p"] by auto
qed

lemma handle_authorizes:
  assumes "d \<in> set (snd (handle p m e))" "de_effect d = SetAuthorization (Authorized a)"
  shows "(\<exists>eap. e = Event.AccessAccept a eap) \<or> e = CoaAuthorize a"
proof -
  obtain s where s: "map de_effect (snd (handle p m e)) \<in> {[], snd (step s e (cfg p)),
      snd (step (session_new m) Enable (cfg p)), snd (step (session_new m) Enable (cfg p)) @ snd (step s e (cfg p))}"
    using handle_step_effects by blast
  define fxs where "fxs = map de_effect (snd (handle p m e))"
  have "SetAuthorization (Authorized a) \<in> set fxs"
    unfolding fxs_def using assms by (metis image_eqI set_map)
  moreover have "SetAuthorization (Authorized a) \<notin> set (snd (step (session_new m) Enable (cfg p)))"
    using enable_effects(2) [of m "cfg p"] by (auto simp: quiet_def)
  ultimately have "SetAuthorization (Authorized a) \<in> set (snd (step s e (cfg p)))"
    using s unfolding fxs_def [symmetric] by auto
  from step_authorizes [OF this] show ?thesis by (auto simp: grants_def)
qed

section \<open>The step bound\<close>

lemma event_loop_reply_tail:
  assumes laws: "radius_laws rp" and "is_reply ev"
  shows "event_loop (Suc n) rp D [(m, ev)] st = event_loop (Suc 0) rp D [(m, ev)] st"
proof -
  obtain pae d where st: "st = (pae, d)" by (cases st)
  obtain pae1 des where h: "handle pae m ev = (pae1, des)" by fastforce
  have none: "radius_count (map de_effect des) = 0"
    using handle_radius_count(2) [OF assms(2), of pae m] by (simp add: h)
  obtain d1 r where d1: "dispatch_all rp D m des d = (d1, r)" by fastforce
  show ?thesis
  proof (cases r)
    case (Inl e)
    then show ?thesis by (simp add: st h d1)
  next
    case (Inr fs)
    from dispatch_all_ok [OF laws d1 [unfolded Inr]] none have "fs = []" by simp
    with Inr show ?thesis by (cases n) (simp_all add: st h d1)
  qed
qed

lemma event_loop_two_steps:
  assumes laws: "radius_laws rp"
  shows "event_loop (Suc (Suc n)) rp D [(m, ev)] st = event_loop (Suc (Suc 0)) rp D [(m, ev)] st"
proof -
  obtain pae d where st: "st = (pae, d)" by (cases st)
  obtain pae1 des where h: "handle pae m ev = (pae1, des)" by fastforce
  have one: "radius_count (map de_effect des) \<le> Suc 0"
    using handle_radius_count(1) [of pae m ev] by (simp add: h)
  obtain d1 r where d1: "dispatch_all rp D m des d = (d1, r)" by fastforce
  show ?thesis
  proof (cases r)
    case (Inl e)
    then show ?thesis by (simp add: st h d1)
  next
    case (Inr fs)
    note follow = dispatch_all_ok [OF laws d1 [unfolded Inr]]
    with one have "length fs \<le> Suc 0" by simp
    then consider "fs = []" | m' ev' where "fs = [(m', ev')]"
      by (cases fs) (auto simp: length_Suc_conv)
    then show ?thesis
    proof cases
      case 1
      with Inr show ?thesis by (cases n) (simp_all add: st h d1)
    next
      case 2
      with follow have "is_reply ev'" using from_server_reply by fastforce
      moreover have "event_loop (Suc k) rp D [(m, ev)] st = event_loop k rp D [(m', ev')] (pae1, d1)" for k
        using 2 Inr by (simp add: st h d1)
      ultimately show ?thesis using event_loop_reply_tail [OF laws] by metis
    qed
  qed
qed

lemma handle_event_unroll:
  assumes "radius_laws rp"
  shows "handle_event rp D m ev st = event_loop (Suc (Suc 0)) rp D [(m, ev)] st"
proof -
  have "handle_event rp D m ev st = event_loop (Suc (Suc 62)) rp D [(m, ev)] st"
    by (simp add: handle_event_def del: event_loop.simps)
  then show ?thesis using event_loop_two_steps [OF assms] by metis
qed

section \<open>The enforcement log\<close>

text \<open>The same boundaries with every call to the enforcer recorded.\<close>

type_synonym enforcement = "string \<times> Target \<times> PortAuthorization"

definition logged :: "'w Deps \<Rightarrow> ('w \<times> enforcement list) Deps" where
  "logged D =
     \<lparr>dep_send_eap = (\<lambda>(w, l) m eap. let (w, r) = dep_send_eap D w m eap in ((w, l), r)),
      dep_access_request = (\<lambda>(w, l) req. let (w, r) = dep_access_request D w req in ((w, l), r)),
      dep_accounting = (\<lambda>(w, l) req. let (w, r) = dep_accounting D w req in ((w, l), r)),
      dep_apply = (\<lambda>(w, l) p t a. let (w, r) = dep_apply D w p t a in ((w, l @ [(p, t, a)]), r)),
      dep_arm = (\<lambda>(w, l) m k d. (dep_arm D w m k d, l)),
      dep_cancel = (\<lambda>(w, l) m k. (dep_cancel D w m k, l)),
      dep_cancel_all = (\<lambda>(w, l) m. (dep_cancel_all D w m, l)),
      dep_random = (\<lambda>(w, l). let (w, ra) = dep_random D w in ((w, l), ra)),
      dep_timers = dep_timers D,
      dep_secret = dep_secret D\<rparr>"

text \<open>\<open>logs l st' es\<close>: the log grew from \<open>l\<close> only by authorizations among the effects \<open>es\<close>.\<close>

definition logs :: "enforcement list \<Rightarrow> ('w \<times> enforcement list) daemon \<Rightarrow> Effect list \<Rightarrow> bool" where
  "logs l st' es \<longleftrightarrow>
     (\<exists>new. snd (snd st') = l @ new \<and> (\<forall>(p, t, a) \<in> set new. SetAuthorization a \<in> set es))"

lemma logs_same: "snd (snd st') = l \<Longrightarrow> logs l st' es"
  by (simp add: logs_def)

lemma logs_trans:
  assumes "logs l st1 es" "logs (snd (snd st1)) st2 fs"
  shows "logs l st2 (es @ fs)"
proof -
  obtain new1 new2 where "snd (snd st1) = l @ new1" "snd (snd st2) = snd (snd st1) @ new2"
    "\<forall>(p, t, a) \<in> set new1. SetAuthorization a \<in> set es" "\<forall>(p, t, a) \<in> set new2. SetAuthorization a \<in> set fs"
    using assms by (auto simp: logs_def)
  then show ?thesis
    unfolding logs_def by (intro exI [of _ "new1 @ new2"]) auto
qed

lemma from_server_logged: "from_server rp (logged D) ev \<longleftrightarrow> from_server rp D ev"
  unfolding from_server_def logged_def by (auto simp: case_prod_unfold Let_def) (metis fst_conv prod.collapse snd_conv)+


lemma logged_simps:
  "dep_timers (logged D) = dep_timers D" "dep_secret (logged D) = dep_secret D"
  "dep_arm (logged D) (w, l) m k dur = (dep_arm D w m k dur, l)"
  "dep_cancel (logged D) (w, l) m k = (dep_cancel D w m k, l)"
  "dep_cancel_all (logged D) (w, l) m = (dep_cancel_all D w m, l)"
  by (simp_all add: logged_def)

lemma logged_calls:
  "snd (fst (dep_send_eap (logged D) w m eap)) = snd w"
  "snd (fst (dep_access_request (logged D) w req)) = snd w"
  "snd (fst (dep_accounting (logged D) w req)) = snd w"
  "snd (fst (dep_random (logged D) w)) = snd w"
  "snd (fst (dep_apply (logged D) w p t a)) = snd w @ [(p, t, a)]"
  by (simp_all add: logged_def case_prod_unfold Let_def)

lemma round_trip_log: "snd (snd (fst (round_trip rp (logged D) m built st))) = snd (snd st)"
proof (cases built)
  case (Inr req)
  then show ?thesis
    using logged_calls(2) [of D "snd st" req]
    by (cases "snd (dep_access_request (logged D) (snd st) req)")
      (simp_all add: round_trip_def then_do_def case_prod_unfold Let_def)
qed (simp add: round_trip_def)

lemma server_effects_log:
  "snd (snd (fst (to_auth_server rp (logged D) m eap st))) = snd (snd st)"
  "snd (snd (fst (start_mab rp (logged D) m st))) = snd (snd st)"
  using logged_calls(4) [of D "snd st"]
  by (simp_all add: to_auth_server_def start_mab_def case_prod_unfold Let_def round_trip_log)

lemma send_accounting_log: "snd (snd (fst (send_accounting rp (logged D) m trigger st))) = snd (snd st)"
  by (simp add: send_accounting_def then_do_def case_prod_unfold Let_def logged_calls split: sum.splits)

lemma no_follow_log: "snd (snd (fst (no_follow r))) = snd (snd (fst r))"
  by (cases "snd r") (simp_all add: no_follow_def then_do_def)

lemma dispatch_logs: "logs (snd (snd st)) (fst (dispatch rp (logged D) de st)) [de_effect de]"
proof (cases "de_effect de")
  case (SetAuthorization a)
  then show ?thesis
    by (simp add: dispatch_def logs_def no_follow_log set_authorization_def case_prod_unfold Let_def logged_calls)
next
  case (ArmTimer k)
  then show ?thesis
    by (cases "snd st") (auto intro!: logs_same simp: dispatch_def logged_simps split: option.splits)
next
  case (CancelTimer k)
  then show ?thesis
    by (cases "snd st") (auto intro!: logs_same simp: dispatch_def logged_simps split: option.splits)
next
  case CancelAllTimers
  then show ?thesis
    by (cases "snd st") (auto intro!: logs_same simp: dispatch_def logged_simps split: option.splits)
qed (auto intro!: logs_same simp: dispatch_def server_effects_log no_follow_log send_accounting_log logged_calls
      case_prod_unfold Let_def split: option.splits)

lemma dispatch_all_logs:
  "logs (snd (snd st)) (fst (dispatch_all rp (logged D) m des st)) (map de_effect des)"
proof (induction des arbitrary: st)
  case Nil
  show ?case by (simp add: logs_same)
next
  case (Cons de des)
  obtain st1 r where d: "dispatch rp (logged D) de st = (st1, r)" by fastforce
  have one: "logs (snd (snd st)) st1 [de_effect de]" using dispatch_logs [of st rp D de] by (simp add: d)
  show ?case
  proof (cases r)
    case (Inl e)
    with one show ?thesis by (auto simp: d logs_def)
  next
    case (Inr f)
    have "fst (dispatch_all rp (logged D) m (de # des) st) = fst (dispatch_all rp (logged D) m des st1)"
      using Inr by (simp add: d then_do_def split: sum.splits)
    with logs_trans [OF one Cons.IH] show ?thesis by simp
  qed
qed

text \<open>An event that opens the port only as a verified reply.\<close>

definition safe_event :: "RadiusProto \<Rightarrow> 'w Deps \<Rightarrow> Event \<Rightarrow> bool" where
  "safe_event rp D ev \<longleftrightarrow>
     (\<forall>a. ev \<noteq> CoaAuthorize a) \<and> (\<forall>a eap. ev = Event.AccessAccept a eap \<longrightarrow> from_server rp D ev)"

lemma event_loop_safe:
  assumes laws: "radius_laws rp"
    and "event_loop n rp (logged D) q (pae, orc, w, l) = ((pae', orc', w', l'), r)"
    and "\<forall>(m, ev) \<in> set q. safe_event rp D ev"
  shows "\<exists>new. l' = l @ new \<and>
    (\<forall>(p, t, auth) \<in> set new. \<forall>a. auth = Authorized a \<longrightarrow>
      (\<exists>eap. from_server rp D (Event.AccessAccept a eap)))"
  using assms(2,3)
proof (induction n arbitrary: q pae orc w l)
  case 0
  then show ?case by (cases q) auto
next
  case (Suc n)
  show ?case
  proof (cases q)
    case Nil
    with Suc.prems show ?thesis by simp
  next
    case (Cons x q1)
    obtain m ev where x: "x = (m, ev)" by fastforce
    obtain pae1 des where h: "handle pae m ev = (pae1, des)" by fastforce
    obtain orc1 w1 l1 r1 where d: "dispatch_all rp (logged D) m des (orc, w, l) = ((orc1, w1, l1), r1)"
      by (metis prod_cases3 surj_pair)
    from dispatch_all_logs [of "(orc, w, l)" rp D m des] obtain new1 where new1: "l1 = l @ new1"
      "\<forall>(p, t, a) \<in> set new1. SetAuthorization a \<in> set (map de_effect des)"
      by (auto simp: d logs_def)
    have safe: "safe_event rp D ev" using Suc.prems(2) by (simp add: Cons x)
    have "\<exists>eap. from_server rp D (Event.AccessAccept a eap)" if "(p, t, Authorized a) \<in> set new1" for p t a
    proof -
      from new1(2) that obtain de where "de \<in> set (snd (handle pae m ev))" "de_effect de = SetAuthorization (Authorized a)"
        by (auto simp: h)
      from handle_authorizes [OF this] safe show ?thesis by (auto simp: safe_event_def)
    qed
    then have first: "\<forall>(p, t, auth) \<in> set new1. \<forall>a. auth = Authorized a \<longrightarrow>
        (\<exists>eap. from_server rp D (Event.AccessAccept a eap))" by blast
    show ?thesis
    proof (cases r1)
      case (Inl e)
      with Suc.prems(1) have "l' = l1" by (simp add: Cons x h d)
      with new1 first show ?thesis by blast
    next
      case (Inr fs)
      have "from_server rp D fev" if "(fm, fev) \<in> set fs" for fm fev
        using dispatch_all_ok [OF laws d [unfolded Inr]] that from_server_logged by fastforce
      moreover have "safe_event rp D fev" if "from_server rp D fev" for fev
        using that from_server_reply [OF that] by (auto simp: safe_event_def)
      ultimately have "\<forall>(m, ev) \<in> set (q1 @ fs). safe_event rp D ev"
        using Suc.prems(2) by (auto simp: Cons)
      moreover have "event_loop n rp (logged D) (q1 @ fs) (pae1, orc1, w1, l1) = ((pae', orc', w', l'), r)"
        using Suc.prems(1) by (simp add: Cons x h d Inr)
      ultimately obtain new2 where "l' = l1 @ new2" "\<forall>(p, t, auth) \<in> set new2. \<forall>a. auth = Authorized a \<longrightarrow>
          (\<exists>eap. from_server rp D (Event.AccessAccept a eap))"
        using Suc.IH by blast
      with new1(1) first show ?thesis by (intro exI [of _ "new1 @ new2"]) auto
    qed
  qed
qed


section \<open>Accounting identifiers\<close>

lemma put_session_other: "m' \<noteq> m \<Longrightarrow> orch_session (put_session m s orc) m' = orch_session orc m'"
  by (simp add: orch_session_def put_session_def)

lemma acct_id_for_known: "ss_acct_id (orch_session orc m) = Some i \<Longrightarrow> acct_id_for m orc = (orc, i)"
  by (auto simp: acct_id_for_def orch_session_def session_state_default_def split: option.splits)

lemma acct_id_for_stores: "acct_id_for m orc = (orc', i) \<Longrightarrow> ss_acct_id (orch_session orc' m) = Some i"
  by (auto simp: acct_id_for_def orch_session_def put_session_def Let_def
      split: option.splits Option.bind_splits)

lemma acct_id_for_other: "m' \<noteq> m \<Longrightarrow> orch_session (fst (acct_id_for m orc)) m' = orch_session orc m'"
  by (auto simp: acct_id_for_def put_session_other Let_def orch_session_def put_session_def split: option.splits)

lemma dispatch_keeps_acct_id:
  assumes "ss_acct_id (orch_session (fst st) m) = Some i"
  shows "ss_acct_id (orch_session (fst (fst (dispatch rp D de st))) m) = Some i"
proof -
  have put: "ss_acct_id (orch_session (put_session m' (s\<lparr>ss_radius := rs\<rparr>) orc) m) = Some i"
    if "ss_acct_id (orch_session orc m) = Some i" "m' = m \<Longrightarrow> ss_acct_id s = Some i" for m' s rs orc
    using that by (cases "m' = m") (simp_all add: put_session_other)
  have trip: "ss_acct_id (orch_session (fst (fst (round_trip rp D m' built st))) m) = Some i"
    if "ss_acct_id (orch_session (fst st) m) = Some i" for m' built and st :: "'a daemon"
  proof (cases built)
    case (Inr req)
    then show ?thesis
      using that
      by (cases "snd (dep_access_request D (snd st) req)")
        (auto simp: round_trip_def then_do_def case_prod_unfold Let_def intro!: put)
  qed (use that in \<open>simp add: round_trip_def\<close>)
  have acct: "ss_acct_id (orch_session (fst (fst (send_accounting rp D m' t st))) m) = Some i" for m' t
  proof (cases "m' = m")
    case True
    then show ?thesis
      using assms acct_id_for_known
      by (auto simp: send_accounting_def next_accounting_identifier_def then_do_def case_prod_unfold Let_def
          split: sum.splits)
  next
    case False
    then show ?thesis
      using assms acct_id_for_other [of m m'] put_session_other [of m m']
      by (auto simp: send_accounting_def then_do_def case_prod_unfold Let_def split: sum.splits)
  qed
  have auth: "ss_acct_id (orch_session (fst (fst (set_authorization D tm a st))) m) = Some i" for tm a
    using assms
    by (cases a; cases tm; cases "tm = Some m")
      (auto simp: set_authorization_def case_prod_unfold Let_def put_session_other)
  have nf: "fst (no_follow r) = fst r" for r :: "'a daemon \<times> (AuthdError + unit)"
    by (cases "snd r") (simp_all add: no_follow_def then_do_def)
  show ?thesis
    using assms acct auth
    by (cases "de_effect de")
      (auto simp: dispatch_def nf to_auth_server_def start_mab_def case_prod_unfold Let_def
        split: option.splits intro!: trip put)
qed

lemma dispatch_all_keeps_acct_id:
  "ss_acct_id (orch_session (fst st) m) = Some i \<Longrightarrow>
     ss_acct_id (orch_session (fst (fst (dispatch_all rp D m' des st))) m) = Some i"
proof (induction des arbitrary: st)
  case (Cons de des)
  have "ss_acct_id (orch_session (fst (fst (dispatch rp D de st))) m) = Some i"
    by (rule dispatch_keeps_acct_id [OF Cons.prems])
  from Cons.IH [OF this] this show ?case
    by (simp add: then_do_def split: sum.splits)
qed simp

lemma event_loop_keeps_acct_id:
  "ss_acct_id (orch_session (fst (snd st)) m) = Some i \<Longrightarrow>
     ss_acct_id (orch_session (fst (snd (fst (event_loop n rp D q st)))) m) = Some i"
proof (induction n arbitrary: q st)
  case 0
  then show ?case by (cases q) simp_all
next
  case (Suc n)
  obtain pae d where st: "st = (pae, d)" by (cases st)
  show ?case
  proof (cases q)
    case (Cons x q1)
    obtain m' ev where x: "x = (m', ev)" by fastforce
    obtain pae1 des where h: "handle pae m' ev = (pae1, des)" by fastforce
    obtain d1 r where d1: "dispatch_all rp D m' des d = (d1, r)" by fastforce
    have "ss_acct_id (orch_session (fst d1) m) = Some i"
      using dispatch_all_keeps_acct_id [of d m i rp D m' des] Suc.prems by (simp add: st d1)
    then show ?thesis
      using Suc.IH [of "(pae1, d1)"] by (cases r) (simp_all add: Cons x st h d1)
  qed (use Suc.prems in simp)
qed

section \<open>Properties\<close>

text \<open>
  The port opens only on the server's word: while the daemon processes an event
  that is neither an \<open>Access-Accept\<close> nor a CoA grant (every frame and every timer is
  such an event), the enforcer is asked to authorize with \<open>a\<close> only if the server's
  reply to a request the daemon sent carried that identifier, verified under that
  request's authenticator and the shared secret, and parsed as an accept of \<open>a\<close>.
\<close>

theorem daemon_opens_only_on_verified_accept:
  assumes "radius_laws rp" and "\<And>a eap. e \<noteq> Event.AccessAccept a eap" "\<And>a. e \<noteq> CoaAuthorize a"
    and "handle_event rp (logged D) m e (pae, orc, w, l) = ((pae', orc', w', l'), r)"
    and "(port, t, Authorized a) \<in> set (drop (length l) l')"
  shows "\<exists>eap. from_server rp D (Event.AccessAccept a eap)"
proof -
  have "\<forall>(m, ev) \<in> set [(m, e)]. safe_event rp D ev"
    using assms(2,3) by (simp add: safe_event_def)
  from event_loop_safe [OF assms(1) assms(4) [unfolded handle_event_def] this] obtain new where
    "l' = l @ new" "\<forall>(p, t, auth) \<in> set new. \<forall>a. auth = Authorized a \<longrightarrow>
      (\<exists>eap. from_server rp D (Event.AccessAccept a eap))" by blast
  with assms(5) show ?thesis by fastforce
qed

text \<open>A server that accepts everything, for the evaluated instances.\<close>

definition accepting_deps :: "unit Deps" where
  "accepting_deps =
     \<lparr>dep_send_eap = (\<lambda>w m eap. (w, Inr ())),
      dep_access_request = (\<lambda>w req. (w, Inr \<lparr>pkt_code = AccessAccept, pkt_identifier = pkt_identifier req,
        authenticator = checksum [1, 2] (authenticator req), attributes = []\<rparr>)),
      dep_accounting = (\<lambda>w req. (w, Inr ())),
      dep_apply = (\<lambda>w p t a. (w, Inr ())),
      dep_arm = (\<lambda>w m k d. w), dep_cancel = (\<lambda>w m k. w), dep_cancel_all = (\<lambda>w m. w),
      dep_random = (\<lambda>w. (w, replicate 16 9)),
      dep_timers = timers_default, dep_secret = [1, 2]\<rparr>"

definition mab_port :: PortPae where
  "mab_port = \<lparr>cfg = pae_config_default\<lparr>mab_enabled := True\<rparr>,
     sessions = [\<lparr>mac = (2, 0, 0, 0, 0, 1), state = State.Connecting, auth_kind = Dot1x, eap_id = 1, tx_count = 2,
       authz = None, accounting_open = False\<rparr>]\<rparr>"

definition sample_orch :: Orchestrator where
  "sample_orch = orchestrator_new ''Ethernet0'' sample_ctx"

lemma sample_accept_reply:
  "verify_reply rfc_proto \<lparr>pkt_code = AccessAccept, pkt_identifier = i,
      authenticator = checksum [1, 2] ra, attributes = []\<rparr> ra [1, 2]"
  "parse_reply rfc_proto \<lparr>pkt_code = AccessAccept, pkt_identifier = i, authenticator = au, attributes = []\<rparr> =
     Inr (Event.AccessAccept authorization_default None)"
  by (simp_all add: verify_reply_def verify_message_authenticator_def parse_reply_def parse_authorization_def
      reassemble_def non_empty_def packet_lawsD [OF rfc_proto_laws] authorization_default_def)
    (simp add: rfc_proto_def rfc_response_ok_def)

lemma sample_mab_request:
  "\<exists>req. access_request_mab rfc_proto (sample_ctx\<lparr>calling_station := (2, 0, 0, 0, 0, 1)\<rparr>) 0 (replicate 16 9) [1, 2]
     = Inr req \<and> pkt_identifier req = 0 \<and> authenticator req = replicate 16 9"
proof -
  let ?ctx = "sample_ctx\<lparr>calling_station := (2, 0, 0, 0, 0, 1)\<rparr>"
  have "\<exists>p. sealed rfc_proto 0 (replicate 16 9) [1, 2] (mab_request_attributes rfc_proto ?ctx) p"
    by (simp add: sealed_def mab_request_attributes_def nas_attributes_def sample_ctx_def)
      (simp add: rfc_proto_def rfc_encode_def format_mac_length Let_def)
  then obtain p where p: "sealed rfc_proto 0 (replicate 16 9) [1, 2] (mab_request_attributes rfc_proto ?ctx) p"
    by blast
  then have "access_request_mab rfc_proto ?ctx 0 (replicate 16 9) [1, 2] = Inr p"
    by (simp add: access_request_mab_iff [OF rfc_proto_laws] names_fit_def sample_ctx_def)
  with p show ?thesis by (auto simp: sealed_def)
qed

lemma sample_mab_follow:
  "\<exists>orc. start_mab rfc_proto (logged accepting_deps) (2, 0, 0, 0, 0, 1) (sample_orch, (), l) =
     ((orc, (), l), Inr (Some (Event.AccessAccept authorization_default None)))"
proof -
  obtain req where req: "access_request_mab rfc_proto (sample_ctx\<lparr>calling_station := (2, 0, 0, 0, 0, 1)\<rparr>) 0
      (replicate 16 9) [1, 2] = Inr req" "pkt_identifier req = 0" "authenticator req = replicate 16 9"
    using sample_mab_request by blast
  show ?thesis
    by (simp add: start_mab_def build_mab_request_def next_identifier_def logged_def accepting_deps_def
        sample_orch_def orchestrator_new_def ctx_for_def orch_session_def session_state_default_def
        radius_session_new_def put_session_def round_trip_def handle_reply_def req sample_accept_reply)
qed

lemma mab_port_handle:
  "handle mab_port (2, 0, 0, 0, 0, 1) (Timer TimerKind.TxPeriod) =
     (mab_port\<lparr>sessions := [(hd (sessions mab_port))\<lparr>auth_kind := Mab, state := State.AuthServer\<rparr>]\<rparr>,
      map (\<lambda>x. \<lparr>de_mac = Some (2, 0, 0, 0, 0, 1), de_effect = x\<rparr>)
        [CancelTimer TimerKind.TxPeriod, StartMab (2, 0, 0, 0, 0, 1), ArmTimer TimerKind.ServerTimeout])"
  "handle (mab_port\<lparr>sessions := [(hd (sessions mab_port))\<lparr>auth_kind := Mab, state := State.AuthServer\<rparr>]\<rparr>)
     (2, 0, 0, 0, 0, 1) (Event.AccessAccept authorization_default None) =
     (mab_port\<lparr>sessions := [(hd (sessions mab_port))\<lparr>auth_kind := Mab, state := State.Authenticated,
         authz := Some authorization_default, accounting_open := True\<rparr>]\<rparr>,
      map (\<lambda>x. \<lparr>de_mac = Some (2, 0, 0, 0, 0, 1), de_effect = x\<rparr>)
        [CancelAllTimers, SetAuthorization (Authorized authorization_default), Accounting AcctTrigger.Start,
         ArmTimer TimerKind.Reauth])"
  by (simp_all add: mab_port_def handle_def step_def step_in_state_def step_defs prune_def decorate_def
      pae_config_default_def authorization_default_def)


lemma event_loop_last:
  "snd (fst (event_loop (Suc 0) rp D [(m, ev)] (pae, d))) = fst (dispatch_all rp D m (snd (handle pae m ev)) d)"
proof -
  have stop: "event_loop 0 rp D q st = (st, Inr ())" for q and st :: "'a port_state" by (cases q) simp_all
  obtain pae1 des where h: "handle pae m ev = (pae1, des)" by fastforce
  obtain d1 r where d1: "dispatch_all rp D m des d = (d1, r)" by fastforce
  show ?thesis by (cases r) (simp_all add: h d1 stop)
qed

lemma accepting_log:
  "\<exists>new. snd (snd (fst (dispatch_all rfc_proto (logged accepting_deps) (2, 0, 0, 0, 0, 1)
     (map (\<lambda>x. \<lparr>de_mac = Some (2, 0, 0, 0, 0, 1), de_effect = x\<rparr>)
        (CancelAllTimers # SetAuthorization (Authorized authorization_default) # rest)) (orc, (), [])))) =
     (orch_port orc, Mac (2, 0, 0, 0, 0, 1), Authorized authorization_default) # new"
proof -
  let ?x = "(orch_port orc, Mac (2, 0, 0, 0, 0, 1), Authorized authorization_default)"
  let ?rest = "map (\<lambda>x. \<lparr>de_mac = Some (2, 0, 0, 0, 0, 1), de_effect = x\<rparr>) rest :: DirectedEffect list"
  obtain orc1 where "set_authorization (logged accepting_deps) (Some (2, 0, 0, 0, 0, 1))
      (Authorized authorization_default) (orc, (), []) = ((orc1, (), [?x]), Inr ())"
    by (simp add: set_authorization_def logged_def accepting_deps_def put_session_def)
  then have "fst (dispatch_all rfc_proto (logged accepting_deps) (2, 0, 0, 0, 0, 1)
     (map (\<lambda>x. \<lparr>de_mac = Some (2, 0, 0, 0, 0, 1), de_effect = x\<rparr>)
        (CancelAllTimers # SetAuthorization (Authorized authorization_default) # rest)) (orc, (), [])) =
     fst (dispatch_all rfc_proto (logged accepting_deps) (2, 0, 0, 0, 0, 1) ?rest (orc1, (), [?x]))"
    by (simp add: dispatch_def logged_simps no_follow_def then_do_def accepting_deps_def split: sum.splits)
  moreover have "\<exists>new. snd (snd (fst (dispatch_all rfc_proto (logged accepting_deps) (2, 0, 0, 0, 0, 1) ?rest
      (orc1, (), [?x])))) = [?x] @ new"
    using dispatch_all_logs [of "(orc1, (), [?x])" rfc_proto accepting_deps "(2, 0, 0, 0, 0, 1)" ?rest]
    unfolding logs_def snd_conv by blast
  ultimately show ?thesis by simp
qed

lemma mab_port_opens:
  "\<exists>new. snd (snd (snd (fst (handle_event rfc_proto (logged accepting_deps) (2, 0, 0, 0, 0, 1)
     (Timer TimerKind.TxPeriod) (mab_port, sample_orch, (), []))))) =
     (''Ethernet0'', Mac (2, 0, 0, 0, 0, 1), Authorized authorization_default) # new"
proof -
  let ?m = "(2, 0, 0, 0, 0, 1) :: MacAddr" and ?D = "logged accepting_deps"
  let ?p1 = "mab_port\<lparr>sessions := [(hd (sessions mab_port))\<lparr>auth_kind := Mab, state := State.AuthServer\<rparr>]\<rparr>"
  obtain orc where follow: "start_mab rfc_proto ?D ?m (sample_orch, (), []) =
      ((orc, (), []), Inr (Some (Event.AccessAccept authorization_default None)))"
    using sample_mab_follow by blast
  have port: "orch_port orc = ''Ethernet0''"
    using follow
    by (auto simp: start_mab_def round_trip_def put_session_def sample_orch_def orchestrator_new_def then_do_def
        case_prod_unfold Let_def split: sum.splits)
  have arm: "dispatch rfc_proto ?D \<lparr>de_mac = Some ?m, de_effect = ArmTimer TimerKind.ServerTimeout\<rparr> (orc, (), []) =
      ((orc, (), []), Inr None)"
    by (simp add: dispatch_def timer_duration_def logged_def accepting_deps_def)
  have "dispatch_all rfc_proto ?D ?m (snd (handle mab_port ?m (Timer TimerKind.TxPeriod))) (sample_orch, (), []) =
      ((orc, (), []), Inr [(?m, Event.AccessAccept authorization_default None)])"
    unfolding mab_port_handle(1) using follow arm
    by (simp add: dispatch_def [of _ _ "\<lparr>de_mac = _, de_effect = CancelTimer _\<rparr>"]
        dispatch_def [of _ _ "\<lparr>de_mac = _, de_effect = StartMab _\<rparr>"] logged_simps accepting_deps_def)
  then have "event_loop (Suc (Suc 0)) rfc_proto ?D [(?m, Timer TimerKind.TxPeriod)] (mab_port, sample_orch, (), []) =
      event_loop (Suc 0) rfc_proto ?D [(?m, Event.AccessAccept authorization_default None)] (?p1, orc, (), [])"
    using mab_port_handle(1) by simp
  moreover have "handle_event rfc_proto ?D ?m (Timer TimerKind.TxPeriod) (mab_port, sample_orch, (), []) =
      event_loop (Suc (Suc 0)) rfc_proto ?D [(?m, Timer TimerKind.TxPeriod)] (mab_port, sample_orch, (), [])"
    by (rule handle_event_unroll [OF rfc_proto_laws])
  ultimately show ?thesis
    using accepting_log [of "[Accounting AcctTrigger.Start, ArmTimer TimerKind.Reauth]" orc] port
      event_loop_last [of rfc_proto ?D ?m "Event.AccessAccept authorization_default None" ?p1 "(orc, (), [])"]
    by (simp add: mab_port_handle(2))
qed

theorem daemon_opens_only_on_verified_accept_witness:
  "\<exists>eap. from_server rfc_proto accepting_deps (Event.AccessAccept authorization_default eap)"
proof -
  let ?out = "handle_event rfc_proto (logged accepting_deps) (2, 0, 0, 0, 0, 1) (Timer TimerKind.TxPeriod)
    (mab_port, sample_orch, (), [])"
  obtain st r where "?out = (st, r)" by (cases ?out)
  moreover obtain pae' orc' w' l' where "st = (pae', orc', w', l')" by (cases st)
  ultimately have out: "?out = ((pae', orc', w', l'), r)" by simp
  obtain new where "l' = (''Ethernet0'', Mac (2, 0, 0, 0, 0, 1), Authorized authorization_default) # new"
    using mab_port_opens by (auto simp: out)
  then show ?thesis
    by (intro daemon_opens_only_on_verified_accept [OF rfc_proto_laws _ _ out]) auto
qed


text \<open>
  C14. The step bound is never the reason to stop: one event causes at most one RADIUS
  exchange, and its reply causes none, so the loop finishes within two PAE steps and
  gives the same result under every bound of at least two, the bound of 64 included.
\<close>

theorem step_bound_never_reached:
  assumes "radius_laws rp"
  shows "event_loop (Suc (Suc n)) rp D [(m, ev)] st = handle_event rp D m ev st"
  by (simp only: event_loop_two_steps [OF assms, of n] handle_event_unroll [OF assms])

theorem step_bound_never_reached_witness:
  "event_loop 1000 rfc_proto accepting_deps [((2, 0, 0, 0, 0, 1), Timer TimerKind.TxPeriod)]
     (mab_port, sample_orch, ()) =
   handle_event rfc_proto accepting_deps (2, 0, 0, 0, 0, 1) (Timer TimerKind.TxPeriod) (mab_port, sample_orch, ())"
  using step_bound_never_reached [OF rfc_proto_laws, of 998] by (simp del: event_loop.simps)

text \<open>
  A multi-host port never times a session out: the authorization of a multi-host
  port is directed at the port, not at the MAC, so its \<open>Session-Timeout\<close> is not stored
  and the timer that the PAE arms next gets no duration; in every other host mode the
  timer gets the granted number of seconds.
\<close>

theorem session_timeout_needs_mac_target:
  assumes "ss_timeout (orch_session orc m) = None"
    and "dispatch rp D (hd (decorate mode m [SetAuthorization (Authorized a)])) (orc, w) = ((orc', w'), Inr f)"
  shows "timer_duration orc' m TimerKind.SessionTimeout (dep_timers D) =
    (if mode = MultiHost then None else map_option ucast (session_timeout a))"
proof -
  have none: "Option.bind (orch_sessions orc m) ss_timeout = None"
    using assms(1) by (auto simp: orch_session_def split: option.splits Option.bind_splits)
  have "orc' = (if mode = MultiHost then orc
      else put_session m ((orch_session orc m)\<lparr>ss_timeout := session_timeout a\<rparr>) orc)"
    using assms(2)
    by (auto simp: decorate_def dispatch_def no_follow_def then_do_ok_iff set_authorization_def
        case_prod_unfold Let_def)
  with none show ?thesis
    by (simp add: timer_duration_def put_session_def)
qed

theorem session_timeout_needs_mac_target_witness:
  "\<exists>orc' w'. dispatch rfc_proto accepting_deps
       (hd (decorate MultiHost (2, 0, 0, 0, 0, 1)
         [SetAuthorization (Authorized (authorization_default\<lparr>session_timeout := Some 3600\<rparr>))]))
       (sample_orch, ()) = ((orc', w'), Inr None) \<and>
     timer_duration orc' (2, 0, 0, 0, 0, 1) TimerKind.SessionTimeout (dep_timers accepting_deps) = None"
proof -
  have s: "ss_timeout (orch_session sample_orch (2, 0, 0, 0, 0, 1)) = None"
    by (simp add: sample_orch_def orchestrator_new_def orch_session_def session_state_default_def)
  have d: "dispatch rfc_proto accepting_deps
      (hd (decorate MultiHost (2, 0, 0, 0, 0, 1)
        [SetAuthorization (Authorized (authorization_default\<lparr>session_timeout := Some 3600\<rparr>))]))
      (sample_orch, ()) = ((sample_orch, ()), Inr None)"
    by (simp add: decorate_def dispatch_def no_follow_def set_authorization_def accepting_deps_def)
  from session_timeout_needs_mac_target [OF s d] d show ?thesis by simp
qed

text \<open>
  An accounting session id is never renewed: once a MAC has one, every event,
  logoffs and new logins included, leaves it in place, so all later sessions of that
  MAC on the port report the same \<open>Acct-Session-Id\<close>.
\<close>

theorem acct_session_id_reused:
  assumes "acct_id_for m orc = (orc1, i)"
    and "handle_event rp D m' ev (pae, orc1, w) = ((pae', orc2, w'), r)"
  shows "acct_id_for m orc2 = (orc2, i)"
proof -
  have "ss_acct_id (orch_session (fst (snd (pae, orc1, w))) m) = Some i"
    using acct_id_for_stores [OF assms(1)] by simp
  from event_loop_keeps_acct_id [OF this, of 64 rp D "[(m', ev)]"] assms(2) show ?thesis
    by (intro acct_id_for_known) (simp add: handle_event_def)
qed

theorem acct_session_id_reused_witness:
  "\<exists>orc1 i pae' orc2 w' r. acct_id_for (2, 0, 0, 0, 0, 1) sample_orch = (orc1, i) \<and>
     handle_event rfc_proto accepting_deps (2, 0, 0, 0, 0, 1) EapolLogoff (mab_port, orc1, ()) =
       ((pae', orc2, w'), r) \<and>
     acct_id_for (2, 0, 0, 0, 0, 1) orc2 = (orc2, i)"
proof -
  obtain orc1 i where a: "acct_id_for (2, 0, 0, 0, 0, 1) sample_orch = (orc1, i)" by fastforce
  let ?out = "handle_event rfc_proto accepting_deps (2, 0, 0, 0, 0, 1) EapolLogoff (mab_port, orc1, ())"
  obtain st r where "?out = (st, r)" by (cases ?out)
  moreover obtain pae' orc2 w' where "st = (pae', orc2, w')" by (cases st)
  ultimately have h: "?out = ((pae', orc2, w'), r)" by simp
  from acct_session_id_reused [OF a h] a h show ?thesis by blast
qed

end
