(* ===== verification/Authd_Scheduler.thy ===== *)
theory Authd_Scheduler
  imports Authd_Dispatch
begin

text \<open>
  The Tokio timer scheduler of the port worker (\<open>TokioScheduler\<close> in
  \<open>crates/authd/src/worker.rs\<close>). The \<open>Scheduler\<close> trait's contract is the locale
  \<open>timer_scheduler\<close>, met by the scheduler's live tasks.
\<close>

section \<open>The timer scheduler\<close>

text \<open>
  Spawned tasks by number, each with the timer it stands for; \<open>handles\<close> is the map of
  abort handles, \<open>channel\<close> the expiries delivered and not yet received.
\<close>

record TokioScheduler =
  handles :: "(MacAddr \<times> TimerKind) \<rightharpoonup> nat"
  tasks :: "nat \<rightharpoonup> (MacAddr \<times> TimerKind \<times> u64)"
  next_task :: nat
  channel :: "(MacAddr \<times> Event) list"

definition scheduler_new :: TokioScheduler where
  "scheduler_new = \<lparr>handles = Map.empty, tasks = Map.empty, next_task = 0, channel = []\<rparr>"

definition abort :: "nat \<Rightarrow> TokioScheduler \<Rightarrow> TokioScheduler" where
  "abort n s = s\<lparr>tasks := (tasks s)(n := None)\<rparr>"

definition scheduler_arm :: "TokioScheduler \<Rightarrow> MacAddr \<Rightarrow> TimerKind \<Rightarrow> u64 \<Rightarrow> TokioScheduler" where
  "scheduler_arm s m k dur =
     (let n = next_task s;
          s1 = s\<lparr>next_task := Suc n, tasks := (tasks s)(n \<mapsto> (m, k, dur))\<rparr>;
          s2 = s1\<lparr>handles := (handles s1)((m, k) \<mapsto> n)\<rparr>
      in case handles s (m, k) of Some old \<Rightarrow> abort old s2 | None \<Rightarrow> s2)"

definition scheduler_cancel :: "TokioScheduler \<Rightarrow> MacAddr \<Rightarrow> TimerKind \<Rightarrow> TokioScheduler" where
  "scheduler_cancel s m k =
     (case handles s (m, k) of
        Some h \<Rightarrow> abort h (s\<lparr>handles := (handles s)((m, k) := None)\<rparr>)
      | None \<Rightarrow> s)"

definition TIMER_KINDS :: "TimerKind list" where
  "TIMER_KINDS = [TxPeriod, TimerKind.Held, Reauth, ServerTimeout, SuppTimeout, TimerKind.SessionTimeout]"

text \<open>The keys of a MAC in the handle map, each removed and aborted.\<close>

definition scheduler_cancel_all :: "TokioScheduler \<Rightarrow> MacAddr \<Rightarrow> TokioScheduler" where
  "scheduler_cancel_all s m =
     foldl (\<lambda>s k. scheduler_cancel s m k) s (filter (\<lambda>k. handles s (m, k) \<noteq> None) TIMER_KINDS)"

text \<open>A task that wakes up sends its event; its handle stays in the map.\<close>

definition scheduler_fire :: "nat \<Rightarrow> TokioScheduler \<Rightarrow> TokioScheduler" where
  "scheduler_fire n s =
     (case tasks s n of
        Some (m, k, _) \<Rightarrow> s\<lparr>tasks := (tasks s)(n := None), channel := channel s @ [(m, Timer k)]\<rparr>
      | None \<Rightarrow> s)"

text \<open>The \<open>Scheduler\<close> trait: what is armed after each operation.\<close>

locale timer_scheduler =
  fixes arm :: "'s \<Rightarrow> MacAddr \<Rightarrow> TimerKind \<Rightarrow> u64 \<Rightarrow> 's"
    and cancel :: "'s \<Rightarrow> MacAddr \<Rightarrow> TimerKind \<Rightarrow> 's"
    and cancel_all :: "'s \<Rightarrow> MacAddr \<Rightarrow> 's"
    and armed :: "'s \<Rightarrow> MacAddr \<Rightarrow> TimerKind set"
    and wf :: "'s \<Rightarrow> bool"
  assumes arm_wf: "wf s \<Longrightarrow> wf (arm s m k d)"
    and cancel_wf: "wf s \<Longrightarrow> wf (cancel s m k)"
    and cancel_all_wf: "wf s \<Longrightarrow> wf (cancel_all s m)"
    and arm_armed: "wf s \<Longrightarrow> armed (arm s m k d) = (armed s)(m := insert k (armed s m))"
    and cancel_armed: "wf s \<Longrightarrow> armed (cancel s m k) = (armed s)(m := armed s m - {k})"
    and cancel_all_armed: "wf s \<Longrightarrow> armed (cancel_all s m) = (armed s)(m := {})"
begin

text \<open>The timer effects of one MAC, as the orchestrator passes them on.\<close>

fun timer_effect :: "MacAddr \<Rightarrow> (TimerKind \<Rightarrow> u64) \<Rightarrow> 's \<Rightarrow> Effect \<Rightarrow> 's" where
  "timer_effect m dur s (ArmTimer k) = arm s m k (dur k)"
| "timer_effect m dur s (CancelTimer k) = cancel s m k"
| "timer_effect m dur s CancelAllTimers = cancel_all s m"
| "timer_effect m dur s _ = s"

lemma timer_effect_wf: "wf s \<Longrightarrow> wf (timer_effect m dur s x)"
  by (cases x) (simp_all add: arm_wf cancel_wf cancel_all_wf)

lemma timer_effect_armed:
  "wf s \<Longrightarrow> armed (timer_effect m dur s x) = (armed s)(m := armed_timers (armed s m) x)"
  by (cases x) (simp_all add: arm_armed cancel_armed cancel_all_armed)

lemma timer_effects_armed:
  "wf s \<Longrightarrow> wf (foldl (timer_effect m dur) s fx) \<and>
     armed (foldl (timer_effect m dur) s fx) = (armed s)(m := foldl armed_timers (armed s m) fx)"
proof (induction fx arbitrary: s)
  case (Cons x fx)
  from Cons.IH [OF timer_effect_wf [OF Cons.prems, of m dur x]]
  show ?case
    unfolding timer_effect_armed [OF Cons.prems] fun_upd_upd fun_upd_same foldl_Cons .
qed simp

end

text \<open>A live task is the one its handle names, and task numbers are fresh.\<close>

definition scheduler_wf :: "TokioScheduler \<Rightarrow> bool" where
  "scheduler_wf s \<longleftrightarrow>
     (\<forall>n m k d. tasks s n = Some (m, k, d) \<longrightarrow> handles s (m, k) = Some n) \<and>
     (\<forall>key n. handles s key = Some n \<longrightarrow> n < next_task s) \<and>
     (\<forall>key key' n. handles s key = Some n \<and> handles s key' = Some n \<longrightarrow> key = key')"

definition live_timers :: "TokioScheduler \<Rightarrow> MacAddr \<Rightarrow> TimerKind set" where
  "live_timers s m = {k. \<exists>n d. tasks s n = Some (m, k, d)}"

lemma scheduler_wfI:
  assumes "\<And>n m k d. tasks s n = Some (m, k, d) \<Longrightarrow> handles s (m, k) = Some n"
    and "\<And>key n. handles s key = Some n \<Longrightarrow> n < next_task s"
    and "\<And>key key' n. handles s key = Some n \<Longrightarrow> handles s key' = Some n \<Longrightarrow> key = key'"
  shows "scheduler_wf s"
  using assms unfolding scheduler_wf_def by blast

lemma scheduler_wfD:
  assumes "scheduler_wf s"
  shows "tasks s n = Some (m, k, d) \<Longrightarrow> handles s (m, k) = Some n"
    and "handles s key = Some n \<Longrightarrow> n < next_task s"
    and "handles s key = Some n \<Longrightarrow> handles s key' = Some n \<Longrightarrow> key = key'"
  using assms unfolding scheduler_wf_def by blast+

lemma scheduler_arm_handles [simp]: "handles (scheduler_arm s m k d) = (handles s)((m, k) \<mapsto> next_task s)"
  by (simp add: scheduler_arm_def abort_def Let_def split: option.split)

lemma scheduler_arm_next_task [simp]: "next_task (scheduler_arm s m k d) = Suc (next_task s)"
  by (simp add: scheduler_arm_def abort_def Let_def split: option.split)

lemma scheduler_arm_tasks:
  assumes "scheduler_wf s"
  shows "tasks (scheduler_arm s m k d) n =
    (if n = next_task s then Some (m, k, d) else if handles s (m, k) = Some n then None else tasks s n)"
  using scheduler_wfD(2) [OF assms, of "(m, k)"]
  by (auto simp: scheduler_arm_def abort_def Let_def split: option.split)

lemma scheduler_cancel_handles [simp]: "handles (scheduler_cancel s m k) = (handles s)((m, k) := None)"
  by (auto simp: scheduler_cancel_def abort_def split: option.split)

lemma scheduler_cancel_next_task [simp]: "next_task (scheduler_cancel s m k) = next_task s"
  by (simp add: scheduler_cancel_def abort_def split: option.split)

lemma scheduler_cancel_tasks:
  "tasks (scheduler_cancel s m k) n = (if handles s (m, k) = Some n then None else tasks s n)"
  by (auto simp: scheduler_cancel_def abort_def split: option.split)

lemma scheduler_channel [simp]:
  "channel (scheduler_arm s m k d) = channel s" "channel (scheduler_cancel s m k) = channel s"
  by (simp_all add: scheduler_arm_def scheduler_cancel_def abort_def Let_def split: option.split)

lemma scheduler_new_wf [simp]: "scheduler_wf scheduler_new"
  by (rule scheduler_wfI) (simp_all add: scheduler_new_def)

lemma scheduler_arm_wf:
  assumes wf: "scheduler_wf s"
  shows "scheduler_wf (scheduler_arm s m k d)"
proof (rule scheduler_wfI)
  fix n m' k' d'
  assume "tasks (scheduler_arm s m k d) n = Some (m', k', d')"
  then show "handles (scheduler_arm s m k d) (m', k') = Some n"
    using scheduler_wfD(1) [OF wf, of n m' k' d'] by (auto simp: scheduler_arm_tasks [OF wf] split: if_splits)
next
  fix key n
  assume "handles (scheduler_arm s m k d) key = Some n"
  then show "n < next_task (scheduler_arm s m k d)"
    using scheduler_wfD(2) [OF wf, of key n] by (simp split: if_splits)
next
  fix key key' n
  assume "handles (scheduler_arm s m k d) key = Some n" "handles (scheduler_arm s m k d) key' = Some n"
  then show "key = key'"
    using scheduler_wfD(2) [OF wf, of key n] scheduler_wfD(2) [OF wf, of key' n] scheduler_wfD(3) [OF wf, of key n key']
    by (auto split: if_splits)
qed

lemma scheduler_cancel_wf:
  assumes wf: "scheduler_wf s"
  shows "scheduler_wf (scheduler_cancel s m k)"
proof (rule scheduler_wfI)
  fix n m' k' d'
  assume "tasks (scheduler_cancel s m k) n = Some (m', k', d')"
  then show "handles (scheduler_cancel s m k) (m', k') = Some n"
    using scheduler_wfD(1) [OF wf, of n m' k' d'] by (auto simp: scheduler_cancel_tasks split: if_splits)
qed (use scheduler_wfD(2,3) [OF wf] in \<open>simp_all split: if_splits\<close>)

lemma scheduler_arm_live:
  assumes wf: "scheduler_wf s"
  shows "live_timers (scheduler_arm s m k d) = (live_timers s)(m := insert k (live_timers s m))"
proof -
  have "k' \<in> live_timers (scheduler_arm s m k d) m' \<longleftrightarrow> (m' = m \<and> k' = k) \<or> k' \<in> live_timers s m'" for m' k'
  proof (cases "m' = m \<and> k' = k")
    case True
    then show ?thesis by (auto simp: live_timers_def scheduler_arm_tasks [OF wf])
  next
    case False
    have "tasks (scheduler_arm s m k d) n = Some (m', k', d') \<longleftrightarrow> tasks s n = Some (m', k', d')" for n d'
      using False scheduler_wfD(1) [OF wf, of n m' k' d'] scheduler_wfD(2) [OF wf, of "(m', k')" n]
        scheduler_wfD(3) [OF wf, of "(m', k')" n "(m, k)"]
      by (auto simp: scheduler_arm_tasks [OF wf])
    with False show ?thesis unfolding live_timers_def by blast
  qed
  then show ?thesis by (auto simp only: fun_eq_iff set_eq_iff fun_upd_apply insert_iff split: if_splits)
qed

lemma scheduler_cancel_live:
  assumes wf: "scheduler_wf s"
  shows "live_timers (scheduler_cancel s m k) = (live_timers s)(m := live_timers s m - {k})"
proof -
  have "tasks (scheduler_cancel s m k) n = Some (m', k', d') \<longleftrightarrow>
      tasks s n = Some (m', k', d') \<and> \<not> (m' = m \<and> k' = k)" for n m' k' d'
    using scheduler_wfD(1) [OF wf, of n m' k' d'] scheduler_wfD(3) [OF wf, of "(m', k')" n "(m, k)"]
    by (auto simp: scheduler_cancel_tasks)
  then show ?thesis by (auto simp: live_timers_def fun_eq_iff set_eq_iff)
qed

lemma scheduler_cancel_list:
  "scheduler_wf s \<Longrightarrow> scheduler_wf (foldl (\<lambda>s k. scheduler_cancel s m k) s ks) \<and>
     live_timers (foldl (\<lambda>s k. scheduler_cancel s m k) s ks) = (live_timers s)(m := live_timers s m - set ks)"
proof (induction ks arbitrary: s)
  case (Cons k ks)
  from Cons.IH [OF scheduler_cancel_wf [OF Cons.prems, of m k]]
  show ?case
    unfolding scheduler_cancel_live [OF Cons.prems] fun_upd_upd fun_upd_same foldl_Cons
    by (simp only: list.set Diff_insert2 [of _ k "set ks"])
qed simp

lemma TIMER_KINDS_complete: "k \<in> set TIMER_KINDS"
  by (cases k) (simp_all add: TIMER_KINDS_def)

lemma scheduler_cancel_all_spec:
  assumes wf: "scheduler_wf s"
  shows "scheduler_wf (scheduler_cancel_all s m)"
    and "live_timers (scheduler_cancel_all s m) = (live_timers s)(m := {})"
proof -
  let ?ks = "filter (\<lambda>k. handles s (m, k) \<noteq> None) TIMER_KINDS"
  note spec = scheduler_cancel_list [OF wf, of m ?ks]
  have "live_timers s m \<subseteq> set ?ks"
    using scheduler_wfD(1) [OF wf, of _ m] TIMER_KINDS_complete by (auto simp: live_timers_def)
  then have "live_timers s m - set ?ks = {}" by blast
  with spec show "live_timers (scheduler_cancel_all s m) = (live_timers s)(m := {})"
    unfolding scheduler_cancel_all_def by (simp only:)
  show "scheduler_wf (scheduler_cancel_all s m)" using spec by (simp add: scheduler_cancel_all_def)
qed

interpretation tokio: timer_scheduler scheduler_arm scheduler_cancel scheduler_cancel_all live_timers scheduler_wf
  by unfold_locales
    (simp_all only: scheduler_arm_wf scheduler_cancel_wf scheduler_cancel_all_spec scheduler_arm_live scheduler_cancel_live)

end
