(* ===== verification/Authd_Worker.thy ===== *)
theory Authd_Worker
  imports Authd_Scheduler
begin

text \<open>
  The per-port worker (\<open>crates/authd/src/worker.rs\<close>): the adapters that bind the
  orchestrator to the EAPOL socket, the RadSec connection, an enforcer and the
  Tokio timers, the decoding of inbound frames, and \<open>run_port\<close>. What the kernel, the
  RADIUS server, the random generator, the timer tasks and the loops of other ports do is the
  record \<open>Environment\<close>, any sequence of answers and events; the inputs of the loop are any
  interleaving of socket readiness, timer wake-ups and channel receives.
\<close>

section \<open>The adapters\<close>

text \<open>
  What the kernel makes of a frame handed to it: it is not writable for a number of
  turns, then the reactor or the call fails, or the frame is taken.
\<close>

datatype tx_answer = TxReactorError nat IoError | TxCallError nat IoError | TxDone nat

fun tx_attempts :: "tx_answer \<Rightarrow> unit attempt list" where
  "tx_attempts (TxReactorError n e) = replicate n WouldBlock @ [ReactorError e]"
| "tx_attempts (TxCallError n e) = replicate n WouldBlock @ [CallError e]"
| "tx_attempts (TxDone n) = replicate n WouldBlock @ [Done ()]"

text \<open>
  What becomes of the connection around one request: the octets that arrive before its
  deadline, whether the stream then ends or fails, and whether writes fail.
\<close>

record PeerTurn =
  arrivals :: bytes
  reads_end :: "IoError option"
  writes_end :: "(nat \<times> IoError) option"

definition peer_turn :: "PeerTurn \<Rightarrow> TlsStream \<Rightarrow> TlsStream" where
  "peer_turn t st =
     st\<lparr>inbound := inbound st @ arrivals t,
        read_error := (case read_error st of Some e \<Rightarrow> Some e | None \<Rightarrow> reads_end t),
        write_error := (case write_error st of Some e \<Rightarrow> Some e | None \<Rightarrow> writes_end t)\<rparr>"

text \<open>
  The kernel, and the n-th answer of each of: the kernel to a transmission (of a frame,
  on a descriptor, to an address), the server and the network between the n-th request
  and its deadline, and the n-th request authenticator. Before the n-th use of a boundary,
  which is where the loop of a port waits, timer tasks may wake up, and the loops of other
  ports may make calls to the enforcer that they share with it.
\<close>

record Environment =
  env_kernel :: Kernel
  env_tx :: "nat \<Rightarrow> nat \<Rightarrow> bytes \<Rightarrow> SockaddrLl \<Rightarrow> tx_answer"
  env_peer :: "nat \<Rightarrow> PeerTurn"
  env_random :: "nat \<Rightarrow> bytes"
  env_wakes :: "nat \<Rightarrow> nat list"
  env_others :: "nat \<Rightarrow> Call list"

text \<open>Everything the boundaries of one port keep, with how often each was used.\<close>

record 's Worker =
  w_enforcer :: 's
  w_conn :: RadSecConnection
  w_sched :: TokioScheduler
  w_sent :: "bytes list"
  w_tx :: nat
  w_requests :: nat
  w_randoms :: nat
  w_moment :: nat

text \<open>A task wakes up and sends its event.\<close>

definition fire :: "nat \<Rightarrow> 's Worker \<Rightarrow> 's Worker" where
  "fire n w = w\<lparr>w_sched := scheduler_fire n (w_sched w)\<rparr>"

text \<open>What happens elsewhere before the next use of a boundary.\<close>

definition elapse :: "Environment \<Rightarrow> ('s, 'e) Enforcer \<Rightarrow> 's Worker \<Rightarrow> 's Worker" where
  "elapse env E w =
     (let n = w_moment w
      in foldl (\<lambda>w i. fire i w)
           (w\<lparr>w_moment := Suc n, w_enforcer := foldl (perform E) (w_enforcer w) (env_others env n)\<rparr>)
           (env_wakes env n))"

record EapolSupplicant =
  sup_sock :: EapolSocket
  sup_src :: MacAddr

text \<open>\<open>EapolSupplicant::send_eap\<close>; \<open>tx_answered\<close> below shows that the last case never occurs.\<close>

definition send_eap ::
    "Environment \<Rightarrow> EapolSupplicant \<Rightarrow> 's Worker \<Rightarrow> MacAddr \<Rightarrow> bytes \<Rightarrow> 's Worker \<times> (AuthdError + unit)" where
  "send_eap env link w m eap =
     (case encode_frame (pdu_new PacketType.Eap eap) m (sup_src link) of
        Inl e \<Rightarrow> (w, Inl (AuthdError.Frame e))
      | Inr frame \<Rightarrow>
          (case eapol_send (env_kernel env) (\<lambda>f bs a. tx_attempts (env_tx env (w_tx w) f bs a)) (sup_sock link) frame of
             Some (Inr _) \<Rightarrow> (w\<lparr>w_tx := Suc (w_tx w), w_sent := w_sent w @ [frame]\<rparr>, Inr ())
           | Some (Inl e) \<Rightarrow> (w\<lparr>w_tx := Suc (w_tx w)\<rparr>, Inl (Eapol e))
           | None \<Rightarrow> (w, Inl (Eapol (EapolIo (OtherError []))))))"

text \<open>One exchange on the connection, with what the peer does before its deadline.\<close>

definition exchange ::
    "RadiusProto \<Rightarrow> Environment \<Rightarrow> 's Worker \<Rightarrow> Packet \<Rightarrow> 's Worker \<times> (RadSecError + Packet)" where
  "exchange rp env w req =
     (let c = w_conn w;
          c = c\<lparr>stream := peer_turn (env_peer env (w_requests w)) (stream c)\<rparr>;
          (c, r) = request rp c req
      in (w\<lparr>w_conn := c, w_requests := Suc (w_requests w)\<rparr>, r))"

definition access_request ::
    "RadiusProto \<Rightarrow> Environment \<Rightarrow> 's Worker \<Rightarrow> Packet \<Rightarrow> 's Worker \<times> (AuthdError + Packet)" where
  "access_request rp env w req = (let (w, r) = exchange rp env w req in (w, map_err RadSec r))"

definition accounting ::
    "RadiusProto \<Rightarrow> Environment \<Rightarrow> 's Worker \<Rightarrow> Packet \<Rightarrow> 's Worker \<times> (AuthdError + unit)" where
  "accounting rp env w req =
     then_do (let (w, r) = exchange rp env w req in (w, map_err RadSec r)) (\<lambda>_ w. (w, Inr ()))"

record PortSetup =
  setup_port :: string
  switch_mac :: MacAddr
  pae_cfg :: PaeConfig
  setup_timers :: Timers
  setup_secret :: bytes
  setup_ctx :: RequestContext

text \<open>The boundaries of a port, over an enforcer and the display of its errors.\<close>

definition worker_deps ::
    "RadiusProto \<Rightarrow> Environment \<Rightarrow> ('s, 'e) Enforcer \<Rightarrow> ('e \<Rightarrow> string) \<Rightarrow> EapolSocket \<Rightarrow> PortSetup
       \<Rightarrow> 's Worker Deps" where
  "worker_deps rp env E to_str sock ps =
     \<lparr>dep_send_eap = (\<lambda>w. send_eap env \<lparr>sup_sock = sock, sup_src = switch_mac ps\<rparr> (elapse env E w)),
      dep_access_request = (\<lambda>w. access_request rp env (elapse env E w)),
      dep_accounting = (\<lambda>w. accounting rp env (elapse env E w)),
      dep_apply = (\<lambda>w p t a.
        let w = elapse env E w;
            (s, r) = enforcer_apply E (w_enforcer w) p t a
        in (w\<lparr>w_enforcer := s\<rparr>, map_err to_str r)),
      dep_arm = (\<lambda>w m k d. let w = elapse env E w in w\<lparr>w_sched := scheduler_arm (w_sched w) m k d\<rparr>),
      dep_cancel = (\<lambda>w m k. let w = elapse env E w in w\<lparr>w_sched := scheduler_cancel (w_sched w) m k\<rparr>),
      dep_cancel_all = (\<lambda>w m. let w = elapse env E w in w\<lparr>w_sched := scheduler_cancel_all (w_sched w) m\<rparr>),
      dep_random = (\<lambda>w. (w\<lparr>w_randoms := Suc (w_randoms w)\<rparr>, env_random env (w_randoms w))),
      dep_timers = setup_timers ps,
      dep_secret = setup_secret ps\<rparr>"

section \<open>The loop\<close>

text \<open>The event of a decoded frame; \<open>None\<close> is a frame that is ignored.\<close>

definition frame_event :: "EapolPdu \<Rightarrow> Event option" where
  "frame_event p =
     (case packet_type p of
        PacketType.Start \<Rightarrow> Some EapolStart
      | PacketType.Logoff \<Rightarrow> Some EapolLogoff
      | PacketType.Eap \<Rightarrow>
          (case eap_decode (body p) of
             Inl _ \<Rightarrow> None
           | Inr eap \<Rightarrow>
               Some (EapFromSupplicant
                 \<lparr>in_code = eap_code eap, in_identifier = eap_identifier eap, in_eap_type = eap_type eap,
                  in_packet = body p\<rparr>))
      | _ \<Rightarrow> None)"

definition dispatch_frame ::
    "RadiusProto \<Rightarrow> 'w Deps \<Rightarrow> bytes \<Rightarrow> 'w port_state \<Rightarrow> 'w port_state \<times> (AuthdError + unit)" where
  "dispatch_frame rp D bs st =
     (case decode_frame bs of
        Inl _ \<Rightarrow> (st, Inr ())
      | Inr frame \<Rightarrow>
          (case frame_event (pdu frame) of
             None \<Rightarrow> (st, Inr ())
           | Some event \<Rightarrow> handle_event rp D (src (ethernet frame)) event st))"

text \<open>
  What may happen at the \<open>select!\<close>: the socket is polled (a poll that does not finish
  loses nothing), a sleeping timer task wakes up, or the channel is received from.
\<close>

datatype worker_input = FromSocket "bytes attempt list" | Wake nat | FromChannel

definition pop_channel :: "'s Worker \<Rightarrow> 's Worker" where
  "pop_channel w = w\<lparr>w_sched := (w_sched w)\<lparr>channel := tl (channel (w_sched w))\<rparr>\<rparr>"

fun loop_turn ::
    "RadiusProto \<Rightarrow> 's Worker Deps \<Rightarrow> worker_input \<Rightarrow> 's Worker port_state
       \<Rightarrow> 's Worker port_state \<times> (AuthdError + unit)" where
  "loop_turn rp D (FromSocket attempts) st =
     (case eapol_recv attempts of
        None \<Rightarrow> (st, Inr ())
      | Some (Inl e) \<Rightarrow> (st, Inl (Eapol e))
      | Some (Inr bs) \<Rightarrow> dispatch_frame rp D bs st)"
| "loop_turn rp D (Wake n) (pae, orc, w) = ((pae, orc, fire n w), Inr ())"
| "loop_turn rp D FromChannel (pae, orc, w) =
     (case channel (w_sched w) of
        [] \<Rightarrow> ((pae, orc, w), Inr ())
      | (m, event) # _ \<Rightarrow> handle_event rp D m event (pae, orc, pop_channel w))"

fun worker_loop ::
    "RadiusProto \<Rightarrow> 's Worker Deps \<Rightarrow> worker_input list \<Rightarrow> 's Worker port_state
       \<Rightarrow> 's Worker port_state \<times> (AuthdError + unit)" where
  "worker_loop rp D [] st = (st, Inr ())"
| "worker_loop rp D (i # is) st = then_do (loop_turn rp D i st) (\<lambda>_ st. worker_loop rp D is st)"

text \<open>
  \<open>run_port\<close> up to the point where the given inputs are used up: \<open>Inr\<close> says that the
  loop is still running then, \<open>Inl\<close> that it has ended with that error.
\<close>

definition worker_start :: "'s \<Rightarrow> RadSecConnection \<Rightarrow> 's Worker" where
  "worker_start s conn =
     \<lparr>w_enforcer = s, w_conn = conn, w_sched = scheduler_new, w_sent = [], w_tx = 0, w_requests = 0,
      w_randoms = 0, w_moment = 0\<rparr>"

definition run_port ::
    "RadiusProto \<Rightarrow> Environment \<Rightarrow> ('s, 'e) Enforcer \<Rightarrow> ('e \<Rightarrow> string) \<Rightarrow> PortSetup \<Rightarrow> 's
       \<Rightarrow> RadSecConnection \<Rightarrow> worker_input list \<Rightarrow> 's Worker port_state \<times> (AuthdError + unit)" where
  "run_port rp env E to_str ps s conn is =
     (let (s, trap) = ensure_eapol_trap E s (setup_port ps);
          pae = port_new (pae_cfg ps);
          orc = orchestrator_new (setup_port ps) (setup_ctx ps);
          st = (pae, orc, worker_start s conn)
      in case trap of
           Inl e \<Rightarrow> (st, Inl (Enforce (to_str e)))
         | Inr _ \<Rightarrow>
             (case eapol_open (env_kernel env) (setup_port ps) of
                Inl e \<Rightarrow> (st, Inl (Eapol e))
              | Inr sock \<Rightarrow>
                  (let D = worker_deps rp env E to_str sock ps
                   in then_do (let (d, r) = apply_effects rp D (port_enable pae) (snd st) in ((pae, d), r)) (\<lambda>_ st.
                        worker_loop rp D is st))))"

lemma fire_simps [simp]:
  "w_enforcer (fire n w) = w_enforcer w" "w_conn (fire n w) = w_conn w" "w_sent (fire n w) = w_sent w"
  "w_tx (fire n w) = w_tx w" "w_requests (fire n w) = w_requests w" "w_randoms (fire n w) = w_randoms w"
  "w_moment (fire n w) = w_moment w" "w_sched (fire n w) = scheduler_fire n (w_sched w)"
  by (simp_all add: fire_def)

lemma fires_simps [simp]:
  "w_enforcer (foldl (\<lambda>w i. fire i w) w ns) = w_enforcer w" "w_conn (foldl (\<lambda>w i. fire i w) w ns) = w_conn w"
  "w_sent (foldl (\<lambda>w i. fire i w) w ns) = w_sent w" "w_tx (foldl (\<lambda>w i. fire i w) w ns) = w_tx w"
  "w_requests (foldl (\<lambda>w i. fire i w) w ns) = w_requests w" "w_randoms (foldl (\<lambda>w i. fire i w) w ns) = w_randoms w"
  "w_moment (foldl (\<lambda>w i. fire i w) w ns) = w_moment w"
  by (induction ns arbitrary: w) simp_all

lemma elapse_simps [simp]:
  "w_enforcer (elapse env E w) = foldl (perform E) (w_enforcer w) (env_others env (w_moment w))"
  "w_conn (elapse env E w) = w_conn w" "w_sent (elapse env E w) = w_sent w" "w_tx (elapse env E w) = w_tx w"
  "w_requests (elapse env E w) = w_requests w" "w_randoms (elapse env E w) = w_randoms w"
  "w_moment (elapse env E w) = Suc (w_moment w)"
  by (simp_all add: elapse_def Let_def)

lemma tx_answered: "\<exists>r. eapol_send K (\<lambda>f bs a. tx_attempts (tx f bs a)) sock frame = Some r"
proof -
  have "send_loop (replicate n WouldBlock @ xs) = send_loop xs" for n xs by (induction n) simp_all
  then have "\<exists>r. send_loop (tx_attempts a) = Some r" for a by (cases a) simp_all
  then show ?thesis by (simp add: eapol_send_def)
qed

end
