(* ===== verification/Authd_Run.thy ===== *)
theory Authd_Run
  imports Authd_Worker
begin

text \<open>
  Invariants of a whole run of \<open>run_port\<close>, over every environment and every
  interleaving of inputs: each waiting session has a live timer task or a queued
  expiry, and no session is left waiting for the server or in the critical VLAN
  between two inputs. Each is an instance of the locale \<open>loop_invariant\<close>.
\<close>

section \<open>Invariants of the worker loop\<close>

locale loop_invariant =
  fixes rp :: RadiusProto
    and D :: "'s Worker Deps"
    and I :: "'s Worker port_state \<Rightarrow> bool"
  assumes frame_keeps:
    "I (pae, orc, w) \<Longrightarrow> frame_event p = Some e \<Longrightarrow> handle_event rp D m e (pae, orc, w) = (st', Inr ()) \<Longrightarrow> I st'"
    and fire_keeps: "I (pae, orc, w) \<Longrightarrow> I (pae, orc, fire n w)"
    and channel_keeps:
    "I (pae, orc, w) \<Longrightarrow> channel (w_sched w) = (m, e) # q \<Longrightarrow>
       handle_event rp D m e (pae, orc, pop_channel w) = (st', Inr ()) \<Longrightarrow> I st'"
begin

lemma turn_keeps:
  assumes "I st" "loop_turn rp D i st = (st', Inr ())"
  shows "I st'"
proof -
  obtain pae orc w where st: "st = (pae, orc, w)" by (cases st)
  show ?thesis
  proof (cases i)
    case (FromSocket attempts)
    with assms show ?thesis
      by (auto simp: st dispatch_frame_def split: option.splits sum.splits intro: frame_keeps)
  next
    case (Wake n)
    with assms show ?thesis by (auto simp: st intro: fire_keeps)
  next
    case FromChannel
    with assms show ?thesis by (auto simp: st split: list.splits intro: channel_keeps)
  qed
qed

lemma loop_keeps:
  assumes "I st" "worker_loop rp D is st = (st', Inr ())"
  shows "I st'"
  using assms
proof (induction "is" arbitrary: st)
  case (Cons i "is")
  from Cons.prems(2) obtain st1 where "loop_turn rp D i st = (st1, Inr ())"
    "worker_loop rp D is st1 = (st', Inr ())" by (auto simp: then_do_ok_iff)
  with turn_keeps [OF Cons.prems(1)] Cons.IH show ?case by blast
qed simp

end

text \<open>A run that is still going has been through the trap, the socket and the closing of the port.\<close>

lemma run_port_running:
  assumes "run_port rp env E to_str ps s conn is = (st, Inr ())"
  obtains s1 d sock where
    "ensure_eapol_trap E s (setup_port ps) = (s1, Inr ())" "eapol_open (env_kernel env) (setup_port ps) = Inr sock"
    "apply_effects rp (worker_deps rp env E to_str sock ps) (port_enable (port_new (pae_cfg ps)))
       (orchestrator_new (setup_port ps) (setup_ctx ps), worker_start s1 conn) = (d, Inr ())"
    "worker_loop rp (worker_deps rp env E to_str sock ps) is (port_new (pae_cfg ps), d) = (st, Inr ())"
proof -
  obtain s1 r where t: "ensure_eapol_trap E s (setup_port ps) = (s1, r)" by fastforce
  with assms obtain sock where r: "r = Inr ()" and k: "eapol_open (env_kernel env) (setup_port ps) = Inr sock"
    by (cases r; cases "eapol_open (env_kernel env) (setup_port ps)") (auto simp: run_port_def)
  obtain d x where a: "apply_effects rp (worker_deps rp env E to_str sock ps) (port_enable (port_new (pae_cfg ps)))
      (orchestrator_new (setup_port ps) (setup_ctx ps), worker_start s1 conn) = (d, x)" by fastforce
  from assms t r k a have "x = Inr () \<and>
      worker_loop rp (worker_deps rp env E to_str sock ps) is (port_new (pae_cfg ps), d) = (st, Inr ())"
    by (cases x) (auto simp: run_port_def)
  with t r k a that show ?thesis by blast
qed

section \<open>What one effect touches\<close>

text \<open>A relation between worlds that the calls to the link, the server and the generator stay in.\<close>

definition calls_within :: "'w Deps \<Rightarrow> ('w \<Rightarrow> 'w \<Rightarrow> bool) \<Rightarrow> bool" where
  "calls_within D R \<longleftrightarrow>
     reflp R \<and> transp R \<and>
     (\<forall>w m eap. R w (fst (dep_send_eap D w m eap))) \<and>
     (\<forall>w req. R w (fst (dep_access_request D w req))) \<and>
     (\<forall>w req. R w (fst (dep_accounting D w req))) \<and>
     (\<forall>w. R w (fst (dep_random D w)))"

lemma calls_withinD:
  assumes "calls_within D R"
  shows "R w w" "R u v \<Longrightarrow> R v w \<Longrightarrow> R u w" "R w (fst (dep_send_eap D w m eap))"
    "R w (fst (dep_access_request D w req))" "R w (fst (dep_accounting D w req))" "R w (fst (dep_random D w))"
  using assms unfolding calls_within_def reflp_def transp_def by blast+

lemma round_trip_within:
  assumes "calls_within D R"
  shows "R (snd st) (snd (fst (round_trip rp D m built st)))"
proof (cases built)
  case (Inr req)
  then show ?thesis
    using calls_withinD [OF assms]
    by (cases "snd (dep_access_request D (snd st) req)")
      (simp_all add: round_trip_def then_do_def case_prod_unfold Let_def)
qed (use calls_withinD [OF assms] in \<open>simp add: round_trip_def\<close>)

lemma no_follow_state [simp]: "fst (no_follow r) = fst r"
  by (cases "snd r") (simp_all add: no_follow_def then_do_def)

lemma request_within:
  assumes "calls_within D R"
  shows "R (snd st) (snd (fst (to_auth_server rp D m eap st)))" "R (snd st) (snd (fst (start_mab rp D m st)))"
    "R (snd st) (snd (fst (send_accounting rp D m trigger st)))"
proof -
  note laws = calls_withinD [OF assms]
  have trip: "R w (snd (fst (round_trip rp D m built (orc, fst (dep_random D w)))))" for w built orc
    using laws(2) [OF laws(6) [of w]] round_trip_within [OF assms, of "(orc, fst (dep_random D w))"] by simp
  then show "R (snd st) (snd (fst (to_auth_server rp D m eap st)))" "R (snd st) (snd (fst (start_mab rp D m st)))"
    by (simp_all add: to_auth_server_def start_mab_def case_prod_unfold Let_def)
  show "R (snd st) (snd (fst (send_accounting rp D m trigger st)))"
    using laws(1,5) by (auto simp: send_accounting_def then_do_def case_prod_unfold Let_def split: sum.splits)
qed

lemma dispatch_within:
  assumes "calls_within D R"
    and "\<And>a. de_effect de \<noteq> SetAuthorization a"
    and "\<And>k. de_effect de \<noteq> ArmTimer k" "\<And>k. de_effect de \<noteq> CancelTimer k" "de_effect de \<noteq> CancelAllTimers"
  shows "R (snd st) (snd (fst (dispatch rp D de st)))"
  using assms(2-) calls_withinD(1,3) [OF assms(1)] request_within [OF assms(1)]
  by (cases "de_effect de") (auto simp: dispatch_def case_prod_unfold Let_def split: option.splits)

lemma dispatch_orch_port: "orch_port (fst (fst (dispatch rp D de st))) = orch_port (fst st)"
proof -
  have put: "orch_port (put_session m s orc) = orch_port orc" for m s orc by (simp add: put_session_def)
  have trip: "orch_port (fst (fst (round_trip rp D m built st))) = orch_port (fst st)" for m built and st :: "'a daemon"
    by (cases built) (auto simp: round_trip_def then_do_def put case_prod_unfold Let_def split: sum.splits)
  have acct: "orch_port (fst (acct_id_for m orc)) = orch_port orc" for m orc
    by (simp add: acct_id_for_def put Let_def split: option.splits)
  show ?thesis
    by (cases "de_effect de")
      (auto simp: dispatch_def to_auth_server_def start_mab_def send_accounting_def set_authorization_def then_do_def
        case_prod_unfold Let_def put trip acct split: option.splits sum.splits PortAuthorization.splits)
qed

text \<open>The enforcer has only seen calls of other ports.\<close>

definition others_only :: "Environment \<Rightarrow> ('s, 'e) Enforcer \<Rightarrow> 's \<Rightarrow> 's \<Rightarrow> bool" where
  "others_only env E s s' \<longleftrightarrow>
     (\<exists>cs. set cs \<subseteq> (\<Union>n. set (env_others env n)) \<and> s' = foldl (perform E) s cs)"

lemma others_only_refl: "others_only env E s s"
  unfolding others_only_def by (intro exI [of _ "[]"]) simp

lemma others_only_trans:
  assumes "others_only env E s s1" "others_only env E s1 s2"
  shows "others_only env E s s2"
proof -
  from assms obtain cs ds where "set cs \<subseteq> (\<Union>n. set (env_others env n))" "s1 = foldl (perform E) s cs"
    "set ds \<subseteq> (\<Union>n. set (env_others env n))" "s2 = foldl (perform E) s1 ds" by (auto simp: others_only_def)
  then show ?thesis unfolding others_only_def by (intro exI [of _ "cs @ ds"]) simp
qed

lemma elapse_others: "others_only env E (w_enforcer w) (w_enforcer (elapse env E w))"
  unfolding others_only_def by (intro exI [of _ "env_others env (w_moment w)"]) auto

lemma call_others:
  "w_enforcer (fst (send_eap env link w m eap)) = w_enforcer w"
  "w_enforcer (fst (access_request rp env w req)) = w_enforcer w"
  "w_enforcer (fst (accounting rp env w req)) = w_enforcer w"
  by (simp_all add: send_eap_def access_request_def accounting_def exchange_def then_do_def case_prod_unfold Let_def
      split: sum.splits option.splits)

lemma worker_calls_others:
  "calls_within (worker_deps rp env E to_str sock ps) (\<lambda>w w'. others_only env E (w_enforcer w) (w_enforcer w'))"
  unfolding calls_within_def
  by (auto simp: worker_deps_def call_others others_only_refl elapse_others intro!: reflpI transpI
      intro: others_only_trans simp del: elapse_simps(1))

section \<open>Timers of waiting sessions\<close>

definition waits_ok :: "PaeConfig \<Rightarrow> PortSession \<Rightarrow> TimerKind set \<Rightarrow> bool" where
  "waits_ok c s T \<longleftrightarrow> (\<forall>k. awaited c (state s) = Some k \<longrightarrow> k \<in> T)"

lemma awaited_not_session_timeout: "awaited c st \<noteq> Some TimerKind.SessionTimeout"
  by (induction c st rule: awaited.induct) simp_all

lemma waits_ok_mono:
  "waits_ok c s T \<Longrightarrow> (\<And>k. k \<in> T \<Longrightarrow> k \<noteq> TimerKind.SessionTimeout \<Longrightarrow> k \<in> T') \<Longrightarrow> waits_ok c s T'"
  unfolding waits_ok_def using awaited_not_session_timeout [of c "state s"] by blast

lemma armed_timers_mem: "(k \<in> T \<longleftrightarrow> k \<in> T') \<Longrightarrow> k \<in> foldl armed_timers T fx \<longleftrightarrow> k \<in> foldl armed_timers T' fx"
proof (induction fx arbitrary: T T')
  case (Cons x fx)
  have "k \<in> armed_timers T x \<longleftrightarrow> k \<in> armed_timers T' x" using Cons.prems by (cases x) auto
  from Cons.IH [OF this] show ?case by (simp only: foldl_Cons)
qed simp

lemma armed_timers_mono: "T \<subseteq> T' \<Longrightarrow> foldl armed_timers T fx \<subseteq> foldl armed_timers T' fx"
proof (induction fx arbitrary: T T')
  case (Cons x fx)
  have "armed_timers T x \<subseteq> armed_timers T' x" using Cons.prems by (cases x) auto
  then show ?case using Cons.IH by simp
qed simp

lemma armed_timers_Un: "foldl armed_timers (T \<union> Q) fx \<subseteq> foldl armed_timers T fx \<union> Q"
proof (induction fx arbitrary: T)
  case (Cons x fx)
  have "armed_timers (T \<union> Q) x \<subseteq> armed_timers T x \<union> Q" by (cases x) auto
  from armed_timers_mono [OF this, of fx] Cons.IH [of "armed_timers T x"] show ?case by simp
qed simp

lemma waits_step:
  assumes "state s \<noteq> State.New" "waits_ok c s T"
  shows "waits_ok c (fst (step s e c)) (foldl armed_timers (expire e T) (snd (step s e c)))"
proof -
  define T' where "T' = T \<union> {k. e = Timer k}"
  have "timers_ok c (s, T')" "expirable (s, T') e"
    using assms by (auto simp: timers_ok_def waits_ok_def expirable_def T'_def)
  from step_armed [OF this] have "waits_ok c (fst (step s e c)) (foldl armed_timers (expire e T') (snd (step s e c)))"
    by (simp add: armed_after_def timers_ok_def waits_ok_def)
  moreover have "expire e T' = expire e T" by (cases e) (auto simp: T'_def)
  ultimately show ?thesis by simp
qed

lemma waits_enable:
  "waits_ok c (fst (step s Enable c)) (foldl armed_timers T (snd (step s Enable c)))"
  using armed_shared(11) [of c T s] by (simp add: armed_after_def timers_ok_def waits_ok_def step_def)

lemma waits_admit:
  "waits_ok c (fst (run_session c (session_new m) [Enable, e]))
     (foldl armed_timers T (snd (run_session c (session_new m) [Enable, e])))"
proof -
  obtain s1 fx where s1: "step (session_new m) Enable c = (s1, fx)" by fastforce
  have "state s1 \<noteq> State.New" using s1 by (auto simp: step_def step_defs)
  moreover have "waits_ok c s1 (foldl armed_timers T fx)"
    using waits_enable [of c "session_new m" T] by (simp add: s1)
  ultimately have "waits_ok c (fst (step s1 e c))
      (foldl armed_timers (expire e (foldl armed_timers T fx)) (snd (step s1 e c)))"
    by (rule waits_step)
  then have "waits_ok c (fst (step s1 e c)) (foldl armed_timers (foldl armed_timers T fx) (snd (step s1 e c)))"
  proof (rule waits_ok_mono)
    have "expire e X \<subseteq> X" for X by (cases e) auto
    then show "k \<in> foldl armed_timers (foldl armed_timers T fx) (snd (step s1 e c))"
      if "k \<in> foldl armed_timers (expire e (foldl armed_timers T fx)) (snd (step s1 e c))" for k
      using that armed_timers_mono by blast
  qed
  then show ?thesis by (simp add: s1 case_prod_unfold Let_def)
qed

definition sessions_wait :: "(MacAddr \<Rightarrow> TimerKind set) \<Rightarrow> PortPae \<Rightarrow> bool" where
  "sessions_wait A p \<longleftrightarrow>
     distinct (map mac (sessions p)) \<and>
     (\<forall>s \<in> set (sessions p). state s \<noteq> State.New \<and> waits_ok (cfg p) s (A (mac s)))"

lemma handle_waits:
  assumes p: "sessions_wait A p"
    and A': "\<And>m' k. k \<noteq> TimerKind.SessionTimeout \<Longrightarrow>
      k \<in> (if m' = m then foldl armed_timers (expire e (A m)) (map de_effect (snd (handle p m e))) else A m') \<Longrightarrow>
      k \<in> A' m'"
  shows "sessions_wait A' (fst (handle p m e))"
proof -
  have other: "waits_ok (cfg p) s (A' (mac s))" if "s \<in> set (sessions p)" "mac s \<noteq> m" for s
  proof (rule waits_ok_mono)
    show "waits_ok (cfg p) s (A (mac s))" using p that by (simp add: sessions_wait_def)
  qed (use A' that in auto)
  have own: "waits_ok (cfg p) s (A' m)"
    if "waits_ok (cfg p) s (foldl armed_timers (expire e (A m)) (map de_effect (snd (handle p m e))))" for s
    using that by (rule waits_ok_mono) (use A' [of _ m] in simp)
  show ?thesis
  proof (cases "step_first m e (cfg p) (sessions p)")
    case None
    then have fresh: "m \<notin> mac ` set (sessions p)" by (simp add: step_first_None)
    show ?thesis
    proof (cases "can_admit p")
      case True
      define out where "out = (if e = Enable \<or> e = EapolStart then step (session_new m) Enable (cfg p)
        else run_session (cfg p) (session_new m) [Enable, e])"
      have h: "handle p m e = (prune (p\<lparr>sessions := sessions p @ [fst out]\<rparr>), decorate (host_mode (cfg p)) m (snd out))"
        using fresh True by (simp add: handle_unknown admit_session out_def Let_def)
      have "map de_effect (snd (handle p m e)) = snd out" by (simp add: h decorate_effects)
      moreover have "waits_ok (cfg p) (fst out) (foldl armed_timers T (snd out))" for T
        unfolding out_def using waits_enable waits_admit by simp
      ultimately have "waits_ok (cfg p) (fst out) (A' m)" using own by simp
      moreover have "mac (fst out) = m" by (simp add: out_def session_new_def Let_def case_prod_unfold)
      moreover have "\<forall>s \<in> set (sessions p). waits_ok (cfg p) s (A' (mac s))" using other fresh by blast
      ultimately show ?thesis
        using p fresh by (auto simp: h sessions_wait_def prune_def distinct_map_filter)
    next
      case False
      moreover have "\<forall>s \<in> set (sessions p). waits_ok (cfg p) s (A' (mac s))" using other fresh by blast
      ultimately show ?thesis
        using fresh p by (auto simp: handle_unknown sessions_wait_def prune_def distinct_map_filter)
    qed
  next
    case (Some r)
    obtain ss fx where r: "r = (ss, fx)" by fastforce
    from step_first_Some [OF Some [unfolded r]] obtain xs s ys where
      ss: "sessions p = xs @ s # ys" "mac s = m" "ss = xs @ fst (step s e (cfg p)) # ys" "fx = snd (step s e (cfg p))"
      by blast
    have h: "handle p m e = (prune (p\<lparr>sessions := ss\<rparr>), decorate (host_mode (cfg p)) m fx)"
      by (rule handle_known [OF Some [unfolded r]])
    have s: "state s \<noteq> State.New" "waits_ok (cfg p) s (A m)" using p ss by (auto simp: sessions_wait_def)
    have "waits_ok (cfg p) (fst (step s e (cfg p))) (A' m)"
      using waits_step [OF s, of e] own by (simp add: h decorate_effects ss)
    moreover have "\<forall>s' \<in> set xs \<union> set ys. waits_ok (cfg p) s' (A' (mac s'))"
    proof
      fix s'
      assume s': "s' \<in> set xs \<union> set ys"
      then have "mac s' \<noteq> m" using p ss by (auto simp: sessions_wait_def image_iff)
      with s' other ss show "waits_ok (cfg p) s' (A' (mac s'))" by simp
    qed
    ultimately show ?thesis
      using p ss by (auto simp: h sessions_wait_def prune_def distinct_map_filter)
  qed
qed

section \<open>The timers of the daemon\<close>

text \<open>The timers of a MAC that will still be delivered: live tasks and queued expiries.\<close>

definition outstanding_timers :: "'s Worker \<Rightarrow> MacAddr \<Rightarrow> TimerKind set" where
  "outstanding_timers w m = live_timers (w_sched w) m \<union> {k. (m, Timer k) \<in> set (channel (w_sched w))}"

lemma worker_boundaries:
  "dep_arm (worker_deps rp env E to_str sock ps) w m k d =
     (elapse env E w)\<lparr>w_sched := scheduler_arm (w_sched (elapse env E w)) m k d\<rparr>"
  "dep_cancel (worker_deps rp env E to_str sock ps) w m k =
     (elapse env E w)\<lparr>w_sched := scheduler_cancel (w_sched (elapse env E w)) m k\<rparr>"
  "dep_cancel_all (worker_deps rp env E to_str sock ps) w m =
     (elapse env E w)\<lparr>w_sched := scheduler_cancel_all (w_sched (elapse env E w)) m\<rparr>"
  "dep_apply (worker_deps rp env E to_str sock ps) w p t a =
     ((elapse env E w)\<lparr>w_enforcer := fst (enforcer_apply E (w_enforcer (elapse env E w)) p t a)\<rparr>,
      map_err to_str (snd (enforcer_apply E (w_enforcer (elapse env E w)) p t a)))"
  by (simp_all add: worker_deps_def case_prod_unfold Let_def)

lemma scheduler_cancel_all_channel [simp]: "channel (scheduler_cancel_all s m) = channel s"
proof -
  have "channel (foldl (\<lambda>s k. scheduler_cancel s m k) s ks) = channel s" for ks
    by (induction ks arbitrary: s) simp_all
  then show ?thesis by (simp add: scheduler_cancel_all_def)
qed

lemma timer_duration_known: "k \<noteq> TimerKind.SessionTimeout \<Longrightarrow> timer_duration orc m k t \<noteq> None"
  by (cases k) (simp_all add: timer_duration_def)

definition only_timers :: "'s Worker \<Rightarrow> bool" where
  "only_timers w \<longleftrightarrow> (\<forall>m e. (m, e) \<in> set (channel (w_sched w)) \<longrightarrow> (\<exists>k. e = Timer k))"

lemma fire_wf:
  assumes wf: "scheduler_wf s"
  shows "scheduler_wf (scheduler_fire n s)"
proof (cases "tasks s n")
  case (Some task)
  obtain m k d where "task = (m, k, d)" by (cases task)
  with Some have fired: "scheduler_fire n s =
      s\<lparr>tasks := (tasks s)(n := None), channel := channel s @ [(m, Timer k)]\<rparr>"
    by (simp add: scheduler_fire_def)
  show ?thesis
    unfolding fired
  proof (rule scheduler_wfI)
    fix n' m' k' d'
    assume "tasks (s\<lparr>tasks := (tasks s)(n := None), channel := channel s @ [(m, Timer k)]\<rparr>) n' = Some (m', k', d')"
    then show "handles (s\<lparr>tasks := (tasks s)(n := None), channel := channel s @ [(m, Timer k)]\<rparr>) (m', k') = Some n'"
      using scheduler_wfD(1) [OF wf, of n' m' k' d'] by (simp split: if_splits)
  qed (use scheduler_wfD(2,3) [OF wf] in simp_all)
qed (simp add: scheduler_fire_def wf)

lemma fire_outstanding: "outstanding_timers w m \<subseteq> outstanding_timers (fire n w) m"
proof
  fix k
  assume "k \<in> outstanding_timers w m"
  then consider n' d where "tasks (w_sched w) n' = Some (m, k, d)" | "(m, Timer k) \<in> set (channel (w_sched w))"
    by (auto simp: outstanding_timers_def live_timers_def)
  then show "k \<in> outstanding_timers (fire n w) m"
  proof cases
    case 1
    then show ?thesis
      by (cases "n' = n")
        (auto simp: outstanding_timers_def fire_def scheduler_fire_def live_timers_def split: option.splits)
  qed (auto simp: outstanding_timers_def fire_def scheduler_fire_def split: option.splits)
qed

text \<open>
  After effects for \<open>m\<close>, every timer but \<open>Session-Timeout\<close> that the PAE has armed is outstanding,
  whichever tasks have woken up in between, and the timers of other MACs are as well.
\<close>

definition timers_follow :: "'s Worker \<Rightarrow> 's Worker \<Rightarrow> MacAddr \<Rightarrow> Effect list \<Rightarrow> bool" where
  "timers_follow w w' m fx \<longleftrightarrow>
     scheduler_wf (w_sched w') \<and> only_timers w' \<and>
     (\<forall>m' k. k \<noteq> TimerKind.SessionTimeout \<longrightarrow>
       k \<in> (if m' = m then foldl armed_timers (outstanding_timers w m) fx else outstanding_timers w m') \<longrightarrow>
       k \<in> outstanding_timers w' m')"

lemma timers_followD:
  assumes "timers_follow w w' m fx"
  shows "scheduler_wf (w_sched w')" "only_timers w'"
    and "k \<noteq> TimerKind.SessionTimeout \<Longrightarrow>
      k \<in> (if m' = m then foldl armed_timers (outstanding_timers w m) fx else outstanding_timers w m') \<Longrightarrow>
      k \<in> outstanding_timers w' m'"
  using assms unfolding timers_follow_def by blast+

lemma timers_followI:
  assumes "scheduler_wf (w_sched w')" "only_timers w'"
    and "\<And>k. k \<noteq> TimerKind.SessionTimeout \<Longrightarrow> k \<in> foldl armed_timers (outstanding_timers w m) fx \<Longrightarrow> k \<in> outstanding_timers w' m"
    and "\<And>m'. m' \<noteq> m \<Longrightarrow> outstanding_timers w m' \<subseteq> outstanding_timers w' m'"
  shows "timers_follow w w' m fx"
  using assms unfolding timers_follow_def by (metis subsetD)

lemma timers_follow_refl: "scheduler_wf (w_sched w) \<Longrightarrow> only_timers w \<Longrightarrow> timers_follow w w m []"
  by (rule timers_followI) simp_all

lemma timers_follow_trans:
  assumes "timers_follow w w1 m fx" "timers_follow w1 w2 m fy"
  shows "timers_follow w w2 m (fx @ fy)"
  unfolding timers_follow_def
proof (intro conjI allI impI)
  fix m' k
  assume k: "k \<noteq> TimerKind.SessionTimeout"
    and mem: "k \<in> (if m' = m then foldl armed_timers (outstanding_timers w m) (fx @ fy) else outstanding_timers w m')"
  show "k \<in> outstanding_timers w2 m'"
  proof (cases "m' = m")
    case True
    let ?T = "foldl armed_timers (outstanding_timers w m) fx"
    have "k \<in> ?T \<longrightarrow> k \<in> outstanding_timers w1 m" using timers_followD(3) [OF assms(1) k, of m] by simp
    then have "k \<in> foldl armed_timers (outstanding_timers w1 m) fy"
      using mem True armed_timers_mem [of k ?T "?T \<inter> outstanding_timers w1 m" fy]
        armed_timers_mono [of "?T \<inter> outstanding_timers w1 m" "outstanding_timers w1 m" fy] by auto
    then show ?thesis using timers_followD(3) [OF assms(2) k, of m] True by simp
  next
    case False
    then show ?thesis
      using mem timers_followD(3) [OF assms(1) k, of m'] timers_followD(3) [OF assms(2) k, of m'] by simp
  qed
qed (use timers_followD(1,2) [OF assms(2)] in simp_all)

text \<open>What happens elsewhere takes no outstanding timer away.\<close>

lemma fire_follow:
  assumes "scheduler_wf (w_sched w)" "only_timers w"
  shows "timers_follow w (fire n w) m []"
proof (rule timers_followI)
  show "scheduler_wf (w_sched (fire n w))" using fire_wf [OF assms(1)] by simp
  show "only_timers (fire n w)"
    using assms(2) by (auto simp: only_timers_def scheduler_fire_def split: option.splits)
  show "k \<in> outstanding_timers (fire n w) m" if "k \<in> foldl armed_timers (outstanding_timers w m) []" for k
    using that fire_outstanding [of w m n] by auto
qed (rule fire_outstanding)

lemma fires_follow:
  assumes "scheduler_wf (w_sched w)" "only_timers w"
  shows "timers_follow w (foldl (\<lambda>w i. fire i w) w ns) m []"
  using assms
proof (induction ns arbitrary: w)
  case (Cons n ns)
  have one: "timers_follow w (fire n w) m []" by (rule fire_follow [OF Cons.prems])
  from timers_follow_trans [OF one Cons.IH [OF timers_followD(1,2) [OF one]]] show ?case by simp
qed (simp add: timers_follow_refl)

lemma elapse_follow:
  assumes "scheduler_wf (w_sched w)" "only_timers w"
  shows "timers_follow w (elapse env E w) m []"
proof -
  let ?w = "w\<lparr>w_moment := Suc (w_moment w), w_enforcer := foldl (perform E) (w_enforcer w) (env_others env (w_moment w))\<rparr>"
  have "timers_follow ?w (foldl (\<lambda>w i. fire i w) ?w (env_wakes env (w_moment w))) m []"
    by (rule fires_follow) (use assms in \<open>simp_all add: only_timers_def\<close>)
  moreover have "outstanding_timers ?w = outstanding_timers w" by (simp add: fun_eq_iff outstanding_timers_def)
  moreover from this have "timers_follow ?w v m [] \<longleftrightarrow> timers_follow w v m []" for v by (simp only: timers_follow_def)
  ultimately show ?thesis by (simp add: elapse_def Let_def)
qed

lemma sched_follow:
  assumes "scheduler_wf (w_sched w')" "only_timers w" "channel (w_sched w') = channel (w_sched w)"
    and "live_timers (w_sched w') = (live_timers (w_sched w))(m := armed_timers (live_timers (w_sched w) m) x)"
  shows "timers_follow w w' m [x]"
proof (rule timers_followI)
  fix k
  assume "k \<in> foldl armed_timers (outstanding_timers w m) [x]"
  then show "k \<in> outstanding_timers w' m"
    using assms(3,4) armed_timers_Un [of "live_timers (w_sched w) m" "{k. (m, Timer k) \<in> set (channel (w_sched w))}" "[x]"]
    by (auto simp: outstanding_timers_def)
qed (use assms in \<open>auto simp: only_timers_def outstanding_timers_def\<close>)

text \<open>The calls to the link, the server and the generator.\<close>

definition waits_kept :: "'s Worker \<Rightarrow> 's Worker \<Rightarrow> bool" where
  "waits_kept w w' \<longleftrightarrow> (scheduler_wf (w_sched w) \<and> only_timers w \<longrightarrow> (\<forall>m. timers_follow w w' m []))"

lemma call_sched:
  "w_sched (fst (send_eap env link w m eap)) = w_sched w"
  "w_sched (fst (access_request rp env w req)) = w_sched w"
  "w_sched (fst (accounting rp env w req)) = w_sched w"
  by (simp_all add: send_eap_def access_request_def accounting_def exchange_def then_do_def case_prod_unfold Let_def
      split: sum.splits option.splits)

lemma same_sched_follow: "w_sched w2 = w_sched w1 \<Longrightarrow> timers_follow w w2 m fx \<longleftrightarrow> timers_follow w w1 m fx"
  by (simp add: timers_follow_def only_timers_def outstanding_timers_def)

lemma worker_calls_wait: "calls_within (worker_deps rp env E to_str sock ps) waits_kept"
proof -
  have "transp (waits_kept :: 's Worker \<Rightarrow> 's Worker \<Rightarrow> bool)"
    using timers_follow_trans [where fx = "[]" and fy = "[]", unfolded append_Nil] timers_followD(1,2)
    unfolding transp_def waits_kept_def by blast
  then show ?thesis
    unfolding calls_within_def
    by (auto simp: worker_deps_def waits_kept_def timers_follow_refl elapse_follow
        same_sched_follow [OF call_sched(1)] same_sched_follow [OF call_sched(2)] same_sched_follow [OF call_sched(3)]
        same_sched_follow [of "_\<lparr>w_randoms := _\<rparr>"] intro!: reflpI)
qed

lemma dispatch_timers:
  assumes d: "dispatch rp (worker_deps rp env E to_str sock ps) de (orc, w) = ((orc', w'), r)"
    and wf: "scheduler_wf (w_sched w)" "only_timers w"
    and de: "de_mac de = Some m \<or> is_set_authorization (de_effect de)"
  shows "timers_follow w w' m [de_effect de]"
proof -
  let ?D = "worker_deps rp env E to_str sock ps" and ?w = "elapse env E w"
  have el: "timers_follow w ?w m []" by (rule elapse_follow [OF wf])
  note el_wf = timers_followD(1,2) [OF el]
  have idle: "timers_follow w v m [de_effect de]" if "timers_follow w v m []" "\<And>T. armed_timers T (de_effect de) = T" for v
    using that(1) unfolding timers_follow_def foldl_Cons foldl_Nil that(2) .
  have after: "timers_follow w v m [de_effect de]" if "timers_follow ?w v m [de_effect de]" for v
    using timers_follow_trans [OF el that] by simp
  consider (arm) k where "de_effect de = ArmTimer k" | (cancel) k where "de_effect de = CancelTimer k"
    | (all) "de_effect de = CancelAllTimers" | (set) a where "de_effect de = SetAuthorization a"
    | (call) "\<And>T. armed_timers T (de_effect de) = T" "\<And>a. de_effect de \<noteq> SetAuthorization a"
      "\<And>k. de_effect de \<noteq> ArmTimer k" "\<And>k. de_effect de \<noteq> CancelTimer k" "de_effect de \<noteq> CancelAllTimers"
    by (cases "de_effect de") auto
  then show ?thesis
  proof cases
    case arm
    with de have m: "de_mac de = Some m" by simp
    show ?thesis
    proof (cases "timer_duration orc m k (dep_timers ?D)")
      case None
      then have "k = TimerKind.SessionTimeout" using timer_duration_known by blast
      moreover have "w' = w" using d None by (simp add: dispatch_def arm m)
      ultimately show ?thesis using wf arm by (intro timers_followI) simp_all
    next
      case (Some dur)
      then have "w' = ?w\<lparr>w_sched := scheduler_arm (w_sched ?w) m k dur\<rparr>"
        using d by (simp add: dispatch_def arm m worker_boundaries)
      with el_wf show ?thesis
        by (intro after sched_follow) (simp_all add: arm tokio.arm_wf tokio.arm_armed)
    qed
  next
    case cancel
    with de d have "w' = ?w\<lparr>w_sched := scheduler_cancel (w_sched ?w) m k\<rparr>"
      by (simp add: dispatch_def worker_boundaries)
    with el_wf show ?thesis
      by (intro after sched_follow) (simp_all add: cancel tokio.cancel_wf tokio.cancel_armed)
  next
    case all
    with de d have "w' = ?w\<lparr>w_sched := scheduler_cancel_all (w_sched ?w) m\<rparr>"
      by (simp add: dispatch_def worker_boundaries)
    with el_wf show ?thesis
      by (intro after sched_follow) (simp_all add: all tokio.cancel_all_wf tokio.cancel_all_armed)
  next
    case set
    with d have "w_sched w' = w_sched ?w"
      by (auto simp: dispatch_def no_follow_def then_do_def set_authorization_def worker_boundaries
          case_prod_unfold Let_def split: sum.splits)
    with el have "timers_follow w w' m []" using same_sched_follow [of w' ?w w m "[]"] by blast
    then show ?thesis by (rule idle) (simp add: set)
  next
    case call
    from dispatch_within [OF worker_calls_wait [of rp env E to_str sock ps] call(2-5), of "(orc, w)" rp] d
    have "waits_kept w w'" by simp
    with wf have "timers_follow w w' m []" unfolding waits_kept_def by blast
    then show ?thesis by (rule idle [OF _ call(1)])
  qed
qed

lemma dispatch_all_timers:
  assumes "dispatch_all rp (worker_deps rp env E to_str sock ps) m0 des (orc, w) = ((orc', w'), Inr fs)"
    and "scheduler_wf (w_sched w)" "only_timers w"
    and "\<forall>de \<in> set des. de_mac de = Some m \<or> is_set_authorization (de_effect de)"
  shows "timers_follow w w' m (map de_effect des)"
  using assms
proof (induction des arbitrary: orc w fs)
  case Nil
  then show ?case using timers_follow_refl [of w m] by simp
next
  case (Cons de des)
  from Cons.prems(1) obtain orc1 w1 f fs1 where
    d: "dispatch rp (worker_deps rp env E to_str sock ps) de (orc, w) = ((orc1, w1), Inr f)"
    and ds: "dispatch_all rp (worker_deps rp env E to_str sock ps) m0 des (orc1, w1) = ((orc', w'), Inr fs1)"
    by (auto simp: then_do_ok_iff)
  have one: "timers_follow w w1 m [de_effect de]" using dispatch_timers [OF d Cons.prems(2,3)] Cons.prems(4) by simp
  have "timers_follow w1 w' m (map de_effect des)"
    using Cons.IH [OF ds timers_followD(1,2) [OF one]] Cons.prems(4) by simp
  from timers_follow_trans [OF one this] show ?case by simp
qed

lemma handle_directed:
  "\<forall>de \<in> set (snd (handle p m e)). de_mac de = Some m \<or> is_set_authorization (de_effect de)"
  by (auto simp: handle_def admit_def decorate_def Let_def case_prod_unfold split: option.splits if_splits)

definition waits_inv :: "'s Worker port_state \<Rightarrow> bool" where
  "waits_inv st \<longleftrightarrow>
     (case st of (pae, orc, w) \<Rightarrow>
       scheduler_wf (w_sched w) \<and> only_timers w \<and> sessions_wait (outstanding_timers w) pae)"

text \<open>While an event is taken from the channel, its timer counts as outstanding for its MAC.\<close>

lemma one_step_waits:
  assumes w: "scheduler_wf (w_sched w)" "only_timers w"
    and p: "sessions_wait (\<lambda>m'. outstanding_timers w m' \<union> {k. m' = m \<and> e = Timer k}) pae"
    and h: "handle pae m e = (pae1, des)"
    and d: "dispatch_all rp (worker_deps rp env E to_str sock ps) m des (orc, w) = ((orc1, w1), Inr fs)"
  shows "waits_inv (pae1, orc1, w1)"
proof -
  have f: "timers_follow w w1 m (map de_effect des)"
    using dispatch_all_timers [OF d w, of m] handle_directed [of pae m e] by (simp add: h)
  have "sessions_wait (outstanding_timers w1) (fst (handle pae m e))"
  proof (rule handle_waits [OF p])
    fix m' k
    assume k: "k \<noteq> TimerKind.SessionTimeout"
      and mem: "k \<in> (if m' = m
        then foldl armed_timers (expire e (outstanding_timers w m \<union> {k. m = m \<and> e = Timer k}))
          (map de_effect (snd (handle pae m e)))
        else outstanding_timers w m' \<union> {k. m' = m \<and> e = Timer k})"
    have "expire e (outstanding_timers w m \<union> {k. m = m \<and> e = Timer k}) \<subseteq> outstanding_timers w m"
      by (cases e) auto
    from armed_timers_mono [OF this, of "map de_effect des"] mem
    show "k \<in> outstanding_timers w1 m'"
      by (intro timers_followD(3) [OF f k]) (auto simp: h split: if_splits)
  qed
  then show ?thesis using timers_followD(1,2) [OF f] by (simp add: waits_inv_def h)
qed

lemma event_loop_waits:
  assumes laws: "radius_laws rp"
    and "waits_inv st" "\<forall>(m, e) \<in> set q. \<forall>k. e \<noteq> Timer k"
    and "event_loop n rp (worker_deps rp env E to_str sock ps) q st = (st', Inr ())"
  shows "waits_inv st'"
  using assms(2-)
proof (induction n arbitrary: q st)
  case 0
  then show ?case by (cases q) auto
next
  case (Suc n)
  obtain pae orc w where st: "st = (pae, orc, w)" by (cases st)
  show ?case
  proof (cases q)
    case (Cons x q1)
    obtain m e where x: "x = (m, e)" by fastforce
    obtain pae1 des where h: "handle pae m e = (pae1, des)" by fastforce
    let ?D = "worker_deps rp env E to_str sock ps"
    from Suc.prems(3) obtain orc1 w1 fs where
      d: "dispatch_all rp ?D m des (orc, w) = ((orc1, w1), Inr fs)"
      and rest: "event_loop n rp ?D (q1 @ fs) (pae1, orc1, w1) = (st', Inr ())"
      by (auto simp: st Cons x h then_do_ok_iff case_prod_unfold Let_def) (metis prod.collapse)
    have "{k. m' = m \<and> e = Timer k} = {}" for m' using Suc.prems(2) by (auto simp: Cons x)
    then have inv: "waits_inv (pae1, orc1, w1)"
      using Suc.prems(1) by (intro one_step_waits [OF _ _ _ h d]) (simp_all add: st waits_inv_def)
    have "\<forall>(m, e) \<in> set (q1 @ fs). \<forall>k. e \<noteq> Timer k"
      using Suc.prems(2) dispatch_all_ok [OF laws d] from_server_reply by (fastforce simp: Cons)
    from Suc.IH [OF inv this rest] show ?thesis .
  qed (use Suc.prems in simp)
qed

lemma handle_event_waits:
  assumes laws: "radius_laws rp"
    and w: "scheduler_wf (w_sched w)" "only_timers w"
    and p: "sessions_wait (\<lambda>m'. outstanding_timers w m' \<union> {k. m' = m \<and> e = Timer k}) pae"
    and run: "handle_event rp (worker_deps rp env E to_str sock ps) m e (pae, orc, w) = (st', Inr ())"
  shows "waits_inv st'"
proof -
  let ?D = "worker_deps rp env E to_str sock ps"
  obtain pae1 des where h: "handle pae m e = (pae1, des)" by fastforce
  from run obtain orc1 w1 fs where
    d: "dispatch_all rp ?D m des (orc, w) = ((orc1, w1), Inr fs)"
    and rest: "event_loop (Suc 0) rp ?D fs (pae1, orc1, w1) = (st', Inr ())"
    by (auto simp: handle_event_unroll [OF laws] h then_do_ok_iff case_prod_unfold Let_def) (metis prod.collapse)
  have "waits_inv (pae1, orc1, w1)" by (rule one_step_waits [OF w p h d])
  moreover have "\<forall>(m, e) \<in> set fs. \<forall>k. e \<noteq> Timer k"
    using dispatch_all_ok [OF laws d] from_server_reply by fastforce
  ultimately show ?thesis using event_loop_waits [OF laws] rest by blast
qed

lemma sessions_wait_mono:
  assumes "sessions_wait A p" "\<And>m. A m \<subseteq> B m"
  shows "sessions_wait B p"
  unfolding sessions_wait_def
proof (intro conjI ballI)
  fix s
  assume "s \<in> set (sessions p)"
  with assms(1) have "waits_ok (cfg p) s (A (mac s))" by (simp add: sessions_wait_def)
  then show "waits_ok (cfg p) s (B (mac s))" by (rule waits_ok_mono) (use assms(2) in blast)
qed (use assms(1) in \<open>simp_all add: sessions_wait_def\<close>)

text \<open>A worker whose RADIUS library keeps its contract.\<close>

locale port_worker =
  fixes rp :: RadiusProto
  assumes laws: "radius_laws rp"

sublocale port_worker \<subseteq> waits: loop_invariant rp "worker_deps rp env E to_str sock ps" waits_inv
  for env E to_str sock ps
proof
  fix pae orc w p e m and st' :: "'a Worker port_state"
  assume inv: "waits_inv (pae, orc, w)" and e: "frame_event p = Some e"
    and run: "handle_event rp (worker_deps rp env E to_str sock ps) m e (pae, orc, w) = (st', Inr ())"
  have "{k. m' = m \<and> e = Timer k} = {}" for m'
    using e by (auto simp: frame_event_def split: PacketType.splits sum.splits)
  with inv show "waits_inv st'"
    by (intro handle_event_waits [OF laws _ _ _ run]) (simp_all add: waits_inv_def)
next
  fix pae orc n and w :: "'a Worker"
  assume inv: "waits_inv (pae, orc, w)"
  then have "sessions_wait (outstanding_timers (fire n w)) pae"
    using sessions_wait_mono [of "outstanding_timers w" pae "outstanding_timers (fire n w)"] fire_outstanding [of w]
    by (simp add: waits_inv_def del: split_paired_All)
  then show "waits_inv (pae, orc, fire n w)"
    using inv fire_wf [of "w_sched w" n]
    by (auto simp: waits_inv_def fire_def only_timers_def scheduler_fire_def split: option.splits)
next
  fix pae orc w m e q and st' :: "'a Worker port_state"
  assume inv: "waits_inv (pae, orc, w)" and c: "channel (w_sched w) = (m, e) # q"
    and run: "handle_event rp (worker_deps rp env E to_str sock ps) m e (pae, orc, pop_channel w) = (st', Inr ())"
  have "outstanding_timers w m' \<subseteq> outstanding_timers (pop_channel w) m' \<union> {k. m' = m \<and> e = Timer k}" for m'
    by (auto simp: outstanding_timers_def pop_channel_def c live_timers_def)
  with inv have p: "sessions_wait (\<lambda>m'. outstanding_timers (pop_channel w) m' \<union> {k. m' = m \<and> e = Timer k}) pae"
    using sessions_wait_mono [of "outstanding_timers w" pae
        "\<lambda>m'. outstanding_timers (pop_channel w) m' \<union> {k. m' = m \<and> e = Timer k}"]
    by (simp add: waits_inv_def del: split_paired_All)
  have "scheduler_wf (w_sched (pop_channel w))" "only_timers (pop_channel w)"
    using inv c by (auto simp: waits_inv_def pop_channel_def scheduler_wf_def only_timers_def)
  from handle_event_waits [OF laws this p run] show "waits_inv st'" .
qed

section \<open>Sessions between two inputs\<close>

text \<open>Neither waiting for the server nor in the critical VLAN.\<close>

definition settled :: "PortSession \<Rightarrow> bool" where
  "settled s \<longleftrightarrow> state s \<noteq> State.AuthServer \<and> state s \<noteq> State.Fallback Critical"

text \<open>An outcome that is settled, or asks the server once and waits for it.\<close>

definition asks_or_settles :: "outcome \<Rightarrow> bool" where
  "asks_or_settles out \<longleftrightarrow>
     settled (fst out) \<or> (state (fst out) = State.AuthServer \<and> radius_count (snd out) = Suc 0)"

lemma settled_shared [handler_simps]:
  "settled s \<Longrightarrow> asks_or_settles (s, fx)"
  "state s = State.Connecting \<Longrightarrow> asks_or_settles (send_identity s)"
  "asks_or_settles (send_identity (s\<lparr>tx_count := n, state := State.Connecting\<rparr>))"
  "asks_or_settles (then_identity fx (s\<lparr>state := State.Connecting\<rparr>))"
  "asks_or_settles (then_identity fx (s\<lparr>tx_count := n, state := State.Connecting\<rparr>))"
  "asks_or_settles (teardown cause s)"
  "asks_or_settles (hold s)"
  "asks_or_settles (begin_reauth s)"
  "asks_or_settles (authorize a eap c s)"
  "asks_or_settles (held_retry s)"
  "asks_or_settles (enable s)"
  "asks_or_settles (reject eap c s)"
  "asks_or_settles (no_supplicant c s)"
  by (simp_all add: asks_or_settles_def settled_def step_defs radius_count_def Let_def split: option.splits)

lemma settled_step:
  assumes "settled s" "e \<noteq> ServerUnreachable"
  shows "asks_or_settles (step s e c)"
proof -
  have conn: "asks_or_settles (in_connecting e c s)" if "state s = State.Connecting"
    using assms that
  proof (induction e c s rule: in_connecting.induct)
    case (4 eap c s)
    then show ?case by (simp add: asks_or_settles_def settled_def radius_count_def)
  qed (auto simp: handler_simps)
  have authing: "asks_or_settles (in_authenticating e c s)" if "state s = State.Authenticating"
    using assms that
  proof (induction e c s rule: in_authenticating.induct)
    case (1 eap c s)
    then show ?case by (simp add: asks_or_settles_def settled_def radius_count_def)
  qed (auto simp: handler_simps)
  have auth: "asks_or_settles (in_authenticated e s)"
    using assms by (induction e s rule: in_authenticated.induct) (auto simp: handler_simps case_prod_unfold Let_def)
  have held: "asks_or_settles (in_held e s)"
    using assms by (induction e s rule: in_held.induct) (auto simp: handler_simps)
  have fall: "asks_or_settles (in_fallback e s)"
    using assms by (induction e s rule: in_fallback.induct) (auto simp: handler_simps)
  have "asks_or_settles (step_in_state e c s)"
    using assms conn authing auth held fall
    by (cases "state s") (auto simp: step_in_state_def settled_def handler_simps)
  moreover have "asks_or_settles (coa_authorize a s)" for a
    using assms by (simp add: asks_or_settles_def settled_def coa_authorize_def)
  ultimately show ?thesis
    using assms by (cases e) (simp_all add: step_def handler_simps)
qed

lemma reply_settles:
  assumes "is_reply e" "settled s \<or> state s = State.AuthServer"
  shows "settled (fst (step s e c))"
proof (cases "state s = State.AuthServer")
  case True
  with assms(1) show ?thesis
    by (cases e) (auto simp: step_def step_in_state_def settled_def step_defs Let_def split: option.splits)
next
  case False
  with assms have "asks_or_settles (step s e c)" by (intro settled_step) auto
  with step_reply_no_request [OF assms(1), of s c] show ?thesis by (simp add: asks_or_settles_def)
qed

text \<open>All sessions are settled, but for the given MAC's.\<close>

definition settled_but :: "MacAddr option \<Rightarrow> PortPae \<Rightarrow> bool" where
  "settled_but x p \<longleftrightarrow>
     distinct (map mac (sessions p)) \<and>
     (\<forall>s \<in> set (sessions p). settled s \<or> (Some (mac s) = x \<and> state s = State.AuthServer))"

lemma handle_settles:
  assumes p: "settled_but None p" and e: "e \<noteq> ServerUnreachable" "handle p m e = (p1, des)"
  shows "settled_but None p1 \<or> (settled_but (Some m) p1 \<and> radius_count (map de_effect des) = Suc 0)"
proof (cases "step_first m e (cfg p) (sessions p)")
  case None
  then have fresh: "m \<notin> mac ` set (sessions p)" by (simp add: step_first_None)
  define out where "out = (if e = Enable \<or> e = EapolStart then step (session_new m) Enable (cfg p)
    else run_session (cfg p) (session_new m) [Enable, e])"
  have new: "settled (session_new m)" by (simp add: settled_def session_new_def)
  have en: "settled (fst (step (session_new m) Enable (cfg p)))"
    using enable_effects(1) [of m "cfg p"] settled_step [OF new, of Enable "cfg p"] by (auto simp: asks_or_settles_def)
  have "asks_or_settles out"
    using enable_effects(1) [of m "cfg p"] settled_step [OF new, of Enable "cfg p"] settled_step [OF en e(1), of "cfg p"]
    by (auto simp: out_def asks_or_settles_def radius_count_simps case_prod_unfold Let_def)
  moreover have "mac (fst out) = m" by (simp add: out_def session_new_def Let_def case_prod_unfold)
  moreover have "p1 = (if can_admit p then prune (p\<lparr>sessions := sessions p @ [fst out]\<rparr>) else prune p)"
    "can_admit p \<Longrightarrow> map de_effect des = snd out"
    using e(2) fresh by (auto simp: handle_unknown admit_session out_def Let_def split: if_splits)
  ultimately show ?thesis
    using p fresh by (auto simp: settled_but_def asks_or_settles_def prune_def distinct_map_filter)
next
  case (Some r)
  obtain ss fx where r: "r = (ss, fx)" by fastforce
  from step_first_Some [OF Some [unfolded r]] obtain xs s ys where
    ss: "sessions p = xs @ s # ys" "mac s = m" "ss = xs @ fst (step s e (cfg p)) # ys" "fx = snd (step s e (cfg p))"
    by blast
  have h: "p1 = prune (p\<lparr>sessions := ss\<rparr>)" "map de_effect des = fx"
    using handle_known [OF Some [unfolded r]] e(2) by simp_all
  have "asks_or_settles (step s e (cfg p))" using p ss e by (intro settled_step) (auto simp: settled_but_def)
  then show ?thesis
    using p ss h by (auto simp: settled_but_def asks_or_settles_def prune_def distinct_map_filter)
qed

lemma handle_reply_settles:
  assumes p: "settled_but (Some m) p" and e: "is_reply e" "handle p m e = (p1, des)"
  shows "settled_but None p1"
proof (cases "step_first m e (cfg p) (sessions p)")
  case None
  then have fresh: "m \<notin> mac ` set (sessions p)" by (simp add: step_first_None)
  with p have "settled_but None p" by (force simp: settled_but_def)
  moreover have "e \<noteq> ServerUnreachable" using e(1) by auto
  ultimately show ?thesis
    using e handle_settles [of p e m p1 des] handle_radius_count(2) [OF e(1), of p m] by auto
next
  case (Some r)
  obtain ss fx where r: "r = (ss, fx)" by fastforce
  from step_first_Some [OF Some [unfolded r]] obtain xs s ys where
    ss: "sessions p = xs @ s # ys" "mac s = m" "ss = xs @ fst (step s e (cfg p)) # ys" "fx = snd (step s e (cfg p))"
    by blast
  have h: "p1 = prune (p\<lparr>sessions := ss\<rparr>)" using handle_known [OF Some [unfolded r]] e(2) by simp
  have "settled (fst (step s e (cfg p)))" using p ss e by (intro reply_settles) (auto simp: settled_but_def)
  moreover have "\<forall>s' \<in> set xs \<union> set ys. settled s'"
  proof
    fix s'
    assume s': "s' \<in> set xs \<union> set ys"
    then have "mac s' \<noteq> m" using p ss by (auto simp: settled_but_def image_iff)
    with s' p ss show "settled s'" by (auto simp: settled_but_def)
  qed
  ultimately show ?thesis
    using p ss h by (auto simp: settled_but_def prune_def distinct_map_filter)
qed

lemma dispatch_follow:
  assumes laws: "radius_laws rp" and d: "dispatch rp D de st = (st', Inr f)"
    and m: "de_mac de = Some m \<or> is_set_authorization (de_effect de)"
  shows "f = None \<longleftrightarrow> \<not> radius_bearing (de_effect de)"
proof (cases "de_effect de")
  case (ToAuthServer eap)
  with m have "to_auth_server rp D m eap st = (st', Inr f)" using d by (simp add: dispatch_def)
  with ToAuthServer show ?thesis using to_auth_server_ok [OF laws] by fastforce
next
  case (StartMab m')
  then have "start_mab rp D m' st = (st', Inr f)" using d by (simp add: dispatch_def)
  with StartMab show ?thesis using start_mab_ok [OF laws] by fastforce
qed (use d dispatch_ok [OF laws d] in auto)

text \<open>Each request of a step is answered by one event for the step's MAC.\<close>

lemma dispatch_all_follow:
  assumes laws: "radius_laws rp" and "dispatch_all rp D m des st = (st', Inr fs)"
    and "\<forall>de \<in> set des. de_mac de = Some m \<or> is_set_authorization (de_effect de)"
  shows "map fst fs = replicate (radius_count (map de_effect des)) m"
  using assms(2,3)
proof (induction des arbitrary: st fs)
  case (Cons de des)
  from Cons.prems(1) obtain st1 f fs1 where d: "dispatch rp D de st = (st1, Inr f)"
    and ds: "dispatch_all rp D m des st1 = (st', Inr fs1)"
    and fs: "fs = (case f of Some ev \<Rightarrow> [(case de_mac de of Some dm \<Rightarrow> dm | None \<Rightarrow> m, ev)] | None \<Rightarrow> []) @ fs1"
    by (auto simp: then_do_ok_iff)
  have "map fst fs1 = replicate (radius_count (map de_effect des)) m" using Cons.IH [OF ds] Cons.prems(2) by simp
  moreover have "f = None \<longleftrightarrow> \<not> radius_bearing (de_effect de)"
    using dispatch_follow [OF laws d, of m] Cons.prems(2) by simp
  moreover have "de_mac de = Some m \<or> de_mac de = None \<or> \<not> radius_bearing (de_effect de)"
    using Cons.prems(2) by (cases "de_effect de") auto
  ultimately show ?case
    by (auto simp: fs radius_count_simps split: option.splits)
qed (simp add: radius_count_simps)

lemma handle_event_settles:
  assumes laws: "radius_laws rp" and p: "settled_but None pae" and e: "e \<noteq> ServerUnreachable"
    and run: "handle_event rp D m e (pae, d0) = ((pae', d'), Inr ())"
  shows "settled_but None pae'"
proof -
  obtain pae1 des where h: "handle pae m e = (pae1, des)" by fastforce
  obtain d1 r where d1: "dispatch_all rp D m des d0 = (d1, r)" by fastforce
  from run obtain fs where fs: "r = Inr fs"
    and rest: "event_loop (Suc 0) rp D fs (pae1, d1) = ((pae', d'), Inr ())"
    by (cases r) (simp_all add: handle_event_unroll [OF laws] h d1)
  note d = d1 [unfolded fs]
  have macs: "map fst fs = replicate (radius_count (map de_effect des)) m"
    using dispatch_all_follow [OF laws d] handle_directed [of pae m e] by (simp add: h)
  from handle_settles [OF p e h] handle_radius_count(1) [of pae m e]
  consider "radius_count (map de_effect des) = 0" "settled_but None pae1"
    | "radius_count (map de_effect des) = Suc 0" "settled_but (Some m) pae1"
    by (force simp: h settled_but_def)
  then show ?thesis
  proof cases
    case 1
    with macs rest show ?thesis by simp
  next
    case 2
    with macs obtain ev where f: "fs = [(m, ev)]" by (cases fs) auto
    then have "is_reply ev" using dispatch_all_ok [OF laws d] from_server_reply by fastforce
    moreover obtain pae2 des2 where h2: "handle pae1 m ev = (pae2, des2)" by fastforce
    moreover from rest have "pae' = pae2"
      by (cases "snd (dispatch_all rp D m des2 d1)"; cases "dispatch_all rp D m des2 d1")
        (auto simp: f h2 event_loop.simps(2) neq_Nil_conv elim!: event_loop.elims)
    ultimately show ?thesis using handle_reply_settles [OF 2(2)] by blast
  qed
qed

definition settled_inv :: "'s Worker port_state \<Rightarrow> bool" where
  "settled_inv st \<longleftrightarrow> waits_inv st \<and> settled_but None (fst st)"

sublocale port_worker \<subseteq> settled: loop_invariant rp "worker_deps rp env E to_str sock ps" settled_inv
  for env E to_str sock ps
proof
  fix pae orc w p e m and st' :: "'a Worker port_state"
  assume inv: "settled_inv (pae, orc, w)" and e: "frame_event p = Some e"
    and run: "handle_event rp (worker_deps rp env E to_str sock ps) m e (pae, orc, w) = (st', Inr ())"
  have "e \<noteq> ServerUnreachable"
    using e by (auto simp: frame_event_def split: PacketType.splits sum.splits)
  then show "settled_inv st'"
    using inv waits.frame_keeps [OF _ e run] handle_event_settles [OF laws, of pae e _ m "(orc, w)" "fst st'" "snd st'"] run
    by (auto simp: settled_inv_def)
next
  fix pae orc n and w :: "'a Worker"
  assume "settled_inv (pae, orc, w)"
  then show "settled_inv (pae, orc, fire n w)" by (auto simp: settled_inv_def intro: waits.fire_keeps)
next
  fix pae orc w m e q and st' :: "'a Worker port_state"
  assume inv: "settled_inv (pae, orc, w)" and c: "channel (w_sched w) = (m, e) # q"
    and run: "handle_event rp (worker_deps rp env E to_str sock ps) m e (pae, orc, pop_channel w) = (st', Inr ())"
  have "only_timers w" using inv by (simp add: settled_inv_def waits_inv_def)
  moreover have "(m, e) \<in> set (channel (w_sched w))" by (simp add: c)
  ultimately have "e \<noteq> ServerUnreachable" unfolding only_timers_def by blast
  then show "settled_inv st'"
    using inv waits.channel_keeps [OF _ c run]
      handle_event_settles [OF laws, of pae e _ m "(orc, pop_channel w)" "fst st'" "snd st'"] run
    by (auto simp: settled_inv_def)
qed

interpretation rfc: port_worker rfc_proto
  by unfold_locales (rule rfc_proto_laws)

context port_worker
begin

lemma settled_loop: "loop_invariant rp (worker_deps rp env E to_str sock ps) settled_inv"
  by (rule settled.loop_invariant_axioms)

end

lemma start_settled_inv:
  assumes "apply_effects rp (worker_deps rp env E to_str sock ps) (port_enable (port_new c)) (orc, worker_start s conn) =
    ((orc', w'), Inr ())"
  shows "settled_inv (port_new c, orc', w')"
proof -
  let ?close = "\<lparr>de_mac = None, de_effect = SetAuthorization Unauthorized\<rparr>"
  obtain f where d: "dispatch rp (worker_deps rp env E to_str sock ps) ?close (orc, worker_start s conn) = ((orc', w'), Inr f)"
    using assms by (auto simp: port_enable_def then_do_ok_iff)
  have "scheduler_wf (w_sched (worker_start s conn))" "only_timers (worker_start s conn)"
    by (simp_all add: worker_start_def only_timers_def) (simp add: scheduler_new_def)
  from timers_followD(1,2) [OF dispatch_timers [OF d this]] show ?thesis
    by (simp add: settled_inv_def waits_inv_def sessions_wait_def settled_but_def port_new_def)
qed

lemma run_port_settled_inv:
  assumes laws: "radius_laws rp" and run: "run_port rp env E to_str ps s conn is = (st, Inr ())"
  shows "settled_inv st"
proof -
  have pw: "port_worker rp" by unfold_locales (rule laws)
  obtain s1 sock orc w where a: "apply_effects rp (worker_deps rp env E to_str sock ps) (port_enable (port_new (pae_cfg ps)))
      (orchestrator_new (setup_port ps) (setup_ctx ps), worker_start s1 conn) = ((orc, w), Inr ())"
    and l: "worker_loop rp (worker_deps rp env E to_str sock ps) is (port_new (pae_cfg ps), orc, w) = (st, Inr ())"
    using run_port_running [OF run] by (metis surj_pair)
  show ?thesis by (rule loop_invariant.loop_keeps [OF port_worker.settled_loop [OF pw] start_settled_inv [OF a] l])
qed

end
