(* ===== verification/Authd_Verdict.thy ===== *)
theory Authd_Verdict
  imports Authd_Run
begin

text \<open>
  One exchange with the server, from the event that asks it to the session that its
  verdict leaves: the composition of the PAE, the orchestrator and the reply's parser.
\<close>

section \<open>The session of an event\<close>

lemma handle_session:
  assumes wf: "port_wf p" and x: "port_session p m = Some x"
  shows "snd (handle p m e) = decorate (host_mode (cfg p)) m (snd (step x e (cfg p)))"
    and "port_session (fst (handle p m e)) m =
      (if state (fst (step x e (cfg p))) = State.New then None else Some (fst (step x e (cfg p))))"
    and "port_wf (fst (handle p m e))"
proof -
  have mem: "x \<in> set (sessions p)" "mac x = m" using assms by (simp_all add: port_session_iff)
  then obtain ss fx where f: "step_first m e (cfg p) (sessions p) = Some (ss, fx)"
    using step_first_None [of m e "cfg p" "sessions p"] by fastforce
  from step_first_Some [OF f] obtain xs s ys where
    ss: "sessions p = xs @ s # ys" "mac s = m" "ss = xs @ fst (step s e (cfg p)) # ys" "fx = snd (step s e (cfg p))"
    by blast
  have s: "s = x" "m \<notin> mac ` set xs" "m \<notin> mac ` set ys"
    using wf mem ss by (auto simp: port_wf_def image_iff)
  note h = handle_known [OF f]
  show "snd (handle p m e) = decorate (host_mode (cfg p)) m (snd (step x e (cfg p)))"
    by (simp add: h ss s)
  have none: "List.find (\<lambda>s. mac s = m) (filter P zs) = None" if "m \<notin> mac ` set zs" for P zs
    using that by (auto simp: find_None_iff)
  show "port_session (fst (handle p m e)) m =
      (if state (fst (step x e (cfg p))) = State.New then None else Some (fst (step x e (cfg p))))"
    using mem none [OF s(2)] none [OF s(3)] by (simp add: h port_session_def prune_def ss s find_append)
  have "mac (fst (step x e (cfg p))) = mac x" by simp
  then show "port_wf (fst (handle p m e))"
    using wf ss s
    by (auto simp: h port_wf_def prune_def distinct_map_filter within_capacity_def split: option.splits
        intro: order_trans [OF add_mono [OF length_filter_le length_filter_le]])
qed

section \<open>The server's verdict\<close>

text \<open>What each reply makes of the session \<open>x\<close> that asked; \<open>None\<close> is a session that is gone.\<close>

fun verdict :: "PaeConfig \<Rightarrow> PortSession \<Rightarrow> Event \<Rightarrow> PortSession option \<Rightarrow> bool" where
  "verdict c x (Event.AccessAccept a eap) y \<longleftrightarrow>
     y \<noteq> None \<and> state (the y) = State.Authenticated \<and> authz (the y) = Some a \<and> accounting_open (the y)"
| "verdict c x (Event.AccessChallenge eap) y \<longleftrightarrow>
     y \<noteq> None \<and> state (the y) = State.Authenticating \<and> authz (the y) = authz x"
| "verdict c x (Event.AccessReject eap) y \<longleftrightarrow>
     (if accounting_open x then y = None
      else y \<noteq> None \<and> authz (the y) = authz x \<and>
        state (the y) = (case auth_fail_vlan c of None \<Rightarrow> State.Held | Some _ \<Rightarrow> State.Fallback AuthFail))"
| "verdict c x _ y \<longleftrightarrow> False"

text \<open>A step that asks the server keeps what the session was granted.\<close>

definition asks_keeping :: "PortSession \<Rightarrow> outcome \<Rightarrow> bool" where
  "asks_keeping x out \<longleftrightarrow> state (fst out) = State.AuthServer \<longrightarrow>
     authz (fst out) = authz x \<and> accounting_open (fst out) = accounting_open x"

lemma asks_keeping_shared [handler_simps]:
  "asks_keeping x (x, fx)"
  "state s = State.Connecting \<Longrightarrow> asks_keeping x (send_identity s)"
  "asks_keeping x (send_identity (s\<lparr>tx_count := n, state := State.Connecting\<rparr>))"
  "asks_keeping x (then_identity fx (s\<lparr>state := State.Connecting\<rparr>))"
  "asks_keeping x (then_identity fx (s\<lparr>tx_count := n, state := State.Connecting\<rparr>))"
  "asks_keeping x (teardown cause s)"
  "asks_keeping x (hold s)"
  "asks_keeping x (begin_reauth s)"
  "asks_keeping x (held_retry s)"
  "asks_keeping x (enable s)"
  "asks_keeping x (no_supplicant c x)"
  "asks_keeping x (x\<lparr>auth_kind := k, state := st\<rparr>, fx)"
  "asks_keeping x (x\<lparr>state := st\<rparr>, fx)"
  by (simp_all add: asks_keeping_def step_defs Let_def split: option.splits)

lemma asks_keeping_step:
  assumes "settled x"
  shows "asks_keeping x (step x e c)"
proof -
  have "asks_keeping x (in_connecting e c x)" if "state x = State.Connecting"
    using that by (induction e c x rule: in_connecting.induct) (auto simp: handler_simps)
  moreover have "asks_keeping x (in_authenticating e c x)"
    by (induction e c x rule: in_authenticating.induct) (auto simp: handler_simps)
  moreover have "asks_keeping x (in_authenticated e x)"
    by (induction e x rule: in_authenticated.induct) (auto simp: handler_simps case_prod_unfold Let_def)
  moreover have "asks_keeping x (in_held e x)"
    by (induction e x rule: in_held.induct) (auto simp: handler_simps)
  moreover have "asks_keeping x (in_fallback e x)"
    by (induction e x rule: in_fallback.induct) (auto simp: handler_simps)
  ultimately have "asks_keeping x (step_in_state e c x)"
    using assms by (cases "state x") (auto simp: step_in_state_def settled_def handler_simps)
  moreover have "asks_keeping x (coa_authorize a x)" for a by (simp add: asks_keeping_def coa_authorize_def)
  ultimately show ?thesis by (cases e) (simp_all add: step_def handler_simps)
qed

lemma asking_once:
  assumes "settled x" "state (fst (step x e c)) = State.AuthServer"
  shows "radius_count (snd (step x e c)) = Suc 0"
proof -
  have "e \<noteq> ServerUnreachable"
    using assms by (auto simp: settled_def step_def step_in_state_def split: State.splits)
  from settled_step [OF assms(1) this, of c] assms(2) show ?thesis by (simp add: asks_or_settles_def settled_def)
qed

lemma reply_verdict:
  assumes "state s = State.AuthServer" "authz s = authz x" "accounting_open s = accounting_open x" "is_reply v"
  shows "verdict c x v (if state (fst (step s v c)) = State.New then None else Some (fst (step s v c)))"
  using assms by (cases v) (simp_all add: step_def step_in_state_def step_defs Let_def split: option.splits)

lemma dispatch_decorated:
  assumes laws: "radius_laws rp"
    and "dispatch_all rp D m (decorate mode m fx) st = (st', Inr fs)"
  shows "length fs = radius_count fx \<and> (\<forall>(dm, v) \<in> set fs. dm = m \<and> from_server rp D v)"
  using assms(2)
proof (induction fx arbitrary: st fs)
  case (Cons x fx)
  define de where "de = hd (decorate mode m [x])"
  then have de: "decorate mode m (x # fx) = de # decorate mode m fx" "de_effect de = x"
    "radius_bearing x \<Longrightarrow> de_mac de = Some m"
    by (cases x; simp add: decorate_def)+
  from Cons.prems obtain st1 f fs1 where d: "dispatch rp D de st = (st1, Inr f)"
    and ds: "dispatch_all rp D m (decorate mode m fx) st1 = (st', Inr fs1)"
    and fs: "fs = (case f of Some ev \<Rightarrow> [(case de_mac de of Some dm \<Rightarrow> dm | None \<Rightarrow> m, ev)] | None \<Rightarrow> []) @ fs1"
    by (auto simp: de then_do_ok_iff)
  have "f \<noteq> None" if "radius_bearing x"
    using that d de(2) de(3) [OF that]
    by (cases x) (auto simp: dispatch_def dest: to_auth_server_ok [OF laws] start_mab_ok [OF laws])
  with dispatch_ok [OF laws d] Cons.IH [OF ds] de show ?case
    by (cases f) (auto simp: fs)
qed (simp add: decorate_def)

text \<open>
  C4. The server's verdict decides the session: an event that makes the PAE ask the
  server is answered within the same call of \<open>handle_event\<close>, by a reply that verifies
  against a request the daemon sent. An accept leaves the session authenticated with
  exactly the granted authorization; a challenge leaves it waiting for the supplicant
  with what it had; a reject removes a session that was authorized before, and puts any
  other in the hold or in the configured VLAN.
\<close>

theorem exchange_reaches_verdict:
  assumes laws: "radius_laws rp" and wf: "port_wf pae" and x: "port_session pae m = Some x"
    and asks: "settled x" "state (fst (step x e (cfg pae))) = State.AuthServer"
    and run: "handle_event rp D m e (pae, d) = ((pae', d'), Inr ())"
  shows "\<exists>v. from_server rp D v \<and> verdict (cfg pae) x v (port_session pae' m)"
proof -
  let ?c = "cfg pae" and ?y = "fst (step x e (cfg pae))"
  obtain pae1 des where h: "handle pae m e = (pae1, des)" by fastforce
  note own = handle_session [OF wf x, of e, unfolded h fst_conv snd_conv]
  have c: "cfg pae1 = ?c" using handle_cfg [of pae m e] by (simp add: h)
  obtain d1 r where d1: "dispatch_all rp D m des d = (d1, r)" by fastforce
  from run obtain fs where fs: "r = Inr fs" and rest: "event_loop (Suc 0) rp D fs (pae1, d1) = ((pae', d'), Inr ())"
    by (cases r) (simp_all only: handle_event_unroll [OF laws] event_loop.simps h d1 Let_def split_conv append_Nil
        then_do_simps prod.inject sum.distinct simp_thms)
  from dispatch_decorated [OF laws d1 [unfolded own(1) fs]] asking_once [OF asks]
  obtain v where v: "fs = [(m, v)]" "from_server rp D v" by (auto simp: length_Suc_conv)
  have stop: "event_loop 0 rp D q st = (st, Inr ())" for q and st :: "'a port_state" by (cases q) simp_all
  obtain pae2 des2 where h2: "handle pae1 m v = (pae2, des2)" by fastforce
  obtain d2 r2 where d2: "dispatch_all rp D m des2 d1 = (d2, r2)" by fastforce
  from rest have "pae' = pae2" by (cases r2) (simp_all add: v h2 d2 stop)
  moreover have "port_session pae1 m = Some ?y" using own(2) asks(2) by simp
  from handle_session(2) [OF own(3) this, of v]
  have "port_session pae2 m = (if state (fst (step ?y v ?c)) = State.New then None else Some (fst (step ?y v ?c)))"
    by (simp add: h2 c)
  moreover have "verdict ?c x v (if state (fst (step ?y v ?c)) = State.New then None else Some (fst (step ?y v ?c)))"
    using asks_keeping_step [OF asks(1), of e ?c] asks(2) from_server_reply [OF v(2)]
    by (intro reply_verdict) (simp_all add: asks_keeping_def)
  ultimately show ?thesis using v(2) by auto
qed

text \<open>The sample port with a server that accepts the MAC address.\<close>

lemma sample_mab_session:
  "\<exists>rs. start_mab rfc_proto accepting_deps (2, 0, 0, 0, 0, 1) (sample_orch, ()) =
       ((put_session (2, 0, 0, 0, 0, 1) (session_state_default\<lparr>ss_radius := rs\<rparr>) sample_orch, ()),
        Inr (Some (Event.AccessAccept authorization_default None))) \<and> session_class rs = None"
proof -
  obtain req where req: "access_request_mab rfc_proto (sample_ctx\<lparr>calling_station := (2, 0, 0, 0, 0, 1)\<rparr>) 0
      (replicate 16 9) [1, 2] = Inr req" "pkt_identifier req = 0" "authenticator req = replicate 16 9"
    using sample_mab_request by blast
  show ?thesis
    by (auto simp: start_mab_def build_mab_request_def next_identifier_def accepting_deps_def
        sample_orch_def orchestrator_new_def ctx_for_def orch_session_def session_state_default_def
        radius_session_new_def put_session_def round_trip_def handle_reply_def req sample_accept_reply
        note_class_def authorization_default_def)
qed

lemma sample_accounting:
  assumes "session_class (ss_radius s) = None" "ss_acct_id s = None"
  shows "\<exists>st'. send_accounting rfc_proto accepting_deps (2, 0, 0, 0, 0, 1) AcctTrigger.Start
    (put_session (2, 0, 0, 0, 0, 1) s sample_orch, ()) = (st', Inr ())"
proof -
  let ?ctx = "sample_ctx\<lparr>calling_station := (2, 0, 0, 0, 0, 1)\<rparr>"
  have built: "build_accounting rfc_proto ?ctx i AcctTrigger.Start sid sec rs \<noteq> Inl e"
    if "length sid \<le> 253" "session_class rs = None" for i sid sec rs e
  proof -
    have "\<exists>p. accounting_request rfc_proto ?ctx i AcctTrigger.Start sid None sec = Inr p"
      using that by (simp add: accounting_request_iff [OF rfc_proto_laws] names_fit_def state_fits_def sample_ctx_def)
    with that show ?thesis by (auto simp: build_accounting_def map_err_def)
  qed
  have "length (to_decimal (Suc 0)) = 1" by (simp add: to_decimal.simps)
  with assms built show ?thesis
    by (auto simp: send_accounting_def acct_id_for_def put_session_def orch_session_def sample_orch_def orchestrator_new_def
        ctx_for_def next_accounting_identifier_def accepting_deps_def then_do_def format_mac_length Let_def
        split: sum.splits)
qed

lemma mab_port_accepted:
  "\<exists>pae' d'. handle_event rfc_proto accepting_deps (2, 0, 0, 0, 0, 1) (Timer TimerKind.TxPeriod)
     (mab_port, sample_orch, ()) = ((pae', d'), Inr ())"
proof -
  let ?m = "(2, 0, 0, 0, 0, 1) :: MacAddr" and ?D = accepting_deps
  obtain rs where mab: "start_mab rfc_proto ?D ?m (sample_orch, ()) =
      ((put_session ?m (session_state_default\<lparr>ss_radius := rs\<rparr>) sample_orch, ()),
       Inr (Some (Event.AccessAccept authorization_default None)))" and rs: "session_class rs = None"
    using sample_mab_session by blast
  let ?s = "session_state_default\<lparr>ss_radius := rs, ss_timeout := None\<rparr>"
  let ?orc = "put_session ?m (session_state_default\<lparr>ss_radius := rs\<rparr>) sample_orch"
  have quiet: "dispatch rfc_proto ?D \<lparr>de_mac = Some ?m, de_effect = x\<rparr> st = (st, Inr None)"
    if "x = CancelAllTimers \<or> (\<exists>k. x = CancelTimer k \<or> x = ArmTimer k)" for x st
    using that by (cases st) (auto simp: dispatch_def accepting_deps_def split: option.splits)
  have auth: "dispatch rfc_proto ?D \<lparr>de_mac = Some ?m, de_effect = SetAuthorization (Authorized authorization_default)\<rparr>
      (?orc, ()) = ((put_session ?m ?s sample_orch, ()), Inr None)"
    by (simp add: dispatch_def no_follow_def set_authorization_def accepting_deps_def put_session_def orch_session_def
        authorization_default_def)
  obtain st' where "send_accounting rfc_proto ?D ?m AcctTrigger.Start (put_session ?m ?s sample_orch, ()) = (st', Inr ())"
    using sample_accounting [of ?s] rs by (auto simp: session_state_default_def)
  then have acct: "dispatch rfc_proto ?D \<lparr>de_mac = Some ?m, de_effect = Accounting AcctTrigger.Start\<rparr>
      (put_session ?m ?s sample_orch, ()) = (st', Inr None)" by (simp add: dispatch_def no_follow_def)
  have "dispatch rfc_proto ?D \<lparr>de_mac = Some ?m, de_effect = StartMab ?m\<rparr> (sample_orch, ()) =
      ((?orc, ()), Inr (Some (Event.AccessAccept authorization_default None)))" using mab by (simp add: dispatch_def)
  with quiet auth acct show ?thesis
    by (cases st') (simp add: handle_event_unroll [OF rfc_proto_laws] mab_port_handle)
qed

theorem exchange_reaches_verdict_witness:
  "\<exists>pae' d' v. handle_event rfc_proto accepting_deps (2, 0, 0, 0, 0, 1) (Timer TimerKind.TxPeriod)
       (mab_port, sample_orch, ()) = ((pae', d'), Inr ()) \<and> from_server rfc_proto accepting_deps v \<and>
     verdict (cfg mab_port) (hd (sessions mab_port)) v (port_session pae' (2, 0, 0, 0, 0, 1))"
proof -
  obtain pae' d' where run: "handle_event rfc_proto accepting_deps (2, 0, 0, 0, 0, 1) (Timer TimerKind.TxPeriod)
      (mab_port, sample_orch, ()) = ((pae', d'), Inr ())" using mab_port_accepted by blast
  have "port_wf mab_port" "port_session mab_port (2, 0, 0, 0, 0, 1) = Some (hd (sessions mab_port))"
    "settled (hd (sessions mab_port))"
    "state (fst (step (hd (sessions mab_port)) (Timer TimerKind.TxPeriod) (cfg mab_port))) = State.AuthServer"
    by (simp_all add: mab_port_def port_wf_def within_capacity_def max_sessions_def port_session_def settled_def
        pae_config_default_def step_def step_in_state_def step_defs)
  from exchange_reaches_verdict [OF rfc_proto_laws this run] run show ?thesis by blast
qed

end
