(* ===== verification/Authd_Dataplane.thy ===== *)
theory Authd_Dataplane
  imports Authd_Run
begin

text \<open>
  What the enforcer of a port holds over a whole run of \<open>run_port\<close>, and after it: the
  posture of an authorization that the server granted, or none, unless the enforcer itself
  reported an error.
\<close>

section \<open>What the dataplane holds\<close>

text \<open>An authorization the server may have asked for: not a grant, or one of a verified accept.\<close>

definition sanctioned :: "RadiusProto \<Rightarrow> 'w Deps \<Rightarrow> PortAuthorization \<Rightarrow> bool" where
  "sanctioned rp D a \<longleftrightarrow> (\<forall>x. a = Authorized x \<longrightarrow> (\<exists>eap. from_server rp D (Event.AccessAccept x eap)))"

definition posture_inv ::
    "RadiusProto \<Rightarrow> 's Worker Deps \<Rightarrow> ('s \<Rightarrow> string \<Rightarrow> bool) \<Rightarrow> ('s \<Rightarrow> string \<Rightarrow> PortAuthorization \<Rightarrow> bool)
       \<Rightarrow> string \<Rightarrow> 's Worker port_state \<Rightarrow> bool" where
  "posture_inv rp D served holds port st \<longleftrightarrow>
     (case st of (pae, orc, w) \<Rightarrow>
       waits_inv st \<and> orch_port orc = port \<and> served (w_enforcer w) port \<and>
       (\<exists>a. holds (w_enforcer w) port a \<and> sanctioned rp D a))"

text \<open>The orchestrator serves the port, and the dataplane holds \<open>a\<close> for it.\<close>

definition tracks ::
    "('s \<Rightarrow> string \<Rightarrow> bool) \<Rightarrow> ('s \<Rightarrow> string \<Rightarrow> PortAuthorization \<Rightarrow> bool) \<Rightarrow> string \<Rightarrow> PortAuthorization
       \<Rightarrow> 's Worker daemon \<Rightarrow> bool" where
  "tracks served holds port a d \<longleftrightarrow>
     orch_port (fst d) = port \<and> served (w_enforcer (snd d)) port \<and> holds (w_enforcer (snd d)) port a"

text \<open>The part of it that one effect touches.\<close>

definition holds_sanctioned ::
    "RadiusProto \<Rightarrow> 's Worker Deps \<Rightarrow> ('s \<Rightarrow> string \<Rightarrow> bool) \<Rightarrow> ('s \<Rightarrow> string \<Rightarrow> PortAuthorization \<Rightarrow> bool)
       \<Rightarrow> string \<Rightarrow> 's Worker daemon \<Rightarrow> bool" where
  "holds_sanctioned rp D served holds port d \<longleftrightarrow>
     orch_port (fst d) = port \<and> served (w_enforcer (snd d)) port \<and>
     (\<exists>a. holds (w_enforcer (snd d)) port a \<and> sanctioned rp D a)"

text \<open>Through effects other than authorizations the enforcer sees at most calls of other ports.\<close>

lemma dispatch_others:
  assumes "dispatch rp (worker_deps rp env E to_str sock ps) de d = (d', r)" "\<not> is_set_authorization (de_effect de)"
  shows "others_only env E (w_enforcer (snd d)) (w_enforcer (snd d'))"
proof (cases "\<exists>k. de_effect de = ArmTimer k \<or> de_effect de = CancelTimer k \<or> de_effect de = CancelAllTimers")
  case True
  with assms(1) show ?thesis
    by (auto simp: dispatch_def worker_boundaries others_only_refl elapse_others simp del: elapse_simps(1)
        split: option.splits)
next
  case False
  moreover have "de_effect de \<noteq> SetAuthorization a" for a using assms(2) by auto
  ultimately show ?thesis
    using assms(1) dispatch_within [OF worker_calls_others [of rp env E to_str sock ps], of de d rp] by auto
qed

lemma dispatch_all_others:
  assumes "dispatch_all rp (worker_deps rp env E to_str sock ps) m des d = (d', r)"
    and "\<forall>de \<in> set des. \<not> is_set_authorization (de_effect de)"
  shows "others_only env E (w_enforcer (snd d)) (w_enforcer (snd d'))"
  using assms
proof (induction des arbitrary: d d' r)
  case Nil
  then show ?case by (simp add: others_only_refl)
next
  case (Cons de des)
  let ?D = "worker_deps rp env E to_str sock ps"
  obtain d1 x where d: "dispatch rp ?D de d = (d1, x)" by fastforce
  obtain d2 y where ds: "dispatch_all rp ?D m des d1 = (d2, y)" by fastforce
  have "others_only env E (w_enforcer (snd d)) (w_enforcer (snd d1))"
    "others_only env E (w_enforcer (snd d1)) (w_enforcer (snd d2))"
    using dispatch_others [OF d] Cons.IH [OF ds] Cons.prems(2) by simp_all
  then show ?case using Cons.prems(1) d ds by (cases x; cases y) (auto intro: others_only_trans)
qed

text \<open>The other loops serve other ports.\<close>

definition apart :: "(string \<Rightarrow> bool) \<Rightarrow> string \<Rightarrow> Environment \<Rightarrow> bool" where
  "apart port_ok port env \<longleftrightarrow> (\<forall>n. \<forall>c \<in> set (env_others env n). port_ok (call_port c) \<and> call_port c \<noteq> port)"

text \<open>A result that is not an error of the enforcer.\<close>

definition enforced :: "AuthdError + 'a \<Rightarrow> bool" where
  "enforced r \<longleftrightarrow> (\<forall>t. r \<noteq> Inl (Enforce t))"

lemma enforced_Inr [simp]: "enforced (Inr x)"
  by (simp add: enforced_def)

text \<open>Folding the effects leaves the last authorization, or the one before them.\<close>

lemma foldl_dataplane_cases:
  "foldl dataplane a fx = a \<or> (\<exists>x \<in> set fx. x = SetAuthorization (foldl dataplane a fx))"
proof (induction fx arbitrary: a)
  case (Cons x fx)
  from Cons.IH [of "dataplane a x"] show ?case by (cases x) auto
qed simp

context enforcer
begin

lemma others_frame:
  assumes "apart port_ok port env" "port_ok port" "others_only env E s s'" "served s port"
  shows "served s' port \<and> (\<forall>b. holds s port b \<longrightarrow> holds s' port b)"
proof -
  from assms(3) obtain cs where cs: "set cs \<subseteq> (\<Union>n. set (env_others env n))" "s' = foldl (perform E) s cs"
    by (auto simp: others_only_def)
  then have "\<forall>c \<in> set cs. port_ok (call_port c) \<and> call_port c \<noteq> port" using assms(1) by (auto simp: apart_def)
  from calls_frame [OF this assms(2,4)] show ?thesis by (simp add: cs(2))
qed

lemma dispatch_tracks:
  assumes ap: "apart port_ok port env" and ok: "port_ok port" and tr: "tracks served holds port a d"
    and run: "dispatch rp (worker_deps rp env E to_str sock ps) de d = (d', r)" "enforced r"
  shows "tracks served holds port (dataplane a (de_effect de)) d'"
proof -
  let ?D = "worker_deps rp env E to_str sock ps"
  have port: "orch_port (fst d) = port" "orch_port (fst d') = port"
    using tr dispatch_orch_port [of rp ?D de d] run by (simp_all add: tracks_def)
  have srv: "served (w_enforcer (snd d)) port" using tr by (simp add: tracks_def)
  show ?thesis
  proof (cases "is_set_authorization (de_effect de)")
    case True
    then obtain b where b: "de_effect de = SetAuthorization b" by (cases "de_effect de") auto
    let ?t = "case de_mac de of None \<Rightarrow> Port | Some m \<Rightarrow> Mac m"
    let ?s = "w_enforcer (elapse env E (snd d))"
    have srv: "served ?s port"
      using others_frame [OF ap ok elapse_others srv] by blast
    have "enforcer_apply E ?s port ?t b = (w_enforcer (snd d'), Inr ())"
      using run port
      by (cases "snd (enforcer_apply E ?s port ?t b)"; cases "enforcer_apply E ?s port ?t b")
        (auto simp: dispatch_def b no_follow_def then_do_ok_iff set_authorization_def worker_boundaries map_err_def
          put_session_def enforced_def case_prod_unfold Let_def split: PortAuthorization.splits option.splits)
    from apply_confirms [OF ok srv this] port(2) show ?thesis by (simp add: tracks_def b)
  next
    case False
    then have "dataplane a (de_effect de) = a" by (cases "de_effect de") simp_all
    with tr port others_frame [OF ap ok dispatch_others [OF run(1) False]] show ?thesis by (simp add: tracks_def)
  qed
qed

text \<open>A list of effects that ends with an error has been performed up to some point.\<close>

lemma dispatch_all_tracks_upto:
  assumes "apart port_ok port env" "port_ok port" "tracks served holds port a d"
    and "dispatch_all rp (worker_deps rp env E to_str sock ps) m des d = (d', r)" "enforced r"
  shows "\<exists>n. tracks served holds port (foldl dataplane a (map de_effect (take n des))) d' \<and>
    (\<forall>fs. r = Inr fs \<longrightarrow> n = length des)"
  using assms(3-)
proof (induction des arbitrary: a d r)
  case (Cons de des)
  let ?D = "worker_deps rp env E to_str sock ps"
  obtain d1 x where d: "dispatch rp ?D de d = (d1, x)" by fastforce
  show ?case
  proof (cases x)
    case (Inl e)
    with Cons.prems(2) d have r: "d' = d1" "r = Inl e" by simp_all
    with Cons.prems(3) have "enforced x" by (simp add: Inl enforced_def)
    from dispatch_tracks [OF assms(1,2) Cons.prems(1) d this] r show ?thesis by (intro exI [of _ 1]) simp
  next
    case (Inr f)
    obtain d2 y where ds: "dispatch_all rp ?D m des d1 = (d2, y)" by fastforce
    with Cons.prems(2,3) d Inr have y: "d' = d2" "enforced y" "\<forall>fs. r = Inr fs \<longrightarrow> (\<exists>gs. y = Inr gs)"
      by (cases y; simp add: enforced_def)+
    have "tracks served holds port (dataplane a (de_effect de)) d1"
      using dispatch_tracks [OF assms(1,2) Cons.prems(1) d] by (simp add: Inr)
    from Cons.IH [OF this _ y(2)] ds y(1) obtain n where
      "tracks served holds port (foldl dataplane (dataplane a (de_effect de)) (map de_effect (take n des))) d'"
      "\<forall>fs. y = Inr fs \<longrightarrow> n = length des" by blast
    with y(3) show ?thesis by (intro exI [of _ "Suc n"]) auto
  qed
qed simp

lemma dispatch_all_tracks:
  assumes "apart port_ok port env" "port_ok port" "tracks served holds port a d"
    and "dispatch_all rp (worker_deps rp env E to_str sock ps) m des d = (d', Inr fs)"
  shows "tracks served holds port (foldl dataplane a (map de_effect des)) d'"
  using dispatch_all_tracks_upto [OF assms] by auto

lemma dispatch_all_holds:
  assumes "apart port_ok port env" "port_ok port" "holds_sanctioned rp (worker_deps rp env E to_str sock ps) served holds port d"
    and s: "\<forall>de \<in> set des. \<forall>a. de_effect de = SetAuthorization a \<longrightarrow> sanctioned rp (worker_deps rp env E to_str sock ps) a"
    and run: "dispatch_all rp (worker_deps rp env E to_str sock ps) m des d = (d', r)" "enforced r"
  shows "holds_sanctioned rp (worker_deps rp env E to_str sock ps) served holds port d'"
proof -
  let ?D = "worker_deps rp env E to_str sock ps"
  from assms(3) obtain a where a: "tracks served holds port a d" "sanctioned rp ?D a"
    by (auto simp: holds_sanctioned_def tracks_def)
  obtain n where n: "tracks served holds port (foldl dataplane a (map de_effect (take n des))) d'"
    using dispatch_all_tracks_upto [OF assms(1,2) a(1) run] by blast
  have "sanctioned rp ?D (foldl dataplane a (map de_effect (take n des)))"
    using foldl_dataplane_cases [of a "map de_effect (take n des)"] a(2) s by (auto dest!: in_set_takeD)
  with n show ?thesis by (auto simp: holds_sanctioned_def tracks_def)
qed

lemma event_loop_holds:
  assumes laws: "radius_laws rp" and ap: "apart port_ok port env" and ok: "port_ok port"
    and "holds_sanctioned rp (worker_deps rp env E to_str sock ps) served holds port (snd st)"
    and "\<forall>(m, e) \<in> set q. safe_event rp (worker_deps rp env E to_str sock ps) e"
    and "event_loop n rp (worker_deps rp env E to_str sock ps) q st = (st', r)" "enforced r"
  shows "holds_sanctioned rp (worker_deps rp env E to_str sock ps) served holds port (snd st')"
  using assms(4-)
proof (induction n arbitrary: q st)
  case 0
  then show ?case by (cases q) auto
next
  case (Suc n)
  let ?D = "worker_deps rp env E to_str sock ps"
  obtain pae d where st: "st = (pae, d)" by (cases st)
  show ?case
  proof (cases q)
    case (Cons x q1)
    obtain m e where x: "x = (m, e)" by fastforce
    obtain pae1 des where h: "handle pae m e = (pae1, des)" by fastforce
    obtain d1 r1 where d1: "dispatch_all rp ?D m des d = (d1, r1)" by fastforce
    have safe: "safe_event rp ?D e" using Suc.prems(2) by (simp add: Cons x)
    have grant: "sanctioned rp ?D a" if "de \<in> set des" "de_effect de = SetAuthorization a" for de a
      unfolding sanctioned_def
    proof (intro allI impI)
      fix y
      assume "a = Authorized y"
      with that h have "de \<in> set (snd (handle pae m e))" "de_effect de = SetAuthorization (Authorized y)" by simp_all
      from handle_authorizes [OF this] safe show "\<exists>eap. from_server rp ?D (Event.AccessAccept y eap)"
        by (auto simp: safe_event_def)
    qed
    have held: "holds_sanctioned rp ?D served holds port d1" if "enforced r1"
      using dispatch_all_holds [OF ap ok _ _ d1 that] grant Suc.prems(1) by (simp add: st)
    show ?thesis
    proof (cases r1)
      case (Inl er)
      with Suc.prems(3,4) have "st' = (pae1, d1)" "enforced r1" by (auto simp: st Cons x h d1 enforced_def)
      with held show ?thesis by simp
    next
      case (Inr fs)
      then have rest: "event_loop n rp ?D (q1 @ fs) (pae1, d1) = (st', r)"
        using Suc.prems(3) by (simp add: st Cons x h d1)
      have "safe_event rp ?D fe" if "(fm, fe) \<in> set fs" for fm fe
      proof -
        have "from_server rp ?D fe" using dispatch_all_ok [OF laws d1 [unfolded Inr]] that by blast
        then show ?thesis using from_server_reply [of rp ?D fe] by (auto simp: safe_event_def)
      qed
      moreover have "\<forall>(m, e) \<in> set q1. safe_event rp ?D e" using Suc.prems(2) by (simp add: Cons)
      ultimately have "\<forall>(m, e) \<in> set (q1 @ fs). safe_event rp ?D e" unfolding set_append by blast
      from Suc.IH [OF _ this rest Suc.prems(4)] held show ?thesis by (simp add: Inr)
    qed
  qed (use Suc.prems in simp)
qed

end

text \<open>A worker over an enforcer that keeps its contract, shared with the loops of other ports.\<close>

locale enforcing_worker = port_worker rp + enforcer E served holds port_ok
  for rp and E :: "('s, 'e) Enforcer" and served holds port_ok +
  fixes port :: string and env :: Environment
  assumes port: "port_ok port" and apart: "apart port_ok port env"
begin

lemma handle_holds:
  assumes "posture_inv rp (worker_deps rp env E to_str sock ps) served holds port (pae, orc, w)"
    and "w_enforcer w1 = w_enforcer w" "safe_event rp (worker_deps rp env E to_str sock ps) e"
    and "handle_event rp (worker_deps rp env E to_str sock ps) m e (pae, orc, w1) = (st', r)" "enforced r"
  shows "holds_sanctioned rp (worker_deps rp env E to_str sock ps) served holds port (snd st')"
proof -
  have "holds_sanctioned rp (worker_deps rp env E to_str sock ps) served holds port (orc, w1)"
    using assms(1,2) by (simp add: posture_inv_def holds_sanctioned_def)
  then show ?thesis
    using event_loop_holds [OF laws apart port, where st = "(pae, orc, w1)" and q = "[(m, e)]" and n = 64] assms(3-5)
    unfolding handle_event_def by auto
qed

lemma posture_step:
  assumes "posture_inv rp (worker_deps rp env E to_str sock ps) served holds port (pae, orc, w)"
    and "w_enforcer w1 = w_enforcer w" "safe_event rp (worker_deps rp env E to_str sock ps) e"
    and "handle_event rp (worker_deps rp env E to_str sock ps) m e (pae, orc, w1) = (st', Inr ())" "waits_inv st'"
  shows "posture_inv rp (worker_deps rp env E to_str sock ps) served holds port st'"
  using handle_holds [OF assms(1-4)] assms(5) by (cases st') (simp add: posture_inv_def holds_sanctioned_def)

lemma frame_event_safe: "frame_event p = Some e \<Longrightarrow> safe_event rp D e"
  by (auto simp: safe_event_def frame_event_def split: PacketType.splits sum.splits)

lemma channel_event_safe:
  assumes "posture_inv rp D served holds port (pae, orc, w)" "channel (w_sched w) = (m, e) # q"
  shows "safe_event rp D e"
proof -
  have "only_timers w" using assms(1) by (simp add: posture_inv_def waits_inv_def)
  moreover have "(m, e) \<in> set (channel (w_sched w))" by (simp add: assms(2))
  ultimately have "\<exists>k. e = Timer k" unfolding only_timers_def by blast
  then show ?thesis by (auto simp: safe_event_def)
qed

end

sublocale enforcing_worker \<subseteq>
  posture: loop_invariant rp "worker_deps rp env E to_str sock ps"
    "posture_inv rp (worker_deps rp env E to_str sock ps) served holds port"
  for to_str sock ps
proof
  fix pae orc w p e m and st' :: "'s Worker port_state"
  assume inv: "posture_inv rp (worker_deps rp env E to_str sock ps) served holds port (pae, orc, w)"
    and e: "frame_event p = Some e"
    and run: "handle_event rp (worker_deps rp env E to_str sock ps) m e (pae, orc, w) = (st', Inr ())"
  have "safe_event rp (worker_deps rp env E to_str sock ps) e" by (rule frame_event_safe [OF e])
  moreover have "waits_inv st'" using inv waits.frame_keeps [OF _ e run] by (simp add: posture_inv_def)
  ultimately show "posture_inv rp (worker_deps rp env E to_str sock ps) served holds port st'"
    using posture_step [OF inv _ _ run] by simp
next
  fix pae orc n and w :: "'s Worker"
  assume "posture_inv rp (worker_deps rp env E to_str sock ps) served holds port (pae, orc, w)"
  then show "posture_inv rp (worker_deps rp env E to_str sock ps) served holds port (pae, orc, fire n w)"
    by (auto simp: posture_inv_def fire_def [of n w] intro: waits.fire_keeps [of pae orc w n, unfolded fire_def])
next
  fix pae orc w m e q and st' :: "'s Worker port_state"
  assume inv: "posture_inv rp (worker_deps rp env E to_str sock ps) served holds port (pae, orc, w)"
    and c: "channel (w_sched w) = (m, e) # q"
    and run: "handle_event rp (worker_deps rp env E to_str sock ps) m e (pae, orc, pop_channel w) = (st', Inr ())"
  have "safe_event rp (worker_deps rp env E to_str sock ps) e" by (rule channel_event_safe [OF inv c])
  moreover have "waits_inv st'" using inv waits.channel_keeps [OF _ c run] by (simp add: posture_inv_def)
  ultimately show "posture_inv rp (worker_deps rp env E to_str sock ps) served holds port st'"
    using posture_step [OF inv _ _ run] by (simp add: pop_channel_def)
qed

context enforcing_worker
begin

text \<open>
  A run without an error of the enforcer has closed the port, and then either ended
  before its loop or gone into it.
\<close>

lemma run_port_starts:
  assumes run: "run_port rp env E to_str ps s conn is = (st, r)" "enforced r" and p: "setup_port ps = port"
  obtains (ended) e where "r = Inl e" "tracks served holds port Unauthorized (snd st)"
  | (looped) sock orc w where "eapol_open (env_kernel env) port = Inr sock"
    "tracks served holds port Unauthorized (orc, w)" "settled_inv (port_new (pae_cfg ps), orc, w)"
    "worker_loop rp (worker_deps rp env E to_str sock ps) is (port_new (pae_cfg ps), orc, w) = (st, r)"
proof -
  obtain s1 t where "ensure_eapol_trap E s port = (s1, t)" by fastforce
  moreover from this have "t = Inr ()" using run p by (cases t) (auto simp: run_port_def enforced_def Let_def)
  ultimately have t: "ensure_eapol_trap E s port = (s1, Inr ())" by simp
  let ?start = "(orchestrator_new port (setup_ctx ps), worker_start s1 conn)"
  have start: "tracks served holds port Unauthorized ?start"
    using ensure_confirms [OF port t] by (simp add: tracks_def orchestrator_new_def worker_start_def)
  show thesis
  proof (cases "eapol_open (env_kernel env) port")
    case (Inl e)
    with run t p have "snd st = ?start" "r = Inl (Eapol e)" by (auto simp: run_port_def Let_def)
    with start ended show ?thesis by simp
  next
    case sock: (Inr sock)
    let ?D = "worker_deps rp env E to_str sock ps"
    let ?close = "\<lparr>de_mac = None, de_effect = SetAuthorization Unauthorized\<rparr>"
    obtain d y where y: "dispatch rp ?D ?close ?start = (d, y)" by fastforce
    have r: "case y of Inl e \<Rightarrow> st = (port_new (pae_cfg ps), d) \<and> r = Inl e
      | Inr _ \<Rightarrow> worker_loop rp ?D is (port_new (pae_cfg ps), d) = (st, r)"
      using run(1) t p sock y by (cases y) (auto simp: run_port_def port_enable_def Let_def)
    then have "enforced y" using run(2) by (cases y) (auto simp: enforced_def)
    from dispatch_tracks [OF apart port start y this] have tr: "tracks served holds port Unauthorized d" by simp
    show ?thesis
    proof (cases y)
      case (Inl e)
      with r tr ended show ?thesis by simp
    next
      case (Inr f)
      have "apply_effects rp ?D (port_enable (port_new (pae_cfg ps))) ?start = ((fst d, snd d), Inr ())"
        using y Inr by (simp add: port_enable_def)
      from looped [OF sock _ start_settled_inv [OF this]] tr r Inr show ?thesis by simp
    qed
  qed
qed

text \<open>The last turn of the loop, whatever error it ends with.\<close>

lemma turn_end_holds:
  assumes inv: "posture_inv rp (worker_deps rp env E to_str sock ps) served holds port st"
    and run: "loop_turn rp (worker_deps rp env E to_str sock ps) i st = (st', r)" "enforced r"
  shows "holds_sanctioned rp (worker_deps rp env E to_str sock ps) served holds port (snd st')"
proof -
  let ?D = "worker_deps rp env E to_str sock ps"
  obtain pae orc w where st: "st = (pae, orc, w)" by (cases st)
  have same: "holds_sanctioned rp ?D served holds port (orc, w)"
    using inv by (simp add: st posture_inv_def holds_sanctioned_def)
  show ?thesis
  proof (cases i)
    case (FromSocket attempts)
    with run same inv show ?thesis
      by (auto simp: st dispatch_frame_def split: option.splits sum.splits dest: frame_event_safe intro: handle_holds)
  next
    case (Wake n)
    with run same show ?thesis by (auto simp: st fire_def holds_sanctioned_def)
  next
    case FromChannel
    show ?thesis
    proof (cases "channel (w_sched w)")
      case Nil
      with run same FromChannel show ?thesis by (auto simp: st)
    next
      case (Cons x q)
      obtain m e where x: "x = (m, e)" by fastforce
      have "handle_event rp ?D m e (pae, orc, pop_channel w) = (st', r)"
        using run FromChannel by (simp add: st Cons x)
      from handle_holds [OF inv [unfolded st] _ channel_event_safe [OF inv [unfolded st] Cons [unfolded x]] this run(2)]
      show ?thesis by (simp add: pop_channel_def)
    qed
  qed
qed

lemma loop_end_holds:
  assumes "posture_inv rp (worker_deps rp env E to_str sock ps) served holds port st"
    and "worker_loop rp (worker_deps rp env E to_str sock ps) is st = (st', r)" "enforced r"
  shows "holds_sanctioned rp (worker_deps rp env E to_str sock ps) served holds port (snd st')"
  using assms
proof (induction "is" arbitrary: st)
  case Nil
  then show ?case by (cases st') (auto simp: posture_inv_def holds_sanctioned_def)
next
  case (Cons i "is")
  let ?D = "worker_deps rp env E to_str sock ps"
  obtain st1 x where t: "loop_turn rp ?D i st = (st1, x)" by fastforce
  show ?case
  proof (cases x)
    case (Inl e)
    with Cons.prems(2,3) t have "st' = st1" "enforced x" by simp_all
    with turn_end_holds [OF Cons.prems(1) t] show ?thesis by simp
  next
    case (Inr u)
    with Cons.prems(2) t have "worker_loop rp ?D is st1 = (st', r)" by simp
    moreover have "posture_inv rp ?D served holds port st1"
      using posture.turn_keeps [OF Cons.prems(1)] t Inr by simp
    ultimately show ?thesis using Cons.IH Cons.prems(3) by blast
  qed
qed

text \<open>A run that has ended, or is going on, without an error of the enforcer.\<close>

lemma run_port_posture:
  assumes run: "run_port rp env E to_str ps s conn is = ((pae, orc, w), r)" "enforced r" and p: "setup_port ps = port"
  shows "\<exists>a. holds (w_enforcer w) port a \<and> (\<forall>x. a = Authorized x \<longrightarrow>
    (\<exists>sock eap. eapol_open (env_kernel env) port = Inr sock \<and>
      from_server rp (worker_deps rp env E to_str sock ps) (Event.AccessAccept x eap)))"
  using run p
proof (cases rule: run_port_starts)
  case ended
  then show ?thesis by (auto simp: tracks_def)
next
  case (looped sock orc1 w1)
  let ?D = "worker_deps rp env E to_str sock ps"
  have "posture_inv rp ?D served holds port (port_new (pae_cfg ps), orc1, w1)"
    using looped(2,3) by (auto simp: posture_inv_def tracks_def settled_inv_def sanctioned_def)
  from loop_end_holds [OF this looped(4) run(2)] looped(1) show ?thesis
    by (fastforce simp: holds_sanctioned_def sanctioned_def)
qed

end

interpretation recorded_worker: enforcing_worker
  rfc_proto recording_enforcer "\<lambda>calls p. recorded calls p \<noteq> None" "\<lambda>calls p a. recorded calls p = Some a" "\<lambda>_. True"
  port "env\<lparr>env_others := \<lambda>_. []\<rparr>" for port env
  by unfold_locales (simp_all add: apart_def)

end
