(* ===== verification/Authd_Properties.thy ===== *)
theory Authd_Properties
  imports Authd_Dataplane
begin

text \<open>
  Properties of the daemon as a whole: the worker loop over every environment and
  every order of inputs, and the witnesses' sample port.
\<close>

section \<open>Properties\<close>

text \<open>
  C5. The daemon never leaves a session waiting for nothing: at every point of a
  running port loop, under every environment and every order of inputs, a session
  that waits for its peer, the server or a retry has a live timer task for that
  wait, or the expiry is already queued for the loop.
\<close>

theorem daemon_never_stuck:
  assumes "radius_laws rp" and "run_port rp env E to_str ps s conn is = ((pae, orc, w), Inr ())"
    and "x \<in> set (sessions pae)" and "awaited (cfg pae) (state x) = Some k"
  shows "k \<in> live_timers (w_sched w) (mac x) \<or> (mac x, Timer k) \<in> set (channel (w_sched w))"
proof -
  have "sessions_wait (outstanding_timers w) pae"
    using run_port_settled_inv [OF assms(1,2)] by (simp add: settled_inv_def waits_inv_def)
  with assms(3) have "waits_ok (cfg pae) x (outstanding_timers w (mac x))" by (simp add: sessions_wait_def)
  with assms(4) show ?thesis by (auto simp: waits_ok_def outstanding_timers_def)
qed

text \<open>A port with one supplicant that has sent an EAPOL-Start.\<close>

definition sample_env :: Environment where
  "sample_env = \<lparr>env_kernel = sample_kernel, env_tx = (\<lambda>_ _ _ _. TxDone 0),
     env_peer = (\<lambda>_. \<lparr>arrivals = [], reads_end = None, writes_end = None\<rparr>), env_random = (\<lambda>_. replicate 16 9),
     env_wakes = (\<lambda>_. []), env_others = (\<lambda>_. [])\<rparr>"

lemma elapse_sample [simp]: "elapse sample_env E w = w\<lparr>w_moment := Suc (w_moment w)\<rparr>"
  by (simp add: elapse_def sample_env_def)

lemma sample_apart: "apart port_ok port sample_env"
  by (simp add: apart_def sample_env_def)

definition sample_setup :: PortSetup where
  "sample_setup = \<lparr>setup_port = ''Ethernet0'', switch_mac = (2, 0, 0, 0, 0, 254), pae_cfg = pae_config_default,
     setup_timers = timers_default, setup_secret = [1, 2], setup_ctx = sample_ctx\<rparr>"

definition start_frame :: bytes where
  "start_frame = mac_octets PAE_GROUP_ADDR @ mac_octets (2, 0, 0, 0, 0, 1) @ [0x88, 0x8E, 3, 1, 0, 0]"

abbreviation sample_run :: "worker_input list \<Rightarrow> Call list Worker port_state \<times> (AuthdError + unit)" where
  "sample_run is \<equiv> run_port rfc_proto sample_env recording_enforcer (\<lambda>_. []) sample_setup [] sample_connection is"

lemma start_frame_decodes:
  "decode_frame start_frame = Inr \<lparr>ethernet = \<lparr>dst = PAE_GROUP_ADDR, src = (2, 0, 0, 0, 0, 1),
     ethertype = ETHERTYPE_EAPOL\<rparr>, pdu = pdu_new PacketType.Start []\<rparr>"
  by (simp add: decode_frame_iff frame_wf_def canonical_type_def encode_frame_def pdu_encode_into_def pdu_new_def
      header_encode_into_def start_frame_def u16_try_from_def u16_to_be_def ETHERTYPE_EAPOL_def PROTOCOL_VERSION_2010_def)

lemma start_frame_fits: "take FRAME_CAP start_frame = start_frame"
  by (simp add: start_frame_def PAE_GROUP_ADDR_def FRAME_CAP_def)

abbreviation sample_session :: PortSession where
  "sample_session \<equiv> fst (step (session_new (2, 0, 0, 0, 0, 1)) Enable pae_config_default)"

abbreviation sample_deps :: "Call list Worker Deps" where
  "sample_deps \<equiv>
     worker_deps rfc_proto sample_env recording_enforcer (\<lambda>_. []) \<lparr>fd = 5, ifindex = 3\<rparr> sample_setup"

abbreviation sample_supplicant :: EapolSupplicant where
  "sample_supplicant \<equiv> \<lparr>sup_sock = \<lparr>fd = 5, ifindex = 3\<rparr>, sup_src = switch_mac sample_setup\<rparr>"

text \<open>Effects that need no server succeed in the sample environment.\<close>

fun local_effect :: "Effect \<Rightarrow> bool" where
  "local_effect (TxEapToSupplicant eap) \<longleftrightarrow> length eap < 65536"
| "local_effect (ToAuthServer _) \<longleftrightarrow> False"
| "local_effect (StartMab _) \<longleftrightarrow> False"
| "local_effect (Accounting _) \<longleftrightarrow> False"
| "local_effect _ \<longleftrightarrow> True"

lemma sample_send:
  assumes "length eap < 65536"
  shows "\<exists>w'. send_eap sample_env sample_supplicant w m eap = (w', Inr ())"
proof -
  obtain frame where f: "encode_frame (pdu_new PacketType.Eap eap) m (switch_mac sample_setup) = Inr frame"
    using assms by (simp add: encode_frame_def pdu_encode_into_def pdu_new_def u16_try_from_def)
  then have "14 \<le> length frame" using encoded_frame_length by fastforce
  with f show ?thesis
    by (simp add: send_eap_def sample_env_def eapol_send_def ETHERNET_HEADER_LEN_def)
qed

lemma sample_dispatch:
  assumes "local_effect (de_effect de)"
  shows "\<exists>st'. dispatch rfc_proto sample_deps de st = (st', Inr None)"
proof (cases "de_effect de")
  case (TxEapToSupplicant eap)
  with assms have len: "length eap < 65536" by simp
  show ?thesis
  proof (cases "de_mac de")
    case (Some m)
    obtain w' where "send_eap sample_env sample_supplicant (elapse sample_env recording_enforcer (snd st)) m eap = (w', Inr ())"
      using sample_send [OF len] by blast
    then have "dep_send_eap sample_deps (snd st) m eap = (w', Inr ())" by (simp add: worker_deps_def)
    with TxEapToSupplicant Some show ?thesis by (simp add: dispatch_def no_follow_def)
  qed (simp add: dispatch_def TxEapToSupplicant)
next
  case (SetAuthorization a)
  then show ?thesis
    by (cases st) (simp add: dispatch_def no_follow_def set_authorization_def worker_boundaries recording_enforcer_def
        map_err_def Let_def)
qed (use assms in \<open>auto simp: dispatch_def split: option.splits\<close>)

lemma sample_dispatch_all:
  "\<forall>de \<in> set des. local_effect (de_effect de) \<Longrightarrow> \<exists>st'. dispatch_all rfc_proto sample_deps m des st = (st', Inr [])"
proof (induction des arbitrary: st)
  case (Cons de des)
  then obtain st1 st2 where "dispatch rfc_proto sample_deps de st = (st1, Inr None)"
    "dispatch_all rfc_proto sample_deps m des st1 = (st2, Inr [])"
    using sample_dispatch by (metis list.set_intros)
  then show ?case by simp
qed simp

lemma sample_handle:
  assumes "handle pae m e = (pae1, des)" "\<forall>de \<in> set des. local_effect (de_effect de)"
  shows "\<exists>d'. handle_event rfc_proto sample_deps m e (pae, d) = ((pae1, d'), Inr ())"
proof -
  obtain d' where "dispatch_all rfc_proto sample_deps m des d = (d', Inr [])"
    using sample_dispatch_all [OF assms(2)] by blast
  with assms(1) show ?thesis by (simp add: handle_event_unroll [OF rfc_proto_laws])
qed

lemma sample_run_begins:
  "\<exists>orc w. sample_run is = worker_loop rfc_proto sample_deps is (port_new pae_config_default, orc, w)"
proof -
  obtain s1 where "ensure_eapol_trap recording_enforcer [] (setup_port sample_setup) = (s1, Inr ())"
    by (simp add: recording_enforcer_def)
  moreover obtain orc w where "dispatch rfc_proto sample_deps \<lparr>de_mac = None, de_effect = SetAuthorization Unauthorized\<rparr>
      (orchestrator_new (setup_port sample_setup) (setup_ctx sample_setup), worker_start s1 sample_connection) =
      ((orc, w), Inr None)"
    using sample_dispatch [of "\<lparr>de_mac = None, de_effect = SetAuthorization Unauthorized\<rparr>"] by (metis DirectedEffect.select_convs(2) local_effect.simps(5) surj_pair)
  moreover have "eapol_open (env_kernel sample_env) (setup_port sample_setup) = Inr \<lparr>fd = 5, ifindex = 3\<rparr>"
    using sample_open by (simp add: sample_setup_def sample_env_def)
  ultimately have "sample_run is = worker_loop rfc_proto sample_deps is (port_new (pae_cfg sample_setup), orc, w)"
    by (simp add: run_port_def port_enable_def Let_def)
  then show ?thesis by (auto simp: sample_setup_def)
qed

lemma sample_run_start:
  "\<exists>orc w. sample_run [FromSocket [Done start_frame]] =
     ((\<lparr>cfg = pae_config_default, sessions = [sample_session]\<rparr>, orc, w), Inr ())"
proof -
  obtain orc w where "sample_run [FromSocket [Done start_frame]] =
      worker_loop rfc_proto sample_deps [FromSocket [Done start_frame]] (port_new pae_config_default, orc, w)"
    using sample_run_begins by blast
  also have "\<dots> = then_do (handle_event rfc_proto sample_deps (2, 0, 0, 0, 0, 1) EapolStart
      (port_new pae_config_default, orc, w)) (\<lambda>_. worker_loop rfc_proto sample_deps [])"
    by (simp add: start_frame_fits dispatch_frame_def start_frame_decodes frame_event_def pdu_new_def)
  finally have run: "sample_run [FromSocket [Done start_frame]] = \<dots>" .
  have "handle (port_new pae_config_default) (2, 0, 0, 0, 0, 1) EapolStart =
      (\<lparr>cfg = pae_config_default, sessions = [sample_session]\<rparr>,
       decorate MultiAuth (2, 0, 0, 0, 0, 1) (snd (step (session_new (2, 0, 0, 0, 0, 1)) Enable pae_config_default)))"
    by (simp add: handle_def port_new_def can_admit_def admit_def prune_def step_def step_defs pae_config_default_def)
  moreover have "\<forall>de \<in> set (decorate MultiAuth (2, 0, 0, 0, 0, 1)
      (snd (step (session_new (2, 0, 0, 0, 0, 1)) Enable pae_config_default))). local_effect (de_effect de)"
    by (simp add: decorate_def step_def step_defs request_identity_def)
  ultimately obtain d' where "handle_event rfc_proto sample_deps (2, 0, 0, 0, 0, 1) EapolStart
      (port_new pae_config_default, orc, w) = ((\<lparr>cfg = pae_config_default, sessions = [sample_session]\<rparr>, d'), Inr ())"
    using sample_handle by blast
  with run show ?thesis by (cases d') simp
qed

theorem daemon_never_stuck_witness:
  "\<exists>orc w. sample_run [FromSocket [Done start_frame]] =
       ((\<lparr>cfg = pae_config_default, sessions = [sample_session]\<rparr>, orc, w), Inr ()) \<and>
     (TimerKind.TxPeriod \<in> live_timers (w_sched w) (2, 0, 0, 0, 0, 1) \<or>
      ((2, 0, 0, 0, 0, 1), Timer TimerKind.TxPeriod) \<in> set (channel (w_sched w)))"
proof -
  obtain orc w where run: "sample_run [FromSocket [Done start_frame]] =
      ((\<lparr>cfg = pae_config_default, sessions = [sample_session]\<rparr>, orc, w), Inr ())"
    using sample_run_start by blast
  from daemon_never_stuck [OF rfc_proto_laws run, of sample_session TimerKind.TxPeriod] run show ?thesis
    by (simp add: step_def step_defs session_new_def)
qed

text \<open>
  C34. The critical VLAN is dead code in the daemon: every reply is handled before
  the next input, and a server that does not answer is an error that ends the loop,
  so that in no run does a session wait for the server between two inputs or reach
  the critical-VLAN fallback, whatever VLAN is configured for it.
\<close>

theorem critical_vlan_unreachable:
  assumes "radius_laws rp" and "run_port rp env E to_str ps s conn is = ((pae, orc, w), Inr ())"
    and "x \<in> set (sessions pae)"
  shows "state x \<noteq> State.AuthServer \<and> state x \<noteq> State.Fallback Critical"
  using run_port_settled_inv [OF assms(1,2)] assms(3) by (auto simp: settled_inv_def settled_but_def settled_def)

theorem critical_vlan_unreachable_witness:
  "\<exists>pae orc w. sample_run [FromSocket [Done start_frame]] = ((pae, orc, w), Inr ()) \<and> sample_session \<in> set (sessions pae) \<and>
     state sample_session \<noteq> State.Fallback Critical"
proof -
  obtain orc w where run: "sample_run [FromSocket [Done start_frame]] =
      ((\<lparr>cfg = pae_config_default, sessions = [sample_session]\<rparr>, orc, w), Inr ())"
    using sample_run_start by blast
  from critical_vlan_unreachable [OF rfc_proto_laws run, of sample_session] run show ?thesis by auto
qed

text \<open>
  C23. What a supplicant sends is what the PAE gets: the octets of an EAP packet, framed
  by the codec and padded by the link, reach the session of the frame's source MAC
  as one event with the code, identifier and type of that packet and all its octets.
\<close>

theorem frame_delivers_eap:
  assumes "encode_frame (pdu_new PacketType.Eap eap) d m = Inr frame" and "eap_decode eap = Inr p"
    and "length (frame @ pad) \<le> FRAME_CAP"
  shows "loop_turn rp D (FromSocket [WouldBlock, Done (frame @ pad)]) st =
    handle_event rp D m (EapFromSupplicant
      \<lparr>in_code = eap_code p, in_identifier = eap_identifier p, in_eap_type = eap_type p, in_packet = eap\<rparr>) st"
proof -
  let ?f = "\<lparr>ethernet = \<lparr>dst = d, src = m, ethertype = ETHERTYPE_EAPOL\<rparr>, pdu = pdu_new PacketType.Eap eap\<rparr>"
  have "decode_frame (frame @ pad) = Inr ?f"
    using assms(1) by (auto simp: decode_frame_iff frame_wf_def canonical_type_def pdu_new_def)
  with assms(2,3) show ?thesis
    by (simp add: dispatch_frame_def frame_event_def pdu_new_def)
qed

text \<open>An EAP-Response/Identity with a line feed in the name.\<close>

definition bad_identity :: bytes where
  "bad_identity = [2, 1, 0, 7, 1, 97, 10]"

lemma bad_identity_decodes:
  "eap_decode bad_identity = Inr \<lparr>eap_code = EapCode.Response, eap_identifier = 1,
     eap_type = Some EapType.Identity, type_data = [97, 10]\<rparr>"
  by (simp add: bad_identity_def eap_decode_def eap_decode_typed_def codec_simps get_upto_def get_range_def get_at_def
      u16_from_be_def eap_code_from_u8_def eap_type_from_u8_def has_type_def)

lemma bad_identity_frame:
  "\<exists>frame. encode_frame (pdu_new PacketType.Eap bad_identity) d m = Inr frame \<and> length frame = 25"
  using encoded_frame_length [of "pdu_new PacketType.Eap bad_identity" d m]
  by (cases "encode_frame (pdu_new PacketType.Eap bad_identity) d m")
    (auto simp: encode_frame_def pdu_encode_into_def pdu_new_def u16_try_from_def bad_identity_def)

abbreviation sample_start :: "Call list Worker port_state" where
  "sample_start \<equiv> (port_new pae_config_default, sample_orch, worker_start [] sample_connection)"

theorem frame_delivers_eap_witness:
  "\<exists>frame. encode_frame (pdu_new PacketType.Eap bad_identity) PAE_GROUP_ADDR (2, 0, 0, 0, 0, 1) = Inr frame \<and>
     loop_turn rfc_proto sample_deps (FromSocket [WouldBlock, Done (frame @ replicate 35 0)]) sample_start =
     handle_event rfc_proto sample_deps (2, 0, 0, 0, 0, 1) (EapFromSupplicant
      \<lparr>in_code = EapCode.Response, in_identifier = 1, in_eap_type = Some EapType.Identity, in_packet = bad_identity\<rparr>)
      sample_start"
proof -
  obtain frame where f: "encode_frame (pdu_new PacketType.Eap bad_identity) PAE_GROUP_ADDR (2, 0, 0, 0, 0, 1) = Inr frame"
    and len: "length frame = 25" using bad_identity_frame by blast
  have "length (frame @ replicate 35 0) \<le> FRAME_CAP" by (simp add: len FRAME_CAP_def)
  from frame_delivers_eap [OF f bad_identity_decodes this, of rfc_proto sample_deps sample_start] f show ?thesis by auto
qed

lemma to_auth_server_bad:
  assumes laws: "radius_laws rp" and "eap_identity eap = Some name" "\<And>n. user_name name \<noteq> Inr n"
  shows "\<exists>st' e. to_auth_server rp D m eap st = (st', Inl e)"
proof -
  obtain st' r where t: "to_auth_server rp D m eap st = (st', r)" by fastforce
  obtain orc w where st: "st = (orc, w)" by fastforce
  have "\<not> (\<exists>q. access_request_eap rp ctx i ra (Some name) ls eap sec = Inr q)" for ctx i ra ls sec
    using assms by (auto simp: access_request_eap_iff [OF laws] identity_ok_def)
  then have "\<exists>x. access_request_eap rp ctx i ra (Some name) ls eap sec = Inl x" for ctx i ra ls sec
    by (metis sum.exhaust)
  then show ?thesis
    using assms(2)
    by (auto simp: to_auth_server_def build_eap_request_def next_identifier_def round_trip_def then_do_def map_err_def st
        case_prod_unfold Let_def split: sum.splits) (metis sum.distinct(1))+
qed

lemma response_effects:
  assumes "port_session pae m = Some x" "state x = State.Connecting \<or> state x = State.Authenticating"
    and "in_code eap = EapCode.Response"
  shows "\<exists>k. map de_effect (snd (handle pae m (EapFromSupplicant eap))) =
      [CancelTimer k, ToAuthServer (in_packet eap), ArmTimer TimerKind.ServerTimeout]"
proof -
  have "m \<in> mac ` set (sessions pae)" using assms(1) by (auto simp: port_session_def find_Some_iff)
  then obtain ss fx where f: "step_first m (EapFromSupplicant eap) (cfg pae) (sessions pae) = Some (ss, fx)"
    using step_first_None [of m "EapFromSupplicant eap" "cfg pae" "sessions pae"]
    by (metis option.exhaust surj_pair)
  from step_first_Some [OF f] obtain xs y ys where y: "sessions pae = xs @ y # ys" "mac y = m" "m \<notin> mac ` set xs"
    "fx = snd (step y (EapFromSupplicant eap) (cfg pae))" by blast
  have "List.find (\<lambda>s. mac s = m) xs = None" using y(3) by (auto simp: find_None_iff)
  then have "x = y" using assms(1) y by (simp add: port_session_def find_append)
  with assms(2,3) y have "\<exists>k. fx = [CancelTimer k, ToAuthServer (in_packet eap), ArmTimer TimerKind.ServerTimeout]"
    by (auto simp: step_def step_in_state_def)
  then show ?thesis by (simp add: handle_known [OF f])
qed

text \<open>A response that cannot be relayed ends the loop, and the dataplane is as it was.\<close>

lemma relay_error_ends_loop:
  assumes laws: "radius_laws rp"
    and x: "port_session pae m = Some x" "state x = State.Connecting \<or> state x = State.Authenticating"
    and eap: "eap_decode eap = Inr p" "eap_code p = EapCode.Response"
    and frame: "encode_frame (pdu_new PacketType.Eap eap) d m = Inr frame" "length frame \<le> FRAME_CAP"
    and err: "\<And>w1. w_conn w1 = w_conn w \<Longrightarrow> w_requests w1 = w_requests w \<Longrightarrow>
      \<exists>st' e. to_auth_server rp (worker_deps rp env E to_str sock ps) m eap (orc, w1) = (st', Inl e)"
  shows "\<exists>pae' orc' w' e. worker_loop rp (worker_deps rp env E to_str sock ps) (FromSocket [Done frame] # is) (pae, orc, w) =
    ((pae', orc', w'), Inl e) \<and> others_only env E (w_enforcer w) (w_enforcer w')"
proof -
  let ?D = "worker_deps rp env E to_str sock ps"
  let ?ev = "EapFromSupplicant \<lparr>in_code = eap_code p, in_identifier = eap_identifier p, in_eap_type = eap_type p,
    in_packet = eap\<rparr>"
  obtain pae1 des where h: "handle pae m ?ev = (pae1, des)" by fastforce
  obtain k where "map de_effect des = [CancelTimer k, ToAuthServer eap, ArmTimer TimerKind.ServerTimeout]"
    using response_effects [OF x, of "\<lparr>in_code = eap_code p, in_identifier = eap_identifier p,
        in_eap_type = eap_type p, in_packet = eap\<rparr>"] eap(2) h by auto
  then obtain d1 d2 d3 where des: "des = [d1, d2, d3]" "de_effect d1 = CancelTimer k"
    "de_effect d2 = ToAuthServer eap" "de_effect d3 = ArmTimer TimerKind.ServerTimeout" by auto
  have "\<forall>de \<in> set des. de_mac de = Some m \<or> is_set_authorization (de_effect de)"
    using handle_directed [of pae m ?ev] by (simp add: h)
  with des have m: "de_mac d1 = Some m" "de_mac d2 = Some m" by auto
  let ?w1 = "(elapse env E w)\<lparr>w_sched := scheduler_cancel (w_sched (elapse env E w)) m k\<rparr>"
  have one: "dispatch rp ?D d1 (orc, w) = ((orc, ?w1), Inr None)"
    using des m by (simp add: dispatch_def worker_boundaries)
  obtain st2 e where two: "dispatch rp ?D d2 (orc, ?w1) = (st2, Inl e)"
    using err [of ?w1] des m by (auto simp: dispatch_def)
  have all: "dispatch_all rp ?D m des (orc, w) = (st2, Inl e)" by (simp add: des(1) one two)
  have "others_only env E (w_enforcer w) (w_enforcer (snd st2))"
    using dispatch_all_others [OF all] des by simp
  moreover have "handle_event rp ?D m ?ev (pae, orc, w) = ((pae1, st2), Inl e)"
    by (simp add: handle_event_unroll [OF laws] h all)
  moreover have "decode_frame frame = Inr \<lparr>ethernet = \<lparr>dst = d, src = m, ethertype = ETHERTYPE_EAPOL\<rparr>,
      pdu = pdu_new PacketType.Eap eap\<rparr>"
    using frame(1) by (auto simp: decode_frame_iff frame_wf_def canonical_type_def pdu_new_def)
  ultimately show ?thesis
    using eap(1) frame(2) by (cases st2) (simp add: dispatch_frame_def frame_event_def pdu_new_def)
qed

text \<open>
  C36. One unauthenticated frame ends the port's service: a connecting supplicant that
  answers with an identity that is not a legal \<open>User-Name\<close> makes the loop end with an
  error, and no later input of any supplicant on the port is looked at.
\<close>

theorem bad_identity_stops_port:
  assumes laws: "radius_laws rp"
    and x: "port_session pae m = Some x" "state x = State.Connecting"
    and eap: "eap_decode eap = Inr p" "identity p = Some name" "\<And>n. user_name name \<noteq> Inr n"
    and frame: "encode_frame (pdu_new PacketType.Eap eap) d m = Inr frame" "length frame \<le> FRAME_CAP"
  shows "\<exists>st' e. worker_loop rp (worker_deps rp env E to_str sock ps) (FromSocket [Done frame] # is) (pae, orc, w) =
    (st', Inl e)"
proof -
  have "eap_code p = EapCode.Response" using eap(2) by (auto simp: identity_def split: if_splits)
  moreover have "eap_identity eap = Some name" using eap by (simp add: eap_identity_def)
  then have "\<exists>st' e. to_auth_server rp (worker_deps rp env E to_str sock ps) m eap (orc, w1) = (st', Inl e)" for w1
    using to_auth_server_bad [OF laws _ eap(3)] by blast
  ultimately show ?thesis using relay_error_ends_loop [OF laws x(1) _ eap(1) _ frame] x(2) by blast
qed

theorem bad_identity_stops_port_witness:
  "\<exists>orc w frame st' e. sample_run [FromSocket [Done start_frame]] =
       ((\<lparr>cfg = pae_config_default, sessions = [sample_session]\<rparr>, orc, w), Inr ()) \<and>
     worker_loop rfc_proto sample_deps [FromSocket [Done frame], FromSocket [Done start_frame]]
       (\<lparr>cfg = pae_config_default, sessions = [sample_session]\<rparr>, orc, w) = (st', Inl e)"
proof -
  obtain orc w where run: "sample_run [FromSocket [Done start_frame]] =
      ((\<lparr>cfg = pae_config_default, sessions = [sample_session]\<rparr>, orc, w), Inr ())"
    using sample_run_start by blast
  obtain frame where f: "encode_frame (pdu_new PacketType.Eap bad_identity) PAE_GROUP_ADDR (2, 0, 0, 0, 0, 1) = Inr frame"
    and len: "length frame = 25" using bad_identity_frame by blast
  have "port_session \<lparr>cfg = pae_config_default, sessions = [sample_session]\<rparr> (2, 0, 0, 0, 0, 1) = Some sample_session"
    "state sample_session = State.Connecting"
    by (simp_all add: port_session_def step_def step_defs session_new_def)
  moreover have "user_name [97, 10] \<noteq> Inr n" for n
    by (simp add: user_name_Inr_iff utf8_chars_ascii is_control_def)
  ultimately have "\<exists>st' e. worker_loop rfc_proto sample_deps (FromSocket [Done frame] # [FromSocket [Done start_frame]])
      (\<lparr>cfg = pae_config_default, sessions = [sample_session]\<rparr>, orc, w) = (st', Inl e)"
    by (intro bad_identity_stops_port [OF rfc_proto_laws _ _ bad_identity_decodes _ _ f, where name = "[97, 10]"])
      (simp_all add: identity_def len FRAME_CAP_def)
  with run show ?thesis by blast
qed

lemma recv_silent: "inbound (stream c) = [] \<Longrightarrow> \<exists>c' e. recv rp c = (c', Inl e)"
  by (cases "read_error (stream c)") (simp_all add: recv_def read_packet_def read_exact_def RADIUS_HEADER_LEN_def)

lemma request_silent:
  assumes "inbound (stream c) = []"
  shows "\<exists>c' e. request rp c req = (c', Inl e)"
proof -
  obtain st r where w: "write_packet rp (stream c) req = (st, r)" by fastforce
  then have "inbound st = []"
    using assms by (auto simp: write_packet_def split: sum.splits option.splits)
  then obtain c' e where "recv rp (c\<lparr>stream := st\<rparr>) = (c', Inl e)"
    using recv_silent [of "c\<lparr>stream := st\<rparr>" rp] by auto
  with w show ?thesis by (cases r) (simp_all add: request_def)
qed

lemma silent_exchange:
  assumes "inbound (stream (w_conn w)) = []" "arrivals (env_peer env (w_requests w)) = []"
  shows "\<exists>w' e. access_request rp env w req = (w', Inl (RadSec e))"
proof -
  let ?c = "(w_conn w)\<lparr>stream := peer_turn (env_peer env (w_requests w)) (stream (w_conn w))\<rparr>"
  obtain c' e where "request rp ?c req = (c', Inl e)"
    using request_silent [of ?c rp req] assms by (auto simp: peer_turn_def)
  then show ?thesis by (simp add: access_request_def exchange_def)
qed

text \<open>
  C35. A server that does not answer ends the port's service and leaves the port as it is:
  when a supplicant's response cannot be answered before the deadline, the loop ends with
  an error, no later input is looked at, and the enforcer sees nothing but calls of other
  ports; a port that is open during a re-authentication stays open with nobody to time it out.
\<close>

theorem silent_server_ends_service:
  assumes laws: "radius_laws rp"
    and x: "port_session pae m = Some x" "state x = State.Connecting \<or> state x = State.Authenticating"
    and eap: "eap_decode eap = Inr p" "eap_code p = EapCode.Response"
    and frame: "encode_frame (pdu_new PacketType.Eap eap) d m = Inr frame" "length frame \<le> FRAME_CAP"
    and silent: "inbound (stream (w_conn (w :: 's Worker))) = []" "arrivals (env_peer env (w_requests w)) = []"
  shows "\<exists>pae' orc' w' e. worker_loop rp (worker_deps rp env E to_str sock ps) (FromSocket [Done frame] # is) (pae, orc, w) =
    ((pae', orc', w'), Inl e) \<and> others_only env E (w_enforcer w) (w_enforcer w')"
proof (rule relay_error_ends_loop [OF laws x eap frame])
  fix w1 :: "'s Worker"
  assume w1: "w_conn w1 = w_conn w" "w_requests w1 = w_requests w"
  let ?w = "elapse env E (w1\<lparr>w_randoms := Suc (w_randoms w1)\<rparr>)"
  obtain rs built where b: "build_eap_request rp (ctx_for orc m) (eap_identity eap) eap (env_random env (w_randoms w1))
      (setup_secret ps) (ss_radius (orch_session orc m)) = (rs, built)" by fastforce
  show "\<exists>st' e. to_auth_server rp (worker_deps rp env E to_str sock ps) m eap (orc, w1) = (st', Inl e)"
  proof (cases built)
    case (Inl e)
    with b show ?thesis by (simp add: to_auth_server_def worker_deps_def round_trip_def)
  next
    case (Inr req)
    obtain w' e where "access_request rp env ?w req = (w', Inl (RadSec e))"
      using silent_exchange [of ?w env rp req] silent w1 by auto
    with b Inr show ?thesis by (simp add: to_auth_server_def worker_deps_def round_trip_def)
  qed
qed

text \<open>An open port whose session is in a re-authentication, and its answer to the identity request.\<close>

definition reauth_port :: PortPae where
  "reauth_port = \<lparr>cfg = pae_config_default,
     sessions = [\<lparr>mac = (2, 0, 0, 0, 0, 1), state = State.Connecting, auth_kind = Dot1x, eap_id = 2, tx_count = 1,
       authz = Some authorization_default, accounting_open = True\<rparr>]\<rparr>"

definition good_identity :: bytes where
  "good_identity = [2, 1, 0, 7, 1, 97, 98]"

lemma good_identity_decodes:
  "eap_decode good_identity = Inr \<lparr>eap_code = EapCode.Response, eap_identifier = 1,
     eap_type = Some EapType.Identity, type_data = [97, 98]\<rparr>"
  by (simp add: good_identity_def eap_decode_def eap_decode_typed_def codec_simps get_upto_def get_range_def get_at_def
      u16_from_be_def eap_code_from_u8_def eap_type_from_u8_def has_type_def)

abbreviation open_calls :: "Call list" where
  "open_calls \<equiv> [Apply ''Ethernet0'' Port (Authorized authorization_default)]"

theorem silent_server_ends_service_witness:
  "\<exists>frame pae' orc' w' e. worker_loop rfc_proto sample_deps [FromSocket [Done frame], FromSocket [Done start_frame]]
       (reauth_port, sample_orch, worker_start open_calls sample_connection) = ((pae', orc', w'), Inl e) \<and>
     recorded (w_enforcer w') ''Ethernet0'' = Some (Authorized authorization_default)"
proof -
  obtain frame where f: "encode_frame (pdu_new PacketType.Eap good_identity) PAE_GROUP_ADDR (2, 0, 0, 0, 0, 1) = Inr frame"
    by (simp add: encode_frame_def pdu_encode_into_def pdu_new_def u16_try_from_def good_identity_def)
  then have len: "length frame \<le> FRAME_CAP"
    using encoded_frame_length [OF f] by (simp add: good_identity_def pdu_new_def FRAME_CAP_def)
  have "port_session reauth_port (2, 0, 0, 0, 0, 1) = Some (hd (sessions reauth_port))"
    "state (hd (sessions reauth_port)) = State.Connecting \<or> state (hd (sessions reauth_port)) = State.Authenticating"
    by (simp_all add: reauth_port_def port_session_def)
  moreover have "inbound (stream (w_conn (worker_start open_calls sample_connection))) = []"
    "arrivals (env_peer sample_env (w_requests (worker_start open_calls sample_connection))) = []"
    by (simp_all add: worker_start_def sample_connection_def sample_env_def)
  ultimately obtain pae' orc' w' e where
    run: "worker_loop rfc_proto sample_deps [FromSocket [Done frame], FromSocket [Done start_frame]]
      (reauth_port, sample_orch, worker_start open_calls sample_connection) = ((pae', orc', w'), Inl e)"
    and "others_only sample_env recording_enforcer open_calls (w_enforcer w')"
    using silent_server_ends_service [OF rfc_proto_laws _ _ good_identity_decodes _ f len,
        of reauth_port "hd (sessions reauth_port)" "worker_start open_calls sample_connection" sample_env
          recording_enforcer "\<lambda>_. []" "\<lparr>fd = 5, ifindex = 3\<rparr>" sample_setup "[FromSocket [Done start_frame]]" sample_orch]
    by (auto simp: worker_start_def simp del: worker_loop.simps)
  then have "recorded (w_enforcer w') ''Ethernet0'' = Some (Authorized authorization_default)"
    by (simp add: others_only_def sample_env_def recorded_def)
  with run show ?thesis by blast
qed

end
