(* ===== verification/Authd_Late.thy ===== *)
theory Authd_Late
  imports Authd_Verdict Authd_Properties
begin

text \<open>
  Expiries that are queued when their timer is cancelled or armed again: nothing takes them
  off the channel, and the loop delivers them to whatever the session has become.
\<close>

section \<open>The channel only grows within a turn\<close>

definition channel_grows :: "'s Worker \<Rightarrow> 's Worker \<Rightarrow> bool" where
  "channel_grows w w' \<longleftrightarrow> (\<exists>later. channel (w_sched w') = channel (w_sched w) @ later)"

lemma channel_growsI: "channel (w_sched w') = channel (w_sched w) @ later \<Longrightarrow> channel_grows w w'"
  by (auto simp: channel_grows_def)

lemma channel_grows_refl: "channel_grows w w"
  by (rule channel_growsI [of _ _ "[]"]) simp

lemma channel_grows_trans: "channel_grows u v \<Longrightarrow> channel_grows v w \<Longrightarrow> channel_grows u w"
  by (auto simp: channel_grows_def)

lemma same_sched_grows: "w_sched w2 = w_sched w1 \<Longrightarrow> channel_grows w w1 \<Longrightarrow> channel_grows w w2"
  by (simp add: channel_grows_def)

lemma fires_grow: "channel_grows w (foldl (\<lambda>w i. fire i w) w ns)"
proof (induction ns arbitrary: w)
  case (Cons n ns)
  have "channel_grows w (fire n w)" by (auto simp: channel_grows_def scheduler_fire_def split: option.split)
  with Cons.IH [of "fire n w"] show ?case by (auto intro: channel_grows_trans)
qed (simp add: channel_grows_refl)

lemma elapse_grows: "channel_grows w (elapse env E w)"
  using fires_grow [of "w\<lparr>w_moment := Suc (w_moment w),
      w_enforcer := foldl (perform E) (w_enforcer w) (env_others env (w_moment w))\<rparr>" "env_wakes env (w_moment w)"]
  by (simp add: elapse_def channel_grows_def Let_def)

lemma worker_calls_grow: "calls_within (worker_deps rp env E to_str sock ps) channel_grows"
  unfolding calls_within_def
  by (auto simp: worker_deps_def channel_grows_refl elapse_grows intro!: reflpI transpI
      intro: channel_grows_trans same_sched_grows [OF call_sched(1)] same_sched_grows [OF call_sched(2)]
        same_sched_grows [OF call_sched(3)] same_sched_grows [OF _ channel_grows_refl])

lemma dispatch_grows:
  assumes "dispatch rp (worker_deps rp env E to_str sock ps) de d = (d', r)"
  shows "channel_grows (snd d) (snd d')"
proof -
  obtain orc w where d: "d = (orc, w)" by fastforce
  have el: "channel_grows w w1" if "channel (w_sched w1) = channel (w_sched (elapse env E w))" for w1 :: "'a Worker"
    using elapse_grows [of w env E] that by (simp add: channel_grows_def)
  consider (arm) k where "de_effect de = ArmTimer k" | (cancel) k where "de_effect de = CancelTimer k"
    | (all) "de_effect de = CancelAllTimers" | (set) a where "de_effect de = SetAuthorization a"
    | (call) "\<And>a. de_effect de \<noteq> SetAuthorization a" "\<And>k. de_effect de \<noteq> ArmTimer k"
      "\<And>k. de_effect de \<noteq> CancelTimer k" "de_effect de \<noteq> CancelAllTimers"
    by (cases "de_effect de") auto
  then have "channel_grows w (snd d')"
  proof cases
    case set
    with assms have "w_sched (snd d') = w_sched (elapse env E w)"
      by (auto simp: d dispatch_def no_follow_def then_do_def set_authorization_def worker_boundaries case_prod_unfold
          Let_def split: sum.splits)
    then show ?thesis by (intro el) simp
  next
    case call
    from dispatch_within [OF worker_calls_grow [of rp env E to_str sock ps] call, of d rp] assms d show ?thesis by simp
  qed (use assms in \<open>auto simp: d dispatch_def worker_boundaries split: option.splits intro: channel_grows_refl el\<close>)
  then show ?thesis by (simp add: d)
qed

lemma dispatch_all_grows:
  assumes "dispatch_all rp (worker_deps rp env E to_str sock ps) m des d = (d', r)"
  shows "channel_grows (snd d) (snd d')"
  using assms
proof (induction des arbitrary: d d' r)
  case (Cons de des)
  let ?D = "worker_deps rp env E to_str sock ps"
  obtain d1 x where d: "dispatch rp ?D de d = (d1, x)" by fastforce
  obtain d2 y where ds: "dispatch_all rp ?D m des d1 = (d2, y)" by fastforce
  show ?case
    using Cons.prems d ds dispatch_grows [OF d] Cons.IH [OF ds]
    by (cases x; cases y) (auto intro: channel_grows_trans)
qed (simp add: channel_grows_refl)

text \<open>An event that asks the server nothing: the session is stepped once, and the channel grows.\<close>

lemma handle_event_local:
  assumes laws: "radius_laws rp" and wf: "port_wf pae" and x: "port_session pae m = Some x"
    and quiet: "radius_count (snd (step x e (cfg pae))) = 0"
    and run: "handle_event rp (worker_deps rp env E to_str sock ps) m e (pae, orc, w) = ((pae', orc', w'), Inr ())"
  shows "pae' = fst (handle pae m e)" "channel_grows w w'"
proof -
  let ?D = "worker_deps rp env E to_str sock ps"
  obtain pae1 des where h: "handle pae m e = (pae1, des)" by fastforce
  obtain d1 r where d1: "dispatch_all rp ?D m des (orc, w) = (d1, r)" by fastforce
  from run obtain fs where fs: "r = Inr fs" and rest: "event_loop (Suc 0) rp ?D fs (pae1, d1) = ((pae', orc', w'), Inr ())"
    by (cases r) (simp_all only: handle_event_unroll [OF laws] event_loop.simps h d1 Let_def split_conv append_Nil
        then_do_simps prod.inject sum.distinct simp_thms)
  have "map de_effect des = snd (step x e (cfg pae))"
    using handle_session(1) [OF wf x, of e] by (simp add: h decorate_effects)
  with quiet have "fs = []" using dispatch_all_ok [OF laws d1 [unfolded fs]] by simp
  with rest have "pae' = pae1" "d1 = (orc', w')" by simp_all
  then show "pae' = fst (handle pae m e)" "channel_grows w w'" using dispatch_all_grows [OF d1] by (simp_all add: h)
qed

section \<open>A late expiry\<close>

text \<open>
  C37. An expiry that came too late wins over the supplicant: when the last transmission
  period has just expired, so that its expiry is queued, and the supplicant's EAPOL-Start is
  taken from the socket first, the daemon answers it with a new identity request and starts
  a new period, but then delivers the old expiry as if the new period had run out: the supplicant is
  treated as absent, its session held or put in the guest VLAN, and an established
  session that was being re-authenticated is torn down.
\<close>

theorem late_expiry_beats_supplicant:
  assumes laws: "radius_laws rp" and wf: "port_wf pae"
    and x: "port_session pae m = Some x" "state x = State.Connecting" "\<not> tx_count x < max_reauth_req (cfg pae)"
    and mab: "\<not> mab_enabled (cfg pae)"
    and frame: "decode_frame frame = Inr f" "src (ethernet f) = m" "packet_type (pdu f) = PacketType.Start"
      "length frame \<le> FRAME_CAP"
    and late: "channel (w_sched w) = (m, Timer TimerKind.TxPeriod) # q"
    and run: "worker_loop rp (worker_deps rp env E to_str sock ps) [FromSocket [Done frame], FromChannel] (pae, orc, w) =
      ((pae', orc', w'), Inr ())"
  shows "port_session pae' m =
    (if accounting_open x then None
     else Some (x\<lparr>eap_id := eap_id x + 1,
       state := (case guest_vlan (cfg pae) of None \<Rightarrow> State.Held | Some _ \<Rightarrow> State.Fallback Guest)\<rparr>))"
proof -
  let ?D = "worker_deps rp env E to_str sock ps" and ?y = "x\<lparr>eap_id := eap_id x + 1\<rparr>"
  have turn: "loop_turn rp ?D (FromSocket [Done frame]) (pae, orc, w) = handle_event rp ?D m EapolStart (pae, orc, w)"
    using frame by (simp add: dispatch_frame_def frame_event_def)
  from run obtain pae1 orc1 w1 where one: "handle_event rp ?D m EapolStart (pae, orc, w) = ((pae1, orc1, w1), Inr ())"
    and two: "loop_turn rp ?D FromChannel (pae1, orc1, w1) = ((pae', orc', w'), Inr ())"
    by (auto simp: then_do_ok_iff turn simp del: loop_turn.simps)
  have start: "step x EapolStart (cfg pae) = send_identity x" using x(2) by (simp add: step_def step_in_state_def)
  then have "radius_count (snd (step x EapolStart (cfg pae))) = 0" by (simp add: send_identity_def radius_count_simps)
  note first = handle_event_local [OF laws wf x(1) this one]
  have c: "cfg pae1 = cfg pae" by (simp add: first(1))
  have y: "port_session pae1 m = Some ?y" "port_wf pae1"
    using handle_session(2,3) [OF wf x(1), of EapolStart] x(2)
    by (simp_all add: first(1) start send_identity_def)
  from first(2) late obtain later where "channel (w_sched w1) = (m, Timer TimerKind.TxPeriod) # q @ later"
    by (auto simp: channel_grows_def)
  with two have late1: "handle_event rp ?D m (Timer TimerKind.TxPeriod) (pae1, orc1, pop_channel w1) =
      ((pae', orc', w'), Inr ())" by simp
  have expiry: "step ?y (Timer TimerKind.TxPeriod) (cfg pae1) = no_supplicant (cfg pae) ?y"
    using x(2,3) by (simp add: step_def step_in_state_def c)
  then have "radius_count (snd (step ?y (Timer TimerKind.TxPeriod) (cfg pae1))) = 0"
    using mab by (simp add: no_supplicant_def teardown_def enter_fallback_def hold_def radius_count_simps split: option.split)
  from handle_event_local(1) [OF laws y(2,1) this late1] handle_session(2) [OF y(2,1), of "Timer TimerKind.TxPeriod"]
  have "port_session pae' m = (if state (fst (no_supplicant (cfg pae) ?y)) = State.New then None
      else Some (fst (no_supplicant (cfg pae) ?y)))" by (simp add: expiry)
  then show ?thesis
    using mab x(2) by (auto simp: no_supplicant_def teardown_def enter_fallback_def hold_def split: option.split)
qed

text \<open>A session whose second identity request has just timed out.\<close>

definition waiting_session :: PortSession where
  "waiting_session = \<lparr>mac = (2, 0, 0, 0, 0, 1), state = State.Connecting, auth_kind = Dot1x, eap_id = 2, tx_count = 2,
     authz = None, accounting_open = False\<rparr>"

abbreviation waiting_port :: PortPae where
  "waiting_port \<equiv> \<lparr>cfg = pae_config_default, sessions = [waiting_session]\<rparr>"

definition expired_worker :: "Call list Worker" where
  "expired_worker = (worker_start [] sample_connection)
     \<lparr>w_sched := scheduler_new\<lparr>channel := [((2, 0, 0, 0, 0, 1), Timer TimerKind.TxPeriod)]\<rparr>\<rparr>"

lemma waiting_port_wf:
  "port_wf waiting_port" "port_session waiting_port (2, 0, 0, 0, 0, 1) = Some waiting_session"
  by (simp_all add: port_wf_def within_capacity_def max_sessions_def port_session_def waiting_session_def
      pae_config_default_def)

lemma waiting_port_run:
  "\<exists>st'. worker_loop rfc_proto sample_deps [FromSocket [Done start_frame], FromChannel]
     (waiting_port, sample_orch, expired_worker) = (st', Inr ())"
proof -
  let ?m = "(2, 0, 0, 0, 0, 1) :: MacAddr" and ?w = expired_worker
  let ?pae1 = "waiting_port\<lparr>sessions := [waiting_session\<lparr>eap_id := 3\<rparr>]\<rparr>"
  have start: "handle waiting_port ?m EapolStart = (?pae1, map (\<lambda>x. \<lparr>de_mac = Some ?m, de_effect = x\<rparr>)
      [TxEapToSupplicant (request_identity 3), ArmTimer TimerKind.TxPeriod])"
    by (simp add: waiting_session_def handle_def step_def step_in_state_def send_identity_def prune_def decorate_def
        pae_config_default_def)
  obtain d1 where "handle_event rfc_proto sample_deps ?m EapolStart (waiting_port, sample_orch, ?w) = ((?pae1, d1), Inr ())"
    using sample_handle [OF start, of "(sample_orch, ?w)"] by (auto simp: request_identity_def)
  then obtain orc1 w1 where one: "handle_event rfc_proto sample_deps ?m EapolStart (waiting_port, sample_orch, ?w) =
      ((?pae1, orc1, w1), Inr ())" by (cases d1) auto
  have "radius_count (snd (step waiting_session EapolStart pae_config_default)) = 0"
    by (simp add: waiting_session_def step_def step_in_state_def send_identity_def radius_count_simps)
  with handle_event_local(2) [OF rfc_proto_laws waiting_port_wf _ one]
  obtain later where ch: "channel (w_sched w1) = (?m, Timer TimerKind.TxPeriod) # later"
    by (auto simp: channel_grows_def expired_worker_def)
  have "\<forall>de \<in> set (snd (handle ?pae1 ?m (Timer TimerKind.TxPeriod))). local_effect (de_effect de)"
    by (simp add: waiting_session_def handle_def step_def step_in_state_def step_defs prune_def decorate_def pae_config_default_def)
  then obtain st' where "handle_event rfc_proto sample_deps ?m (Timer TimerKind.TxPeriod) (?pae1, orc1, pop_channel w1) =
      (st', Inr ())" using sample_handle [OF prod.collapse [symmetric]] by blast
  then show ?thesis
    using one ch by (cases st') (simp add: start_frame_fits dispatch_frame_def start_frame_decodes frame_event_def pdu_new_def)
qed

theorem late_expiry_beats_supplicant_witness:
  "\<exists>pae' orc' w'. worker_loop rfc_proto sample_deps [FromSocket [Done start_frame], FromChannel]
      (waiting_port, sample_orch, expired_worker) = ((pae', orc', w'), Inr ()) \<and>
    port_session pae' (2, 0, 0, 0, 0, 1) = Some (waiting_session\<lparr>eap_id := 3, state := State.Held\<rparr>)"
proof -
  obtain pae' orc' w' where run: "worker_loop rfc_proto sample_deps [FromSocket [Done start_frame], FromChannel]
      (waiting_port, sample_orch, expired_worker) = ((pae', orc', w'), Inr ())"
    using waiting_port_run by (metis surj_pair)
  have "port_session pae' (2, 0, 0, 0, 0, 1) = Some (waiting_session\<lparr>eap_id := 3, state := State.Held\<rparr>)"
    using late_expiry_beats_supplicant [OF rfc_proto_laws waiting_port_wf _ _ _ start_frame_decodes _ _ _ _ run]
    by (simp add: waiting_session_def pae_config_default_def expired_worker_def pdu_new_def start_frame_def
        PAE_GROUP_ADDR_def FRAME_CAP_def)
  with run show ?thesis by blast
qed

end
