(* ===== verification/Authd_Posture.thy ===== *)
theory Authd_Posture
  imports Authd_Dataplane
begin

text \<open>
  The dataplane of a port with a single slot (single-host and multi-host): over a whole
  run of \<open>run_port\<close>, what the enforcer holds for the port is what the port's session
  says, since no second session can write over it.
\<close>

section \<open>The port as one session\<close>

definition single_slot :: "PaeConfig \<Rightarrow> bool" where
  "single_slot c \<longleftrightarrow> host_mode c = SingleHost \<or> host_mode c = MultiHost"

definition slot_inv :: "PortPae \<Rightarrow> PortAuthorization \<Rightarrow> bool" where
  "slot_inv p d \<longleftrightarrow>
     single_slot (cfg p) \<and> port_wf p \<and>
     (case sessions p of [] \<Rightarrow> d = Unauthorized | s # _ \<Rightarrow> session_inv (cfg p) s d)"

lemma slot_sessions:
  assumes "slot_inv p d"
  shows "sessions p = [] \<or> (\<exists>s. sessions p = [s])"
proof -
  have "length (sessions p) \<le> 1"
    using assms by (auto simp: slot_inv_def single_slot_def port_wf_def within_capacity_def max_sessions_def)
  then show ?thesis by (cases "sessions p") auto
qed

lemma slot_wf:
  "single_slot c \<Longrightarrow> state s \<noteq> State.New \<Longrightarrow> port_wf \<lparr>cfg = c, sessions = [s]\<rparr>"
  "port_wf \<lparr>cfg = c, sessions = []\<rparr>"
  by (auto simp: single_slot_def port_wf_def within_capacity_def max_sessions_def split: option.splits HostMode.splits)

lemma slot_prune:
  assumes "single_slot c" "session_inv c s d"
  shows "slot_inv (prune \<lparr>cfg = c, sessions = [s]\<rparr>) d"
  using assms slot_wf(1) [of c s] slot_wf(2) [of c]
  by (cases "state s = State.New") (auto simp: slot_inv_def prune_def session_inv_def)

lemma handle_slot:
  assumes inv: "slot_inv p d"
  shows "slot_inv (fst (handle p m e)) (foldl dataplane d (map de_effect (snd (handle p m e))))"
proof -
  have c: "single_slot (cfg p)" and wf: "port_wf p" using inv by (simp_all add: slot_inv_def)
  from slot_sessions [OF inv] consider (none) "sessions p = []" | (one) s where "sessions p = [s]" by blast
  then show ?thesis
  proof cases
    case none
    then have p: "p = \<lparr>cfg = cfg p, sessions = []\<rparr>" and d: "d = Unauthorized"
      using inv by (simp_all add: slot_inv_def)
    define out where "out = (if e = Enable \<or> e = EapolStart then step (session_new m) Enable (cfg p)
      else run_session (cfg p) (session_new m) [Enable, e])"
    have "session_inv (cfg p) (fst out) (foldl dataplane Unauthorized (snd out))"
      using session_dataplane.run_inv [OF session_new_inv [of "cfg p" m], of "[Enable]"]
        session_dataplane.run_inv [OF session_new_inv [of "cfg p" m], of "[Enable, e]"]
        session_dataplane.admissible_if_all_allowed
      by (cases "e = Enable \<or> e = EapolStart") (simp_all add: out_def Let_def case_prod_unfold)
    moreover have "handle p m e = (prune \<lparr>cfg = cfg p, sessions = [fst out]\<rparr>, decorate (host_mode (cfg p)) m (snd out))"
      using c by (subst (1) p)
        (auto simp: handle_unknown admit_session out_def can_admit_def active_sessions_def single_slot_def Let_def)
    ultimately show ?thesis using slot_prune [OF c] by (simp add: d)
  next
    case one
    then have p: "p = \<lparr>cfg = cfg p, sessions = [s]\<rparr>" and s: "session_inv (cfg p) s d" "state s \<noteq> State.New"
      using inv by (simp_all add: slot_inv_def port_wf_def)
    show ?thesis
    proof (cases "mac s = m")
      case True
      then have "step_first m e (cfg p) (sessions p) = Some ([fst (step s e (cfg p))], snd (step s e (cfg p)))"
        by (simp add: one case_prod_unfold Let_def)
      from handle_known [OF this] have h: "handle p m e = (prune \<lparr>cfg = cfg p, sessions = [fst (step s e (cfg p))]\<rparr>,
          decorate (host_mode (cfg p)) m (snd (step s e (cfg p))))"
        by (subst (asm) (2) p) simp
      have "session_inv (cfg p) (fst (step s e (cfg p))) (foldl dataplane d (snd (step s e (cfg p))))"
        using step_session_inv [OF s(1)] by (simp add: inv_after_def)
      then show ?thesis using slot_prune [OF c] by (simp add: h)
    next
      case False
      then have "handle p m e = (prune p, [])"
        using c s(2) one by (auto simp: handle_unknown can_admit_def active_sessions_def single_slot_def)
      moreover have "prune p = p" using s(2) one by (subst (1 2) p) (simp add: prune_def)
      ultimately show ?thesis using inv by simp
    qed
  qed
qed

section \<open>Over a whole run\<close>

definition slot_posture ::
    "('s \<Rightarrow> string \<Rightarrow> bool) \<Rightarrow> ('s \<Rightarrow> string \<Rightarrow> PortAuthorization \<Rightarrow> bool) \<Rightarrow> string \<Rightarrow> 's Worker port_state \<Rightarrow> bool" where
  "slot_posture served holds port st \<longleftrightarrow> (\<exists>a. tracks served holds port a (snd st) \<and> slot_inv (fst st) a)"

context enforcer
begin

lemma event_loop_slot:
  assumes ap: "apart port_ok port env" and ok: "port_ok port" and "slot_posture served holds port st"
    and "event_loop n rp (worker_deps rp env E to_str sock ps) q st = (st', Inr ())"
  shows "slot_posture served holds port st'"
  using assms(3-)
proof (induction n arbitrary: q st)
  case 0
  then show ?case by (cases q) auto
next
  case (Suc n)
  let ?D = "worker_deps rp env E to_str sock ps"
  obtain pae d where st: "st = (pae, d)" by (cases st)
  show ?case
  proof (cases q)
    case (Cons x q1)
    obtain m e where x: "x = (m, e)" by fastforce
    obtain pae1 des where h: "handle pae m e = (pae1, des)" by fastforce
    obtain d1 r where d1: "dispatch_all rp ?D m des d = (d1, r)" by fastforce
    from Suc.prems(2) obtain fs where fs: "r = Inr fs"
      and rest: "event_loop n rp ?D (q1 @ fs) (pae1, d1) = (st', Inr ())"
      by (cases r) (simp_all add: st Cons x h d1)
    from Suc.prems(1) obtain a where a: "tracks served holds port a d" "slot_inv pae a"
      by (auto simp: slot_posture_def st)
    have "slot_posture served holds port (pae1, d1)"
      using dispatch_all_tracks [OF ap ok a(1) d1 [unfolded fs]] handle_slot [OF a(2), of m e] h
      by (auto simp: slot_posture_def)
    from Suc.IH [OF this rest] show ?thesis .
  qed (use Suc.prems in simp)
qed

end

sublocale enforcing_worker \<subseteq>
  slot: loop_invariant rp "worker_deps rp env E to_str sock ps" "slot_posture served holds port"
  for to_str sock ps
proof
  show "slot_posture served holds port (pae, orc, w) \<Longrightarrow> slot_posture served holds port (pae, orc, fire n w)"
    for pae orc n and w :: "'s Worker"
    by (auto simp: slot_posture_def tracks_def fire_def)
next
  show "slot_posture served holds port st'"
    if "slot_posture served holds port (pae, orc, w)" "channel (w_sched w) = (m, e) # q"
      "handle_event rp (worker_deps rp env E to_str sock ps) m e (pae, orc, pop_channel w) = (st', Inr ())"
    for pae orc w m e q and st' :: "'s Worker port_state"
  proof (rule event_loop_slot [OF apart port])
    show "slot_posture served holds port (pae, orc, pop_channel w)"
      using that(1) by (auto simp: slot_posture_def tracks_def pop_channel_def)
  qed (use that(3) in \<open>simp only: handle_event_def\<close>)
qed (rule event_loop_slot [OF apart port], assumption, simp only: handle_event_def)

context enforcing_worker
begin

lemma run_port_slot:
  assumes run: "run_port rp env E to_str ps s conn is = ((pae, orc, w), Inr ())"
    and p: "setup_port ps = port" and c: "single_slot (pae_cfg ps)"
  shows "\<exists>a. holds (w_enforcer w) port a \<and> slot_inv pae a"
  using run enforced_Inr p
proof (cases rule: run_port_starts)
  case (looped sock orc1 w1)
  have "slot_inv (port_new (pae_cfg ps)) Unauthorized"
    using c slot_wf(2) by (simp add: slot_inv_def port_new_def)
  with looped(2) have "slot_posture served holds port (port_new (pae_cfg ps), orc1, w1)"
    by (auto simp: slot_posture_def)
  from slot.loop_keeps [OF this looped(4)] show ?thesis by (auto simp: slot_posture_def tracks_def)
qed simp

end

text \<open>The invariant in terms of what the session records.\<close>

lemma slot_inv_session:
  assumes "slot_inv p a" "s \<in> set (sessions p)"
  shows "a = Authorized x \<longleftrightarrow> authz s = Some x" and "state s = State.Authenticated \<Longrightarrow> authz s \<noteq> None"
    and "state s = State.Held \<Longrightarrow> a = Unauthorized"
    and "state s = State.Fallback r \<Longrightarrow> a = PortAuthorization.Fallback r (fallback_vlan (cfg p) r)"
proof -
  have "session_inv (cfg p) s a"
    using slot_sessions [OF assms(1)] assms by (auto simp: slot_inv_def)
  then show "a = Authorized x \<longleftrightarrow> authz s = Some x" "state s = State.Authenticated \<Longrightarrow> authz s \<noteq> None"
    "state s = State.Held \<Longrightarrow> a = Unauthorized"
    "state s = State.Fallback r \<Longrightarrow> a = PortAuthorization.Fallback r (fallback_vlan (cfg p) r)"
    by (auto simp: session_inv_def granted_def split: if_splits)
qed

end
