(* ===== verification/Kat.thy ===== *)
theory Kat
  imports Rust_Strings
begin

text \<open>
  The hex helpers of the known-answer tests (\<open>crates/kat\<close>). A \<open>char\<close> of the source is
  its code point, so a \<open>&str\<close> is the list of code points it decodes to.
\<close>

datatype HexError = OddLength | BadDigit nat

definition is_ascii_whitespace :: "nat \<Rightarrow> bool" where
  "is_ascii_whitespace c \<longleftrightarrow> c \<in> {32, 9, 10, 12, 13}"

text \<open>\<open>char::to_digit(16)\<close>.\<close>

definition to_digit16 :: "nat \<Rightarrow> nat option" where
  "to_digit16 c =
     (if 48 \<le> c \<and> c \<le> 57 then Some (c - 48)
      else if 65 \<le> c \<and> c \<le> 70 then Some (c - 55)
      else if 97 \<le> c \<and> c \<le> 102 then Some (c - 87)
      else None)"

fun nibbles :: "nat list \<Rightarrow> HexError + nat list" where
  "nibbles [] = Inr []"
| "nibbles (c # cs) =
     (if is_ascii_whitespace c then nibbles cs
      else and_then (ok_or (to_digit16 c) (BadDigit c)) (\<lambda>v.
        and_then (nibbles cs) (\<lambda>vs. Inr (v # vs))))"

fun pair_up :: "nat list \<Rightarrow> bytes" where
  "pair_up (hi # lo # rest) = word_of_nat (16 * hi + lo) # pair_up rest"
| "pair_up _ = []"

definition from_hex :: "nat list \<Rightarrow> HexError + bytes" where
  "from_hex s =
     and_then (nibbles s) (\<lambda>vs. if odd (length vs) then Inl OddLength else Inr (pair_up vs))"

definition to_hex :: "bytes \<Rightarrow> string" where
  "to_hex bs = concat (map fmt_02x bs)"

section \<open>Lemmas\<close>

lemma to_digit16_bound: "to_digit16 c = Some v \<Longrightarrow> v < 16"
  by (auto simp: to_digit16_def split: if_splits)

lemma of_char_hex_lower: "n < 16 \<Longrightarrow> to_digit16 (of_char (hex_lower n)) = Some n"
  by (auto simp: hex_lower_def to_digit16_def of_char_of)

lemma hex_lower_not_space: "n < 16 \<Longrightarrow> \<not> is_ascii_whitespace (of_char (hex_lower n))"
  by (auto simp: hex_lower_def is_ascii_whitespace_def of_char_of)

lemma nibbles_byte:
  "nibbles (map of_char (fmt_02x b) @ cs) =
     and_then (nibbles cs) (\<lambda>vs. Inr (unat b div 16 # unat b mod 16 # vs))"
proof -
  have "unat b div 16 < 16" using unat_u8_less [of b] by linarith
  then show ?thesis
    by (simp add: fmt_02x_def of_char_hex_lower hex_lower_not_space and_then_def split: sum.splits)
qed

lemma nibbles_bytes:
  "nibbles (map of_char (to_hex bs)) = Inr (concat (map (\<lambda>b. [unat b div 16, unat b mod 16]) bs))"
proof (induction bs)
  case (Cons b bs)
  then show ?case using nibbles_byte [of b "map of_char (to_hex bs)"] by (simp add: to_hex_def)
qed (simp add: to_hex_def)

lemma pair_up_bytes: "pair_up (concat (map (\<lambda>b. [unat b div 16, unat b mod 16]) bs)) = bs"
  by (induction bs) simp_all

lemma even_nibbles: "even (length (concat (map (\<lambda>b. [unat b div 16, unat b mod 16]) (bs :: bytes))))"
  by (induction bs) simp_all

lemma nibbles_errors: "nibbles s = Inl e \<Longrightarrow> \<exists>c \<in> set s. e = BadDigit c \<and> to_digit16 c = None \<and> \<not> is_ascii_whitespace c"
  by (induction s) (auto simp: and_then_Inl_iff ok_or_def split: if_splits option.splits)

section \<open>Properties\<close>

text \<open>
  The hex codec round-trips: decoding the rendering of any octets, with ASCII
  whitespace inserted in front of it, gives the octets back.
\<close>

theorem hex_roundtrip:
  assumes "list_all is_ascii_whitespace ws"
  shows "from_hex (ws @ map of_char (to_hex bs)) = Inr bs"
proof -
  have "nibbles (ws @ cs) = nibbles cs" for cs
    using assms by (induction ws) simp_all
  then show ?thesis
    using even_nibbles [of bs] by (simp add: from_hex_def nibbles_bytes pair_up_bytes)
qed

theorem hex_roundtrip_witness: "from_hex ([32, 10] @ map of_char (to_hex [0x88, 0x8E])) = Inr [0x88, 0x8E]"
  by (rule hex_roundtrip) (simp add: is_ascii_whitespace_def)

end
