(* ===== verification/Error_Texts.thy ===== *)
theory Error_Texts
  imports Authd_Session Enforce_Sonic Kat Rust_Fmt
begin

text \<open>
  The texts of errors (\<open>Display\<close> in the \<open>error.rs\<close> of each crate, in
  \<open>authd/src/config.rs\<close> and in \<open>kat/src/lib.rs\<close>), and the entry point
  \<open>authd/src/main.rs\<close>, which prints one. The text of an enforcer's error is data: it becomes the
  payload of \<open>AuthdError::Enforce\<close>.
\<close>

section \<open>The codec and the RADIUS client\<close>

fun pacp_error_text :: "PacpError \<Rightarrow> string" where
  "pacp_error_text (TruncatedEthernet available) =
     ''truncated Ethernet header: '' @ to_decimal available @ '' octet(s) available, need '' @ to_decimal ETH_HEADER_LEN"
| "pacp_error_text (NotEapol et) = ''EtherType '' @ fmt_06x et @ '' is not EAPOL''"
| "pacp_error_text (TruncatedEapolHeader available) =
     ''truncated EAPOL header: '' @ to_decimal available @ '' octet(s) available, need '' @ to_decimal PDU_HEADER_LEN"
| "pacp_error_text (TruncatedEapolBody declared available) =
     ''truncated EAPOL body: declared '' @ to_decimal declared @ '', available '' @ to_decimal available"
| "pacp_error_text (TruncatedEapHeader available) =
     ''truncated EAP header: '' @ to_decimal available @ '' octet(s) available, need '' @ to_decimal EAP_HEADER_LEN"
| "pacp_error_text (EapLengthMismatch declared available) =
     ''EAP length field '' @ to_decimal declared @ '' disagrees with '' @ to_decimal available @ '' available octet(s)''"
| "pacp_error_text (EapTooShort code declared) =
     ''EAP packet (code '' @ to_decimal (unat code) @ '') length '' @ to_decimal declared @ '' is below minimum''"
| "pacp_error_text (BodyTooLong len) =
     ''body length '' @ to_decimal len @ '' exceeds the 16-bit length field''"

fun packet_error_text :: "PacketError \<Rightarrow> string" where
  "packet_error_text (PacketError msg) = msg"

fun radius_error_text :: "RadiusClientError \<Rightarrow> string" where
  "radius_error_text (Proto e) = ''RADIUS codec error: '' @ packet_error_text e"
| "radius_error_text InvalidUserName = ''EAP identity is not a valid User-Name (empty/long/control chars)''"
| "radius_error_text (UnexpectedReplyCode c) = ''unexpected RADIUS reply code '' @ to_decimal (unat c)"
| "radius_error_text MissingEapMessage = ''Access-Challenge carried no EAP-Message''"
| "radius_error_text EmptyEapRelay = ''asked to relay an empty EAP packet''"
| "radius_error_text MalformedVlanAssignment =
     ''VLAN assignment lacks Tunnel-Type=13/Tunnel-Medium-Type=6 or is empty''"

section \<open>The transports\<close>

fun tls_error_text :: "TlsError \<Rightarrow> string" where
  "tls_error_text (TlsError msg) = msg"

fun radsec_error_text :: "Renderings \<Rightarrow> RadSecError \<Rightarrow> string" where
  "radsec_error_text R (Io e) = ''I/O error: '' @ io_error_text R e"
| "radsec_error_text R (RadSecError.Tls e) = ''TLS error: '' @ tls_error_text e"
| "radsec_error_text R NotFips = ''crypto provider is not FIPS-validated''"
| "radsec_error_text R CryptoPolicyViolation = ''crypto policy is not ML-KEM-1024 + TLS_AES_256_GCM_SHA384 only''"
| "radsec_error_text R NoCredential = ''PEM held no usable certificate or key''"
| "radsec_error_text R (BadFrameLength n) = ''RADIUS frame length '' @ to_decimal n @ '' outside 20..=4096''"
| "radsec_error_text R (RadSecProto e) = ''RADIUS codec error: '' @ packet_error_text e"
| "radsec_error_text R BadServerName = ''invalid server DNS name''"
| "radsec_error_text R Timeout = ''RadSec operation timed out''"
| "radsec_error_text R (UnexpectedReply expected got) =
     ''reply identifier '' @ to_decimal (unat got) @ '' does not match request '' @ to_decimal (unat expected)"

fun eapol_error_text :: "Renderings \<Rightarrow> EapolError \<Rightarrow> string" where
  "eapol_error_text R (InvalidInterfaceName n) = ''invalid interface name '' @ debug_str R n"
| "eapol_error_text R (InterfaceNotFound n) = ''interface '' @ debug_str R n @ '' not found''"
| "eapol_error_text R (EapolIo e) = ''socket I/O error: '' @ io_error_text R e"
| "eapol_error_text R (FrameTooShort n) = ''frame too short to send: '' @ to_decimal n @ '' octets''"

section \<open>The enforcer\<close>

fun db_debug :: "Db \<Rightarrow> string" where
  "db_debug Config = ''Config''"
| "db_debug Appl = ''Appl''"
| "db_debug Asic = ''Asic''"
| "db_debug Db.State = ''State''"

text \<open>\<open>backend\<close> is the \<open>Display\<close> of the connection's own errors.\<close>

fun sonic_error_text :: "Renderings \<Rightarrow> ('e \<Rightarrow> string) \<Rightarrow> 'e SonicError \<Rightarrow> string" where
  "sonic_error_text R backend (Backend e) = ''SONiC DB error: '' @ backend e"
| "sonic_error_text R backend (Unconfirmed db key) =
     ''dataplane change not confirmed in '' @ db_debug db @ '': '' @ key"
| "sonic_error_text R backend (InvalidVlan v) =
     ''assigned VLAN '' @ debug_str R v @ '' is not a SONiC VLAN id (1..=4094)''"

section \<open>The daemon\<close>

fun config_error_text :: "Renderings \<Rightarrow> ConfigError \<Rightarrow> string" where
  "config_error_text R NoPorts = ''no ports configured''"
| "config_error_text R (DuplicatePort p) = ''duplicate port '' @ debug_str R p"
| "config_error_text R (EmptyField field) = ''required field '' @ field @ '' is empty''"
| "config_error_text R BadTimeout = ''io_timeout_secs must be in 1..='' @ to_decimal (unat MAX_IO_TIMEOUT_SECS)"
| "config_error_text R (BadServerAddr a) = ''server_addr '' @ debug_str R a @ '' is not host:port''"

fun authd_error_text :: "Renderings \<Rightarrow> AuthdError \<Rightarrow> string" where
  "authd_error_text R (ConfigInvalid e) = ''config error: '' @ config_error_text R e"
| "authd_error_text R (Radius e) = ''RADIUS error: '' @ radius_error_text e"
| "authd_error_text R NoPendingRequest = ''RADIUS reply with no outstanding request''"
| "authd_error_text R ReplyVerificationFailed = ''RADIUS reply failed verification''"
| "authd_error_text R (RadSec e) = ''RadSec error: '' @ radsec_error_text R e"
| "authd_error_text R (Eapol e) = ''EAPOL socket error: '' @ eapol_error_text R e"
| "authd_error_text R (Enforce e) = ''enforcement error: '' @ e"
| "authd_error_text R (AuthdError.Frame e) = ''EAPOL frame error: '' @ pacp_error_text e"

fun hex_error_text :: "Renderings \<Rightarrow> HexError \<Rightarrow> string" where
  "hex_error_text R OddLength = ''hex string has an odd number of digits''"
| "hex_error_text R (BadDigit c) = ''invalid hex digit '' @ debug_char R c"

section \<open>The entry point\<close>

text \<open>U+2194 in UTF-8.\<close>

definition left_right_arrow :: string where
  "left_right_arrow = [CHR 0xE2, CHR 0x86, CHR 0x94]"

text \<open>\<open>main\<close>: the lines on the standard error and the exit code.\<close>

definition authd_main :: "Renderings \<Rightarrow> CryptoProvider \<Rightarrow> (CryptoProvider \<Rightarrow> bool) \<Rightarrow> string list \<times> u8" where
  "authd_main R dflt fips =
     ((case assert_fips fips (provider dflt) of
         Inr _ \<Rightarrow> [''authd: FIPS crypto policy validated (ML-KEM-1024 / AES-256-GCM-SHA384)'']
       | Inl e \<Rightarrow>
           [''authd: FIPS preflight not satisfied: '' @ radsec_error_text R e,
            ''authd: this is expected for a non-`fips` build; '' @
            ''build radsec with --features fips for the validated module''])
      @ [''authd: component stack ready. Per-port service uses worker::run_port '' @
         ''(EAPOL '' @ left_right_arrow @ '' PAE '' @ left_right_arrow @ '' RadSec '' @ left_right_arrow @
         '' SONiC); the config loader and SONiC DbConn '' @
         ''backend are the remaining deployment wiring.''],
      0)"

section \<open>What a text can bring into the log\<close>

text \<open>The texts inside an error that were made elsewhere and are printed as they are.\<close>

fun foreign_texts :: "Renderings \<Rightarrow> AuthdError \<Rightarrow> string list" where
  "foreign_texts R (ConfigInvalid (EmptyField field)) = [field]"
| "foreign_texts R (Radius (Proto e)) = [packet_error_text e]"
| "foreign_texts R (RadSec (Io e)) = [io_error_text R e]"
| "foreign_texts R (RadSec (RadSecError.Tls e)) = [tls_error_text e]"
| "foreign_texts R (RadSec (RadSecProto e)) = [packet_error_text e]"
| "foreign_texts R (Eapol (EapolIo e)) = [io_error_text R e]"
| "foreign_texts R (Enforce e) = [e]"
| "foreign_texts R _ = []"

lemma component_texts_safe [simp]:
  "log_safe (pacp_error_text pe)"
  "log_safe (radius_error_text re) \<longleftrightarrow> (\<forall>e. re = Proto e \<longrightarrow> log_safe (packet_error_text e))"
  by (cases pe; simp) (cases re; simp)

lemma transport_texts_safe:
  "log_safe (radsec_error_text R se) \<longleftrightarrow> list_all log_safe (foreign_texts R (RadSec se))"
  "log_safe (eapol_error_text R ee) \<longleftrightarrow> list_all log_safe (foreign_texts R (Eapol ee))"
  by (cases se; simp) (cases ee; simp)

lemma config_text_safe:
  "log_safe (config_error_text R ce) \<longleftrightarrow> list_all log_safe (foreign_texts R (ConfigInvalid ce))"
  by (cases ce) simp_all

lemma authd_text_safe: "log_safe (authd_error_text R e) \<longleftrightarrow> list_all log_safe (foreign_texts R e)"
proof (cases e)
  case (Radius re)
  then show ?thesis by (cases re) simp_all
qed (simp_all add: transport_texts_safe config_text_safe)

lemma db_debug_safe [simp]: "log_safe (db_debug db)"
  by (cases db) simp_all

lemma sonic_text_safe:
  "log_safe (sonic_error_text R backend e) \<longleftrightarrow>
     (case e of Backend b \<Rightarrow> log_safe (backend b) | Unconfirmed _ key \<Rightarrow> log_safe key | InvalidVlan _ \<Rightarrow> True)"
  by (cases e) simp_all

section \<open>Properties\<close>

text \<open>
  C32. Names from outside cannot break a log line: a daemon error has a control character in
  its text exactly if one of the texts made elsewhere that it carries has one; interface
  names, port names and server addresses are quoted with escapes. For an error of the SONiC
  enforcer the same holds for the VLAN that the server assigned, but the key of an unconfirmed
  change, with the \<open>Filter-Id\<close> of the server in it, is printed as it is.
\<close>

theorem error_texts_one_line:
  "(log_safe (authd_error_text R e) \<longleftrightarrow> list_all log_safe (foreign_texts R e)) \<and>
   (log_safe (authd_error_text R (Enforce (sonic_error_text R backend se))) \<longleftrightarrow>
     (case se of Backend b \<Rightarrow> log_safe (backend b) | Unconfirmed _ key \<Rightarrow> log_safe key | InvalidVlan _ \<Rightarrow> True))"
  by (simp add: authd_text_safe sonic_text_safe)

end
