(* ===== verification/Spec2Isabelle.thy ===== *)
theory Spec2Isabelle
  imports Redis_Race Authd_Late Authd_Posture Error_Texts
begin

text \<open>
  \<^bold>\<open>A verification of the 802.1X authenticator usg-authenticator.\<close>

  \<^bold>\<open>The program.\<close> A switch daemon (\<open>crates/authd\<close>) runs one loop per port. Frames come in over
  a raw socket (\<open>crates/eapol-io\<close>), are decoded by the codec (\<open>crates/pacp\<close>) and become
  events of the port's state machines (\<open>crates/pae\<close>). The machines are pure: each event gives
  a list of effects. The orchestrator (\<open>authd/src/dispatch.rs\<close>) performs them: EAP to the
  supplicant, requests to the RADIUS server (built and parsed by \<open>crates/radius-client\<close>,
  carried by \<open>crates/radsec\<close>), authorizations to the dataplane (\<open>crates/enforce\<close>, on SONiC
  \<open>crates/enforce-sonic\<close> over Redis), and timers; a reply of the server is fed back as the next
  event.

  \<^bold>\<open>The theories, in dependency order.\<close>
  \<^item> \<open>Prelude\<close>: widths of machine integers, checked slices, \<open>Result\<close> and its \<open>?\<close>, the generic
    machine locales (a run of steps, an invariant, a monitor, a padded codec).
  \<^item> \<open>Rust_Strings\<close>: UTF-8, \<open>u16::parse\<close>, decimal and hex formatting, splitting. \<open>Rust_Fmt\<close>: \<open>Debug\<close>
    of strings with its escapes, and the texts of \<open>std::io::Error\<close>.
  \<^item> \<open>Pacp\<close> (\<open>pacp/src/{ethernet,pdu,eap,lib}.rs\<close>): encoders and decoders; acceptance is shown
    to be exactly the padded image of the encoder.
  \<^item> \<open>Pae_Types\<close>, \<open>Pae_Session\<close> (\<open>pae/src/{config,effect,event,session}.rs\<close>): the session
    record and one function per state handler, composed by \<open>step\<close>. \<open>Pae_Invariants\<close>: the session
    invariant, the refinement of an abstract controlled-port specification, timers,
    accounting, bounded retries.
  \<^item> \<open>Pae_Port\<close> (\<open>pae/src/port.rs\<close>): host modes, admission, pruning and link loss; the port
    invariant ties each dataplane target to a live session.
  \<^item> \<open>Radius_Proto\<close>: the interface of the external crate \<open>radius-proto\<close> as a record of functions,
    with its documented laws (\<open>radius_laws\<close>, \<open>codec_laws\<close>), and an instance that has them.
    \<open>Radius_Client\<close> (\<open>radius-client/src\<close>): building and sealing requests, verifying and
    parsing replies.
  \<^item> \<open>Radsec\<close> (\<open>radsec/src\<close>): framing, the request/reply exchange with its deadline, \<open>connect\<close>,
    the locked crypto policy, the TLS configuration gate.
  \<^item> \<open>Eapol_Io\<close> (\<open>eapol-io/src/socket.rs\<close>): opening, binding, receiving, sending.
  \<^item> \<open>Enforce\<close> (\<open>enforce/src\<close>): the enforcer contract as the locale \<open>enforcer\<close>. \<open>Enforce_Sonic\<close>
    (\<open>enforce-sonic/src/{schema,enforcer,db}.rs\<close>) shows that over any connection with the
    contract \<open>db_conn\<close> the SONiC enforcer is one; \<open>Redis_Conn\<close> (\<open>redis_conn.rs\<close>) shows that a Redis
    server (locale \<open>redis_server\<close>) provides that contract. \<open>Redis_Race\<close>: \<open>apply\<close> calls of several ports on
    one server, interleaved command by command.
  \<^item> \<open>Authd_Config\<close> (\<open>config.rs\<close>, \<open>timers.rs\<close>), \<open>Authd_Session\<close> (\<open>session.rs\<close>, \<open>error.rs\<close>),
    \<open>Authd_Dispatch\<close> (\<open>dispatch.rs\<close>), \<open>Authd_Scheduler\<close> and \<open>Authd_Worker\<close> (\<open>worker.rs\<close>). The
    boundaries of the orchestrator are the record \<open>Deps\<close> over a world state; the worker
    instantiates it with the socket, the connection, an enforcer and the scheduler. Before every use
    of a boundary (\<open>elapse\<close>) timer tasks may wake and the loops of other ports may call the
    enforcer, as the environment says.
  \<^item> \<open>Authd_Run\<close>: invariants of whole runs of \<open>run_port\<close>, each an instance of the locale
    \<open>loop_invariant\<close>. \<open>Authd_Dataplane\<close>: what the enforcer holds during and after a run, over the
    locale \<open>enforcing_worker\<close>. \<open>Authd_Posture\<close>: on a port with one slot the dataplane is what the session
    records. \<open>Authd_Verdict\<close>: one exchange with the server, from the event to the verdict.
    \<open>Authd_Late\<close>: expiries that are queued when their timer is cancelled or armed again.
    \<open>Authd_Properties\<close> and this theory: properties of the daemon as a whole.
  \<^item> \<open>Kat\<close> (\<open>kat/src/lib.rs\<close>): the hex helpers. \<open>Error_Texts\<close>: \<open>Display\<close> of every error type, and
    \<open>main.rs\<close>, which prints one.

  \<^bold>\<open>What is shown.\<close> Safety, from the machine to the switch: a session is authorized only by a
  grant; the orchestrator takes a grant only from a reply that verifies against a request it
  sent; the enforcer leaves CONFIG_DB in the posture of the last authorization; hence, over
  every run and after its end, and whatever other ports ask of the same enforcer, a SONiC port is
  open only by a verified Access-Accept, and on a port with one slot exactly while its session retains
  that authorization. Transitions of ports that share no \<open>Filter-Id\<close> table may run at the same time. Liveness: a waiting session
  always has its timer running or its expiry queued, retries are bounded, and one event
  is processed within two steps of the machine; an event that asks the server ends in the state
  of its verdict. The codecs, the framing and the EAP relay
  round-trip; validation, parsing and request building accept exactly what their
  specifications say. Some properties record behaviour that is not what the program means to
  do (the critical VLAN, an unlucky identity, a silent server, a second supplicant, an unconfirmed
  open, session timeouts, stale \<open>State\<close>, an unquoted \<open>Filter-Id\<close>, an expiry that is delivered after its
  timer was armed again, two ports bound to one filter at the same time).

  \<^bold>\<open>Bounds.\<close> The event loop of \<open>handle_event\<close> has the source's own bound of 64 steps as its first
  argument; \<open>step_bound_never_reached\<close> shows that two are enough. The worker loop, which never
  returns without an error, is modelled over the list of inputs it has seen, so that a statement
  about all lists is one about every moment of a run. Receive and transmit loops are
  functions of the kernel's successive answers; the worker's environment gives finitely many
  before a decisive one. \<open>usize\<close> is \<open>nat\<close>; \<open>u8\<close>, \<open>u16\<close>, \<open>u32\<close> and \<open>u64\<close> are words.

  \<^bold>\<open>Not modelled.\<close> The external crates (\<open>radius-proto\<close>, \<open>rustls\<close>, \<open>redis\<close>, \<open>tokio\<close>, \<open>libc\<close>) are
  parameters. Time is not measured: timers may wake in any order, and a read is either complete
  or pending at its deadline. Tasks run between two turns of the worker loop and before each use of a
  boundary within a turn, which is where the code awaits. In the worker a call of the enforcer is one
  such use: calls of different ports follow each other there, and their interleaving command by
  command is the subject of \<open>Redis_Race\<close>, for calls that all succeed. Poisoned locks do not occur, since no holder panics. The texts of
  external errors, the C library's \<open>strerror\<close> and the Unicode tables are parameters of the error
  texts. The crate roots (\<open>lib.rs\<close>) only declare modules.
\<close>

section \<open>The daemon over the SONiC enforcer\<close>

lemma sonic_worker:
  assumes "db_conn C content" "radius_laws rp" "port_name_ok port" "apart port_name_ok port env"
  shows "enforcing_worker rp (sonic_enforcer C) (sonic_served content) (sonic_holds content) port_name_ok port env"
  using db_conn.sonic_is_enforcer [OF assms(1)] assms(2-)
  by (simp add: enforcing_worker_def port_worker_def enforcing_worker_axioms_def)


text \<open>Another port asks the same enforcer for a VLAN that it refuses.\<close>

definition other_call :: Call where
  "other_call = Apply ''Ethernet4'' Port (Authorized (authorization_default\<lparr>vlan := Some ''none''\<rparr>))"

definition busy_env :: Environment where
  "busy_env = sample_env\<lparr>env_others := \<lambda>_. [other_call]\<rparr>"

abbreviation busy_deps :: "MemServer RedisDbConn SonicEnforcer Worker Deps" where
  "busy_deps \<equiv>
     worker_deps rfc_proto busy_env (sonic_enforcer (redis_conn mem_redis)) (\<lambda>_. [])
       \<lparr>fd = 5, ifindex = 3\<rparr> sample_setup"

abbreviation sonic_deps :: "MemServer RedisDbConn SonicEnforcer Worker Deps" where
  "sonic_deps \<equiv>
     worker_deps rfc_proto sample_env (sonic_enforcer (redis_conn mem_redis)) (\<lambda>_. [])
       \<lparr>fd = 5, ifindex = 3\<rparr> sample_setup"

lemma sonic_close:
  "\<exists>s'. sonic_apply (redis_conn mem_redis) sample_sonic ''Ethernet0'' Port Unauthorized = (s', Inr ())"
  by (simp add: sonic_eval sample_conn_simps key_simps)

lemma other_call_refused: "perform (sonic_enforcer C) s other_call = s"
  by (simp add: other_call_def authorization_default_def sonic_enforcer_def sonic_apply_def check_vlan_def is_valid_vlan_def
      parse_u16_def digit_val_def)


section \<open>One supplicant on one SONiC port\<close>


text \<open>A single-host port with one supplicant that has sent an EAPOL-Start.\<close>

definition single_setup :: PortSetup where
  "single_setup = sample_setup\<lparr>pae_cfg := pae_config_default\<lparr>host_mode := SingleHost\<rparr>\<rparr>"

lemma sonic_start_effects:
  assumes "enforcer_apply (sonic_enforcer (redis_conn mem_redis)) (w_enforcer w) ''Ethernet0'' (Mac m) Unauthorized =
      (s', Inr ())" "orch_port orc = ''Ethernet0''"
  shows "\<exists>w'. dispatch_all rfc_proto sonic_deps m' (map (\<lambda>x. \<lparr>de_mac = Some m, de_effect = x\<rparr>)
    [SetAuthorization Unauthorized, TxEapToSupplicant (request_identity 1), ArmTimer TimerKind.TxPeriod]) (orc, w) =
    ((orc, w'), Inr [])"
proof -
  let ?w = "w\<lparr>w_moment := Suc (w_moment w), w_enforcer := s'\<rparr>"
  obtain w1 where w1: "send_eap sample_env sample_supplicant (?w\<lparr>w_moment := Suc (w_moment ?w)\<rparr>) m (request_identity 1) =
      (w1, Inr ())"
    using sample_send [of "request_identity 1" "?w\<lparr>w_moment := Suc (w_moment ?w)\<rparr>" m] by (auto simp: request_identity_def)
  have "dispatch rfc_proto sonic_deps \<lparr>de_mac = Some m, de_effect = SetAuthorization Unauthorized\<rparr> (orc, w) =
      ((orc, ?w), Inr None)"
    using assms by (simp add: dispatch_def no_follow_def set_authorization_def worker_boundaries map_err_def)
  moreover have "dispatch rfc_proto sonic_deps \<lparr>de_mac = Some m, de_effect = TxEapToSupplicant (request_identity 1)\<rparr>
      (orc, ?w) = ((orc, w1), Inr None)"
    using w1 by (simp add: dispatch_def no_follow_def worker_deps_def)
  moreover have "\<exists>w2. dispatch rfc_proto sonic_deps \<lparr>de_mac = Some m, de_effect = ArmTimer TimerKind.TxPeriod\<rparr>
      (orc, w1) = ((orc, w2), Inr None)"
    by (simp add: dispatch_def timer_duration_def)
  ultimately show ?thesis by auto
qed

lemma sonic_close_twice:
  assumes "sonic_apply (redis_conn mem_redis) sample_sonic ''Ethernet0'' Port Unauthorized = (s1, Inr ())"
  shows "\<exists>s'. enforcer_apply (sonic_enforcer (redis_conn mem_redis)) s1 ''Ethernet0'' (Mac m) Unauthorized = (s', Inr ())"
proof -
  have "s1 = fst (sonic_apply (redis_conn mem_redis) sample_sonic ''Ethernet0'' Port Unauthorized)" by (simp add: assms)
  then show ?thesis by (simp add: sonic_enforcer_def sonic_eval sample_conn_simps key_simps)
qed

lemma single_port_start:
  "handle (port_new (pae_cfg single_setup)) m EapolStart =
     (\<lparr>cfg = pae_cfg single_setup, sessions = [fst (step (session_new m) Enable (pae_cfg single_setup))]\<rparr>,
      map (\<lambda>x. \<lparr>de_mac = Some m, de_effect = x\<rparr>)
        [SetAuthorization Unauthorized, TxEapToSupplicant (request_identity 1), ArmTimer TimerKind.TxPeriod])"
  by (simp add: single_setup_def port_new_def handle_def can_admit_def active_sessions_def admit_def prune_def decorate_def
      step_def step_defs session_new_def pae_config_default_def)

lemma single_run_start:
  "\<exists>orc w. run_port rfc_proto sample_env (sonic_enforcer (redis_conn mem_redis)) (\<lambda>_. []) single_setup
      (sonic_new sample_conn) sample_connection [FromSocket [Done start_frame]] =
    ((\<lparr>cfg = pae_cfg single_setup,
       sessions = [fst (step (session_new (2, 0, 0, 0, 0, 1)) Enable (pae_cfg single_setup))]\<rparr>, orc, w), Inr ())"
proof -
  let ?E = "sonic_enforcer (redis_conn mem_redis)" and ?m = "(2, 0, 0, 0, 0, 1) :: MacAddr"
  have trap: "ensure_eapol_trap ?E (sonic_new sample_conn) ''Ethernet0'' = (sample_sonic, Inr ())"
    using sample_sonic_run by (simp add: sonic_enforcer_def)
  obtain s1 where s1: "sonic_apply (redis_conn mem_redis) sample_sonic ''Ethernet0'' Port Unauthorized = (s1, Inr ())"
    using sonic_close by blast
  obtain s2 where s2: "enforcer_apply ?E s1 ''Ethernet0'' (Mac ?m) Unauthorized = (s2, Inr ())"
    using sonic_close_twice [OF s1] by blast
  have deps: "worker_deps rfc_proto sample_env ?E (\<lambda>_. []) \<lparr>fd = 5, ifindex = 3\<rparr> single_setup = sonic_deps"
    by (simp add: worker_deps_def single_setup_def)
  have sock: "eapol_open (env_kernel sample_env) ''Ethernet0'' = Inr \<lparr>fd = 5, ifindex = 3\<rparr>"
    using sample_open by (simp add: sample_env_def)
  let ?orc = "orchestrator_new ''Ethernet0'' (setup_ctx single_setup)"
  let ?w = "(worker_start sample_sonic sample_connection)\<lparr>w_moment := 1, w_enforcer := s1\<rparr>"
  have close: "apply_effects rfc_proto sonic_deps (port_enable (port_new (pae_cfg single_setup)))
      (?orc, worker_start sample_sonic sample_connection) = ((?orc, ?w), Inr ())"
    using s1 by (simp add: port_enable_def dispatch_def no_follow_def set_authorization_def worker_boundaries map_err_def
        orchestrator_new_def worker_start_def sonic_enforcer_def)
  obtain w' where start: "dispatch_all rfc_proto sonic_deps ?m (map (\<lambda>x. \<lparr>de_mac = Some ?m, de_effect = x\<rparr>)
      [SetAuthorization Unauthorized, TxEapToSupplicant (request_identity 1), ArmTimer TimerKind.TxPeriod]) (?orc, ?w) =
      ((?orc, w'), Inr [])"
    using sonic_start_effects [of ?w ?m s2 ?orc ?m] s2 by (auto simp: orchestrator_new_def)
  have "worker_loop rfc_proto sonic_deps [FromSocket [Done start_frame]] (port_new (pae_cfg single_setup), ?orc, ?w) =
      ((fst (handle (port_new (pae_cfg single_setup)) ?m EapolStart), ?orc, w'), Inr ())"
    using start by (simp add: start_frame_fits dispatch_frame_def start_frame_decodes frame_event_def pdu_new_def
        handle_event_unroll [OF rfc_proto_laws] single_port_start del: list.map)
  moreover have "setup_port single_setup = ''Ethernet0''" by (simp add: single_setup_def sample_setup_def)
  ultimately show ?thesis by (simp add: run_port_def trap sock deps close single_port_start)
qed


section \<open>Several supplicants on one SONiC port\<close>

lemma find_filter: "List.find P xs = Some x \<Longrightarrow> Q x \<Longrightarrow> List.find P (filter Q xs) = Some x"
  by (induction xs) (auto split: if_splits)

lemma start_effects:
  assumes "port_session pae m = None" "host_mode (cfg pae) = MultiAuth"
  obtains pae1 des where "handle pae m EapolStart =
      (pae1, \<lparr>de_mac = Some m, de_effect = SetAuthorization Unauthorized\<rparr> # des)"
    "\<forall>de \<in> set des. \<not> is_set_authorization (de_effect de)" "radius_count (map de_effect des) = 0"
    "\<And>m' x. port_session pae m' = Some x \<Longrightarrow> state x \<noteq> State.New \<Longrightarrow> port_session pae1 m' = Some x"
proof -
  have m: "m \<notin> mac ` set (sessions pae)" using assms(1) by (auto simp: port_session_def find_None_iff)
  obtain pae1 des where h: "handle pae m EapolStart = (pae1, des)" by fastforce
  have "pae1 = prune (pae\<lparr>sessions := sessions pae @ [fst (step (session_new m) Enable (cfg pae))]\<rparr>)"
    and des: "des = map (\<lambda>x. \<lparr>de_mac = Some m, de_effect = x\<rparr>) (snd (step (session_new m) Enable (cfg pae)))"
    using h m assms(2)
    by (auto simp: handle_unknown can_admit_def admit_session decorate_def Let_def)
  then have keep: "port_session pae1 m' = Some x" if "port_session pae m' = Some x" "state x \<noteq> State.New" for m' x
    using find_filter [of "\<lambda>s. mac s = m'" "sessions pae" x "\<lambda>s. state s \<noteq> State.New"] that
    by (simp add: port_session_def prune_def find_append)
  show thesis
  proof (rule that)
    show "handle pae m EapolStart = (pae1, \<lparr>de_mac = Some m, de_effect = SetAuthorization Unauthorized\<rparr> # tl des)"
      using h des by (simp add: step_def step_defs)
    show "\<forall>de \<in> set (tl des). \<not> is_set_authorization (de_effect de)"
      by (simp add: des step_def step_defs)
    show "radius_count (map de_effect (tl des)) = 0"
      by (simp add: des step_def step_defs radius_count_simps)
  qed (rule keep)
qed

text \<open>
  C39. A second supplicant closes the first one's port: on a multi-auth port with an
  authenticated session, a single EAPOL-Start from any other MAC makes the SONiC
  enforcer program the whole port as unauthorized, while the first session stays
  authenticated in the PAE and nothing tells it to authenticate again.
\<close>

theorem second_supplicant_closes_sonic_port:
  assumes "db_conn C content" and laws: "radius_laws rp" and "port_name_ok (orch_port orc)"
    and ap: "apart port_name_ok (orch_port orc) env"
    and "sonic_served content (w_enforcer w) (orch_port orc)"
    and "host_mode (cfg pae) = MultiAuth" and "port_session pae m = Some x" and "state x = State.Authenticated"
    and m2: "port_session pae m2 = None"
    and run: "handle_event rp (worker_deps rp env (sonic_enforcer C) to_str sock ps) m2 EapolStart (pae, orc, w) =
      ((pae', orc', w'), Inr ())"
  shows "sonic_holds content (w_enforcer w') (orch_port orc) Unauthorized \<and> port_session pae' m = Some x"
proof -
  let ?D = "worker_deps rp env (sonic_enforcer C) to_str sock ps"
  let ?close = "\<lparr>de_mac = Some m2, de_effect = SetAuthorization Unauthorized\<rparr>"
  obtain pae1 des where h: "handle pae m2 EapolStart = (pae1, ?close # des)"
    and quiet: "\<forall>de \<in> set des. \<not> is_set_authorization (de_effect de)" "radius_count (map de_effect des) = 0"
    and keep: "port_session pae1 m = Some x"
    using start_effects [OF m2 assms(6)] assms(7,8) by (metis State.distinct(7))
  obtain d1 r where d1: "dispatch_all rp ?D m2 (?close # des) (orc, w) = (d1, r)" by fastforce
  from run obtain fs where fs: "r = Inr fs"
    and rest: "event_loop (Suc 0) rp ?D fs (pae1, d1) = ((pae', orc', w'), Inr ())"
    by (cases r) (simp_all only: handle_event_unroll [OF laws] event_loop.simps h d1 Let_def split_conv append_Nil
        then_do_simps prod.inject sum.distinct simp_thms)
  have "fs = []" using dispatch_all_ok [OF laws d1 [unfolded fs]] quiet(2) by (simp add: radius_count_simps)
  with rest have final: "pae' = pae1" "d1 = (orc', w')" by simp_all
  from d1 fs obtain d2 f where two: "dispatch rp ?D ?close (orc, w) = (d2, Inr f)"
    and more: "dispatch_all rp ?D m2 des d2 = (d1, Inr fs)"
    using \<open>fs = []\<close> by (auto simp: then_do_ok_iff split: option.splits)
  note en = db_conn.sonic_is_enforcer [OF assms(1)]
  let ?s = "w_enforcer (elapse env (sonic_enforcer C) w)"
  have served: "sonic_served content ?s (orch_port orc)"
    using enforcer.others_frame [OF en ap assms(3) elapse_others assms(5)] by blast
  have "enforcer_apply (sonic_enforcer C) ?s (orch_port orc) (Mac m2) Unauthorized = (w_enforcer (snd d2), Inr ())"
    using two
    by (cases "enforcer_apply (sonic_enforcer C) ?s (orch_port orc) (Mac m2) Unauthorized";
        cases "snd (enforcer_apply (sonic_enforcer C) ?s (orch_port orc) (Mac m2) Unauthorized)")
      (auto simp: dispatch_def no_follow_def then_do_ok_iff set_authorization_def worker_boundaries map_err_def)
  from enforcer.apply_confirms [OF en assms(3) served this]
    enforcer.others_frame [OF en ap assms(3) dispatch_all_others [OF more quiet(1)]]
  show ?thesis using final keep by simp
qed

text \<open>An open SONiC port with one authenticated session.\<close>

definition open_sonic :: "MemServer RedisDbConn SonicEnforcer" where
  "open_sonic = fst (sonic_apply (redis_conn mem_redis) sample_sonic ''Ethernet0'' Port (Authorized authorization_default))"

definition open_port :: PortPae where
  "open_port = \<lparr>cfg = pae_config_default,
     sessions = [\<lparr>mac = (2, 0, 0, 0, 0, 1), state = State.Authenticated, auth_kind = Dot1x, eap_id = 1, tx_count = 1,
       authz = Some authorization_default, accounting_open = True\<rparr>]\<rparr>"

lemma open_sonic_served: "sonic_served (redis_content mem_data) open_sonic ''Ethernet0''"
proof -
  obtain s' where s': "sonic_apply (redis_conn mem_redis) sample_sonic ''Ethernet0'' Port
      (Authorized authorization_default) = (s', Inr ())" using sample_sonic_open by blast
  then have "enforcer_apply (sonic_enforcer (redis_conn mem_redis)) sample_sonic ''Ethernet0'' Port
      (Authorized authorization_default) = (open_sonic, Inr ())" by (simp add: sonic_enforcer_def open_sonic_def)
  from enforcer.apply_confirms [OF db_conn.sonic_is_enforcer [OF mem.redis_db_conn] _ sample_sonic_served this]
  show ?thesis by (simp add: port_name_ok_def)
qed

lemma open_sonic_close:
  "\<exists>s'. enforcer_apply (sonic_enforcer (redis_conn mem_redis)) open_sonic ''Ethernet0'' (Mac m) Unauthorized = (s', Inr ())"
  by (simp add: open_sonic_def sonic_enforcer_def sonic_eval sample_conn_simps key_simps authorization_default_def)

lemma open_port_second_start:
  "\<exists>pae' orc' w'. handle_event rfc_proto sonic_deps (2, 0, 0, 0, 0, 2) EapolStart
     (open_port, sample_orch, worker_start open_sonic sample_connection) = ((pae', orc', w'), Inr ())"
proof -
  let ?w = "worker_start open_sonic sample_connection" and ?m = "(2, 0, 0, 0, 0, 2) :: MacAddr"
  obtain s' where s': "enforcer_apply (sonic_enforcer (redis_conn mem_redis)) open_sonic ''Ethernet0'' (Mac ?m)
      Unauthorized = (s', Inr ())" using open_sonic_close by blast
  have h: "handle open_port ?m EapolStart = (open_port\<lparr>sessions := sessions open_port @
      [fst (step (session_new ?m) Enable pae_config_default)]\<rparr>,
      map (\<lambda>x. \<lparr>de_mac = Some ?m, de_effect = x\<rparr>)
        [SetAuthorization Unauthorized, TxEapToSupplicant (request_identity 1), ArmTimer TimerKind.TxPeriod])"
    by (simp add: open_port_def handle_def can_admit_def admit_def prune_def decorate_def step_def step_defs
        session_new_def pae_config_default_def)
  obtain w' where "dispatch_all rfc_proto sonic_deps ?m (snd (handle open_port ?m EapolStart)) (sample_orch, ?w) =
      ((sample_orch, w'), Inr [])"
    using sonic_start_effects [of ?w ?m s' sample_orch ?m] s'
    by (auto simp: h worker_start_def sample_orch_def orchestrator_new_def)
  then show ?thesis by (simp add: handle_event_unroll [OF rfc_proto_laws] h)
qed

theorem second_supplicant_closes_sonic_port_witness:
  "\<exists>pae' orc' w'. handle_event rfc_proto sonic_deps (2, 0, 0, 0, 0, 2) EapolStart
       (open_port, sample_orch, worker_start open_sonic sample_connection) = ((pae', orc', w'), Inr ()) \<and>
     sonic_holds (redis_content mem_data) (w_enforcer w') ''Ethernet0'' Unauthorized \<and>
     port_session pae' (2, 0, 0, 0, 0, 1) = Some (hd (sessions open_port))"
proof -
  obtain pae' orc' w' where run: "handle_event rfc_proto sonic_deps (2, 0, 0, 0, 0, 2) EapolStart
      (open_port, sample_orch, worker_start open_sonic sample_connection) = ((pae', orc', w'), Inr ())"
    using open_port_second_start by blast
  have port: "orch_port sample_orch = ''Ethernet0''" by (simp add: sample_orch_def orchestrator_new_def)
  have "sonic_holds (redis_content mem_data) (w_enforcer w') (orch_port sample_orch) Unauthorized \<and>
      port_session pae' (2, 0, 0, 0, 0, 1) = Some (hd (sessions open_port))"
    using open_sonic_served
    by (intro second_supplicant_closes_sonic_port [OF mem.redis_db_conn rfc_proto_laws _ sample_apart _ _ _ _ _ run])
      (simp_all add: port port_name_ok_def open_port_def pae_config_default_def port_session_def worker_start_def)
  with run port show ?thesis by auto
qed

end
